(* ===== verification/Prelude.thy ===== *)
theory Prelude
  imports Main "HOL-Library.Sublist"
begin

text \<open>
  Shared by every component: the result type of fallible operations, the collections that
  carry the proofs, generic facts on lists and options, and the interface of a
  deterministic event handler with an invariant, which several components instantiate.
\<close>

section \<open>Collections of facts\<close>

named_theorems inv_intros \<open>preservation of component invariants\<close>
named_theorems go_defs \<open>definitions that a component proof unfolds\<close>

section \<open>Results\<close>

text \<open>
  A Go function that returns \<open>(T, error)\<close> is modelled as a value of \<open>'e + 'a\<close>: \<open>Inl\<close> for a
  non-nil error, \<open>Inr\<close> for the value returned with a nil error.
\<close>

type_synonym ('e, 'a) result = "'e + 'a"

fun is_ok :: "('e, 'a) result \<Rightarrow> bool" where
  "is_ok (Inr _) = True"
| "is_ok (Inl _) = False"

lemma is_ok_iff: "is_ok r \<longleftrightarrow> (\<exists>x. r = Inr x)"
  by (cases r) auto

section \<open>Lists and options\<close>

lemma find_Some_in_set: "find P xs = Some x \<Longrightarrow> x \<in> set xs \<and> P x"
  by (induction xs) (auto split: if_splits)

lemma find_None_all: "find P xs = None \<longleftrightarrow> (\<forall>x \<in> set xs. \<not> P x)"
  by (induction xs) auto

lemma list_ex_iff_find: "list_ex P xs \<longleftrightarrow> find P xs \<noteq> None"
  by (induction xs) auto

lemma last_snoc_eq [simp]: "last (xs @ [x]) = x"
  by simp

section \<open>Event handlers with an invariant\<close>

text \<open>
  The interface of a component that handles one event at a time: a handler, and an
  invariant that holds at the start and that every event keeps. What the client obtains is
  that the invariant holds after any finite sequence of events, and at every prefix.
\<close>

locale event_handler =
  fixes handle :: "'s \<Rightarrow> 'e \<Rightarrow> 's"
    and start :: 's
    and invar :: "'s \<Rightarrow> bool"
  assumes invar_start: "invar start"
    and invar_handle: "invar s \<Longrightarrow> invar (handle s e)"
begin

lemma invar_foldl: "invar s \<Longrightarrow> invar (foldl handle s es)"
  by (induction es arbitrary: s) (simp_all add: invar_handle)

lemma invar_run: "invar (foldl handle start es)"
  by (rule invar_foldl [OF invar_start])

lemma invar_prefix: "prefix ds es \<Longrightarrow> invar (foldl handle start ds)"
  by (rule invar_run)

end

text \<open>
  An event handler that moreover implements a simpler one: an abstraction function that
  commutes with every step from a state in the invariant.
\<close>

locale refined_handler = event_handler handle start invar
  for handle :: "'s \<Rightarrow> 'e \<Rightarrow> 's" and start :: 's and invar :: "'s \<Rightarrow> bool" +
  fixes spec :: "'a \<Rightarrow> 'e \<Rightarrow> 'a"
    and abs :: "'s \<Rightarrow> 'a"
  assumes abs_handle: "invar s \<Longrightarrow> abs (handle s e) = spec (abs s) e"
begin

lemma abs_foldl: "invar s \<Longrightarrow> abs (foldl handle s es) = foldl spec (abs s) es"
  by (induction es arbitrary: s) (simp_all add: abs_handle invar_handle)

lemma abs_run: "abs (foldl handle start es) = foldl spec (abs start) es"
  by (rule abs_foldl [OF invar_start])

end

end
