(* ===== verification/Go_Strings.thy ===== *)
theory Go_Strings
  imports Prelude
begin

text \<open>
  The parts of Go's standard library that the program calls on strings (packages strings,
  strconv and fmt). A Go string is a sequence of bytes; it is modelled as a list of HOL
  characters, one per byte. White space is the white space of Unicode in its UTF-8 encoding.
  Case mapping covers ASCII and the code points whose other case is an ASCII letter, which is
  what a comparison with an ASCII text can observe; every other byte is left unchanged.
\<close>

section \<open>Searching and splitting\<close>

abbreviation contains :: "string \<Rightarrow> string \<Rightarrow> bool" where
  "contains s sub \<equiv> sublist sub s"

abbreviation has_prefix :: "string \<Rightarrow> string \<Rightarrow> bool" where
  "has_prefix s p \<equiv> prefix p s"

abbreviation has_suffix :: "string \<Rightarrow> string \<Rightarrow> bool" where
  "has_suffix s p \<equiv> suffix p s"

abbreviation newline :: char where
  "newline \<equiv> CHR 0x0A"

fun split_on :: "char \<Rightarrow> string \<Rightarrow> string list" where
  "split_on c [] = [[]]"
| "split_on c (x # xs) =
     (if x = c then [] # split_on c xs
      else (case split_on c xs of [] \<Rightarrow> [[x]] | w # ws \<Rightarrow> (x # w) # ws))"

fun join :: "string \<Rightarrow> string list \<Rightarrow> string" where
  "join sep [] = []"
| "join sep [w] = w"
| "join sep (w # v # ws) = w @ sep @ join sep (v # ws)"

lemma split_on_nonempty [simp]: "split_on c s \<noteq> []"
  by (induction s) (auto split: list.splits)

lemma join_split_on: "join [c] (split_on c s) = s"
proof (induction s)
  case Nil
  show ?case by simp
next
  case (Cons x xs)
  obtain w ws where ws: "split_on c xs = w # ws"
    by (cases "split_on c xs") auto
  then show ?case using Cons.IH by (cases ws) auto
qed

lemma split_on_no_sep: "c \<notin> set s \<Longrightarrow> split_on c s = [s]"
  by (induction s) auto

lemma split_on_append_sep:
  "c \<notin> set w \<Longrightarrow> split_on c (w @ c # s) = w # split_on c s"
  by (induction w) auto

lemma split_on_elem_no_sep: "w \<in> set (split_on c s) \<Longrightarrow> c \<notin> set w"
  by (induction s arbitrary: w) (auto split: list.splits if_splits)

lemma set_join: "set (join sep ws) \<subseteq> \<Union> (set (map set ws)) \<union> set sep"
  by (induction sep ws rule: join.induct) auto

text \<open>\<open>strings.ReplaceAll\<close> of a single byte by a text.\<close>

definition replace_char :: "char \<Rightarrow> string \<Rightarrow> string \<Rightarrow> string" where
  "replace_char c r s = concat (map (\<lambda>x. if x = c then r else [x]) s)"

lemma replace_char_simps [simp]:
  "replace_char c r [] = []"
  "replace_char c r (x # s) = (if x = c then r else [x]) @ replace_char c r s"
  by (simp_all add: replace_char_def)

lemma replace_char_absent: "c \<notin> set s \<Longrightarrow> replace_char c r s = s"
  by (induction s) auto

lemma set_replace_char: "set (replace_char c r s) \<subseteq> (set s - {c}) \<union> set r"
  by (induction s) auto

text \<open>\<open>strings.Replace(s, old, new, 1)\<close>: the first occurrence only.\<close>

fun replace_first :: "string \<Rightarrow> string \<Rightarrow> string \<Rightarrow> string" where
  "replace_first old new s =
     (if prefix old s then new @ drop (length old) s
      else (case s of [] \<Rightarrow> [] | c # cs \<Rightarrow> c # replace_first old new cs))"

declare replace_first.simps [simp del]

section \<open>Line scanners\<close>

text \<open>
  \<open>bufio.Scanner\<close> with \<open>ScanLines\<close>: the lines of a text without their end-of-line marks (a
  newline, with an optional carriage return before it); a last line need not be terminated. The
  scan stops with an error at the first line that does not fit the buffer of 64 KiB.
\<close>

definition drop_cr :: "string \<Rightarrow> string" where
  "drop_cr w = (if w \<noteq> [] \<and> last w = CHR 0x0D then butlast w else w)"

definition raw_lines :: "string \<Rightarrow> string list" where
  "raw_lines s = (let ws = split_on newline s in if last ws = [] then butlast ws else ws)"

definition scan_lines :: "string \<Rightarrow> string list" where
  "scan_lines s = map drop_cr (takeWhile (\<lambda>w. length w < 65536) (raw_lines s))"

definition scan_err :: "string \<Rightarrow> bool" where
  "scan_err s \<longleftrightarrow> (\<exists>w \<in> set (raw_lines s). 65536 \<le> length w)"

lemma split_on_append: "split_on c (s @ c # t) = split_on c s @ split_on c t"
  by (induction s) (auto split: list.splits)

lemma split_on_join:
  "ws \<noteq> [] \<Longrightarrow> \<forall>w \<in> set ws. c \<notin> set w \<Longrightarrow> split_on c (join [c] ws) = ws"
  by (induction "[c]" ws rule: join.induct) (auto simp: split_on_no_sep split_on_append)

lemma raw_lines_join:
  "\<forall>w \<in> set ws. newline \<notin> set w \<Longrightarrow> raw_lines (join [newline] (ws @ [[]])) = ws"
  using split_on_join [of "ws @ [[]]" newline] by (simp add: raw_lines_def)

lemma short_lines:
  assumes "\<forall>w \<in> set (raw_lines s). length w < 65536"
  shows "scan_lines s = map drop_cr (raw_lines s)" "\<not> scan_err s"
proof -
  have "takeWhile (\<lambda>w. length w < 65536) (raw_lines s) = raw_lines s"
    using assms by (simp only: takeWhile_eq_all_conv)
  then show "scan_lines s = map drop_cr (raw_lines s)" by (simp only: scan_lines_def)
  show "\<not> scan_err s" using assms by (auto simp: scan_err_def)
qed

section \<open>White space\<close>

definition space_runes :: "string list" where
  "space_runes =
     [[CHR 0x09], [CHR 0x0A], [CHR 0x0B], [CHR 0x0C], [CHR 0x0D], [CHR 0x20],
      [CHR 0xC2, CHR 0x85], [CHR 0xC2, CHR 0xA0], [CHR 0xE1, CHR 0x9A, CHR 0x80],
      [CHR 0xE2, CHR 0x80, CHR 0x80], [CHR 0xE2, CHR 0x80, CHR 0x81],
      [CHR 0xE2, CHR 0x80, CHR 0x82], [CHR 0xE2, CHR 0x80, CHR 0x83],
      [CHR 0xE2, CHR 0x80, CHR 0x84], [CHR 0xE2, CHR 0x80, CHR 0x85],
      [CHR 0xE2, CHR 0x80, CHR 0x86], [CHR 0xE2, CHR 0x80, CHR 0x87],
      [CHR 0xE2, CHR 0x80, CHR 0x88], [CHR 0xE2, CHR 0x80, CHR 0x89],
      [CHR 0xE2, CHR 0x80, CHR 0x8A], [CHR 0xE2, CHR 0x80, CHR 0xA8],
      [CHR 0xE2, CHR 0x80, CHR 0xA9], [CHR 0xE2, CHR 0x80, CHR 0xAF],
      [CHR 0xE2, CHR 0x81, CHR 0x9F], [CHR 0xE3, CHR 0x80, CHR 0x80]]"

text \<open>\<open>strip_one ps s\<close> drops one leading text of \<open>ps\<close>, if there is one.\<close>

definition strip_one :: "string list \<Rightarrow> string \<Rightarrow> string option" where
  "strip_one ps s =
     (case find (\<lambda>p. p \<noteq> [] \<and> prefix p s) ps of
        None \<Rightarrow> None
      | Some p \<Rightarrow> Some (drop (length p) s))"

lemma strip_one_shorter: "strip_one ps s = Some r \<Longrightarrow> length r < length s"
  unfolding strip_one_def
  by (cases s) (auto split: option.splits dest!: find_Some_in_set)

lemma strip_one_suffix: "strip_one ps s = Some r \<Longrightarrow> suffix r s"
  unfolding strip_one_def by (auto split: option.splits simp: suffix_drop)

function strip_all :: "string list \<Rightarrow> string \<Rightarrow> string" where
  "strip_all ps s = (case strip_one ps s of None \<Rightarrow> s | Some r \<Rightarrow> strip_all ps r)"
  by pat_completeness auto
termination
  by (relation "measure (\<lambda>(ps, s). length s)") (auto dest: strip_one_shorter)

declare strip_all.simps [simp del]

definition trim_left :: "string \<Rightarrow> string" where
  "trim_left s = strip_all space_runes s"

definition trim_right :: "string \<Rightarrow> string" where
  "trim_right s = rev (strip_all (map rev space_runes) (rev s))"

text \<open>\<open>strings.TrimSpace\<close>\<close>

definition trim_space :: "string \<Rightarrow> string" where
  "trim_space s = trim_right (trim_left s)"

text \<open>\<open>strings.Fields\<close>\<close>

function str_fields_from :: "string \<Rightarrow> string \<Rightarrow> string list" where
  "str_fields_from cur s =
     (case s of
        [] \<Rightarrow> (if cur = [] then [] else [cur])
      | c # cs \<Rightarrow>
          (case strip_one space_runes s of
             Some r \<Rightarrow> (if cur = [] then [] else [cur]) @ str_fields_from [] r
           | None \<Rightarrow> str_fields_from (cur @ [c]) cs))"
  by pat_completeness auto
termination
  by (relation "measure (\<lambda>(cur, s). length s)") (auto dest: strip_one_shorter)

declare str_fields_from.simps [simp del]

definition str_fields :: "string \<Rightarrow> string list" where
  "str_fields s = str_fields_from [] s"

lemma strip_all_suffix: "suffix (strip_all ps s) s"
proof (induction ps s rule: strip_all.induct)
  case (1 ps s)
  show ?case
  proof (cases "strip_one ps s")
    case None
    then show ?thesis by (simp add: strip_all.simps [of ps s])
  next
    case (Some r)
    then have "suffix (strip_all ps r) r" and "suffix r s"
      using "1.IH" strip_one_suffix by auto
    then have "suffix (strip_all ps r) s" by (rule suffix_order.trans)
    then show ?thesis using Some
      by (simp add: strip_all.simps [of ps s])
  qed
qed

lemma strip_one_strip_all: "strip_one ps (strip_all ps s) = None"
proof (induction ps s rule: strip_all.induct)
  case (1 ps s)
  then show ?case
    by (cases "strip_one ps s") (simp_all add: strip_all.simps [of ps s])
qed

lemma strip_all_id: "strip_one ps s = None \<Longrightarrow> strip_all ps s = s"
  by (simp add: strip_all.simps)

lemma strip_one_prefix:
  assumes "strip_one ps s = None" and "prefix t s"
  shows "strip_one ps t = None"
  using assms
  by (auto simp: strip_one_def find_None_all split: option.splits intro: prefix_order.trans)

lemma trim_left_no_strip: "strip_one space_runes (trim_left s) = None"
  by (simp add: trim_left_def strip_one_strip_all)

lemma trim_right_prefix: "prefix (trim_right s) s"
proof -
  have "suffix (strip_all (map rev space_runes) (rev s)) (rev s)"
    by (rule strip_all_suffix)
  then show ?thesis
    by (simp add: trim_right_def suffix_to_prefix)
qed

lemma set_trim_space: "set (trim_space s) \<subseteq> set s"
proof -
  have "set (trim_space s) \<subseteq> set (trim_left s)"
    using trim_right_prefix [of "trim_left s"] by (simp add: trim_space_def set_mono_prefix)
  also have "\<dots> \<subseteq> set s"
    using strip_all_suffix [of space_runes s] by (simp add: trim_left_def set_mono_suffix)
  finally show ?thesis .
qed

lemma length_trim_space: "length (trim_space s) \<le> length s"
proof -
  have "length (trim_space s) \<le> length (trim_left s)"
    using trim_right_prefix [of "trim_left s"]
    by (simp add: trim_space_def prefix_length_le)
  also have "\<dots> \<le> length s"
    using strip_all_suffix [of space_runes s] by (simp add: trim_left_def suffix_length_le)
  finally show ?thesis .
qed

lemma trim_space_idem [simp]: "trim_space (trim_space s) = trim_space s"
proof -
  let ?t = "trim_left s"
  have "strip_one space_runes (trim_right ?t) = None"
    by (rule strip_one_prefix [OF trim_left_no_strip trim_right_prefix])
  then have 1: "trim_left (trim_right ?t) = trim_right ?t"
    by (simp add: trim_left_def strip_all_id)
  have "trim_right (trim_right ?t) = trim_right ?t"
    by (simp add: trim_right_def strip_all_id strip_one_strip_all)
  with 1 show ?thesis by (simp add: trim_space_def)
qed

text \<open>A printable ASCII byte is no part of a space, so a text that starts and ends with one is trimmed.\<close>

definition solid :: "char \<Rightarrow> bool" where
  "solid c \<longleftrightarrow> (32 :: nat) < of_char c \<and> of_char c < (128 :: nat)"

lemma strip_one_solid: "solid c \<Longrightarrow> strip_one space_runes (c # cs) = None"
proof -
  assume "solid c"
  then have "\<not> prefix p (c # cs)" if "p \<in> set space_runes" for p
    using that by (auto simp: space_runes_def solid_def)
  then have "find (\<lambda>p. p \<noteq> [] \<and> prefix p (c # cs)) space_runes = None"
    by (auto simp: find_None_all)
  then show ?thesis by (simp add: strip_one_def)
qed

lemma strip_one_rev_solid: "solid c \<Longrightarrow> strip_one (map rev space_runes) (c # cs) = None"
proof -
  assume "solid c"
  then have "\<not> prefix p (c # cs)" if "p \<in> set (map rev space_runes)" for p
    using that by (auto simp: space_runes_def solid_def)
  then have "find (\<lambda>p. p \<noteq> [] \<and> prefix p (c # cs)) (map rev space_runes) = None"
    by (auto simp: find_None_all)
  then show ?thesis by (simp add: strip_one_def)
qed

lemma trim_left_solid: "s \<noteq> [] \<Longrightarrow> solid (hd s) \<Longrightarrow> trim_left s = s"
  by (cases s) (simp_all add: trim_left_def strip_all_id strip_one_solid)

lemma trim_right_solid: "s \<noteq> [] \<Longrightarrow> solid (last s) \<Longrightarrow> trim_right s = s"
  by (cases s rule: rev_cases) (simp_all add: trim_right_def strip_all_id strip_one_rev_solid)

lemma trim_space_solid: "s \<noteq> [] \<Longrightarrow> solid (hd s) \<Longrightarrow> solid (last s) \<Longrightarrow> trim_space s = s"
  by (simp add: trim_space_def trim_left_solid trim_right_solid)

text \<open>Trimming keeps a text that starts and ends with such a byte.\<close>

lemma strip_all_keeps:
  assumes "\<And>p. p \<in> set ps \<Longrightarrow> c \<notin> set p"
  shows "\<exists>a'. strip_all ps (a @ c # b) = a' @ c # b"
proof (induction a rule: length_induct)
  case (1 a)
  show ?case
  proof (cases "strip_one ps (a @ c # b)")
    case None
    then show ?thesis by (auto simp: strip_all_id)
  next
    case (Some r)
    then obtain p where p: "p \<in> set ps" "p \<noteq> []" "prefix p (a @ c # b)" "r = drop (length p) (a @ c # b)"
      by (auto simp: strip_one_def split: option.splits dest!: find_Some_in_set)
    then have "prefix p a" using assms [OF p(1)] by (auto simp: prefix_append prefix_Cons)
    then obtain a1 where "a = p @ a1" by (auto simp: prefix_def)
    then have "strip_all ps (a @ c # b) = strip_all ps (a1 @ c # b)" "length a1 < length a"
      using Some p by (simp_all add: strip_all.simps [of ps "p @ a1 @ c # b"])
    then show ?thesis using 1 by simp
  qed
qed

lemma solid_no_space: "solid c \<Longrightarrow> p \<in> set space_runes \<Longrightarrow> c \<notin> set p"
  by (auto simp: space_runes_def solid_def)

lemma trim_space_contains:
  assumes "contains s x" "x \<noteq> []" "solid (hd x)" "solid (last x)"
  shows "contains (trim_space s) x"
proof -
  obtain a b where s: "s = a @ x @ b" using assms(1) by (auto simp: sublist_def)
  then have "s = a @ hd x # (tl x @ b)" using assms(2) by simp
  then obtain a1 where l: "trim_left s = a1 @ x @ b"
    using strip_all_keeps [of space_runes "hd x" a "tl x @ b"] solid_no_space [OF assms(3)] assms(2)
    by (auto simp: trim_left_def)
  then have "rev (trim_left s) = rev b @ last x # (rev (butlast x) @ rev a1)"
    using assms(2) by (metis append.assoc append_Cons append_butlast_last_id append_Nil rev_append rev.simps(2) rev_swap singleton_rev_conv)
  moreover have "last x \<notin> set p" if "p \<in> set (map rev space_runes)" for p
    using that solid_no_space [OF assms(4)] by auto
  ultimately obtain b1 where "strip_all (map rev space_runes) (rev (trim_left s)) = b1 @ last x # (rev (butlast x) @ rev a1)"
    using strip_all_keeps [of "map rev space_runes" "last x" "rev b" "rev (butlast x) @ rev a1"] by auto
  then have "trim_space s = a1 @ (butlast x @ [last x]) @ rev b1"
    by (simp add: trim_space_def trim_right_def)
  then show ?thesis using assms(2) by (simp add: sublist_appendI)
qed

lemma trim_left_blank: "trim_left (CHR '' '' # s) = trim_left s"
proof -
  have "strip_one space_runes (CHR '' '' # s) = Some s"
    by (simp add: strip_one_def space_runes_def)
  then show ?thesis by (simp add: trim_left_def strip_all.simps [of _ "CHR '' '' # s"])
qed

lemma trim_space_blank: "trim_space (CHR '' '' # s) = trim_space s"
  by (simp add: trim_space_def trim_left_blank)

lemma strip_one_None: "strip_one ps s = None \<longleftrightarrow> (\<forall>p \<in> set ps. p \<noteq> [] \<longrightarrow> \<not> prefix p s)"
  by (auto simp: strip_one_def find_None_all split: option.splits dest!: find_Some_in_set)

lemma space_runes_nonempty: "p \<in> set space_runes \<Longrightarrow> p \<noteq> []"
  by (auto simp: space_runes_def)

text \<open>A line terminated by a newline trims to the trimmed line.\<close>

lemma trim_right_newline: "trim_right (s @ [newline]) = trim_right s"
proof -
  have "strip_one (map rev space_runes) (newline # t) = Some t" for t
    by (simp add: strip_one_def space_runes_def)
  then show ?thesis by (simp add: trim_right_def strip_all.simps [of _ "newline # _"])
qed

lemma strip_one_snoc_newline:
  assumes "s \<noteq> []" "strip_one space_runes s = None"
  shows "strip_one space_runes (s @ [newline]) = None"
proof -
  have "\<not> prefix p (s @ [newline])" if p: "p \<in> set space_runes" for p
  proof
    assume "prefix p (s @ [newline])"
    then consider "prefix p s" | "p = s @ [newline]" by (auto simp: prefix_snoc)
    then show False
    proof cases
      case 1
      then show False using assms(2) p space_runes_nonempty [OF p] by (auto simp: strip_one_None)
    next
      case 2
      then have "last p = newline" by simp
      then have "p = [newline]" using p by (auto simp: space_runes_def)
      then show False using 2 assms(1) by simp
    qed
  qed
  then show ?thesis by (simp add: strip_one_None)
qed

lemma trim_space_line: "trim_space (trim_space m @ [newline]) = trim_space m"
proof (cases "trim_space m = []")
  case True
  have "strip_one space_runes [newline] = Some []"
    by (simp add: strip_one_def space_runes_def)
  moreover have "strip_one space_runes [] = None"
    by (simp add: strip_one_None)
  ultimately have "trim_left [newline] = []"
    by (simp add: trim_left_def strip_all.simps [of _ "[newline]"] strip_all_id)
  then have "trim_space [newline] = []" using trim_right_prefix [of "[]"] by (simp add: trim_space_def)
  then show ?thesis using True by simp
next
  case False
  have n: "strip_one space_runes (trim_space m) = None"
    unfolding trim_space_def by (rule strip_one_prefix [OF trim_left_no_strip trim_right_prefix])
  have "trim_space (trim_space m @ [newline]) = trim_right (trim_space m)"
    using strip_one_snoc_newline [OF False n]
    by (simp add: trim_space_def [of "trim_space m @ _"] trim_left_def strip_all_id trim_right_newline)
  also have "\<dots> = trim_space m"
    by (simp add: trim_space_def trim_right_def strip_all_id strip_one_strip_all)
  finally show ?thesis .
qed

text \<open>The newline byte is a space on its own, so no field holds one.\<close>

lemma strip_one_newline: "\<exists>r. strip_one space_runes (newline # cs) = Some r"
proof -
  have "[newline] \<in> set space_runes" by (simp add: space_runes_def)
  then have "find (\<lambda>p. p \<noteq> [] \<and> prefix p (newline # cs)) space_runes \<noteq> None"
    by (subst find_None_all) force
  then show ?thesis
    by (auto simp: strip_one_def)
qed

lemma str_fields_from_no_newline:
  "newline \<notin> set cur \<Longrightarrow> w \<in> set (str_fields_from cur s) \<Longrightarrow> newline \<notin> set w"
proof (induction cur s arbitrary: w rule: str_fields_from.induct)
  case (1 cur s)
  show ?case
  proof (cases s)
    case Nil
    with "1.prems" show ?thesis by (auto simp: str_fields_from.simps split: if_splits)
  next
    case (Cons c cs)
    show ?thesis
    proof (cases "strip_one space_runes s")
      case None
      with Cons have "c \<noteq> newline" using strip_one_newline [of cs] by auto
      moreover from None Cons have "str_fields_from cur s = str_fields_from (cur @ [c]) cs"
        by (subst str_fields_from.simps) simp
      ultimately show ?thesis
        using "1.IH"(1) [OF Cons None, of w] "1.prems" by auto
    next
      case (Some r)
      with Cons have eq: "str_fields_from cur s = (if cur = [] then [] else [cur]) @ str_fields_from [] r"
        by (subst str_fields_from.simps) simp
      show ?thesis
        using "1.IH"(2) [OF Cons Some, of w] "1.prems" unfolding eq by (auto split: if_splits)
    qed
  qed
qed

lemma str_fields_no_newline: "w \<in> set (str_fields s) \<Longrightarrow> newline \<notin> set w"
  unfolding str_fields_def by (rule str_fields_from_no_newline) auto

section \<open>Case mapping\<close>

definition upper_char :: "char \<Rightarrow> char" where
  "upper_char c =
     (let n = (of_char c :: nat) in if 97 \<le> n \<and> n \<le> 122 then char_of (n - 32) else c)"

definition lower_char :: "char \<Rightarrow> char" where
  "lower_char c =
     (let n = (of_char c :: nat) in if 65 \<le> n \<and> n \<le> 90 then char_of (n + 32) else c)"

text \<open>
  \<open>map_runes tab f s\<close> rewrites each encoded code point of the table \<open>tab\<close> and maps every
  other byte by \<open>f\<close>. Dotless i and long s have an ASCII upper case; the dotted capital I and
  the Kelvin sign have an ASCII lower case; simple folding identifies long s and the Kelvin
  sign with s and k.
\<close>

function map_runes :: "(string \<times> char) list \<Rightarrow> (char \<Rightarrow> char) \<Rightarrow> string \<Rightarrow> string" where
  "map_runes tab f s =
     (case s of
        [] \<Rightarrow> []
      | c # cs \<Rightarrow>
          (case find (\<lambda>p. prefix (fst p) s) tab of
             Some p \<Rightarrow> snd p # map_runes tab f (drop (length (fst p) - 1) cs)
           | None \<Rightarrow> f c # map_runes tab f cs))"
  by pat_completeness auto
termination
  by (relation "measure (\<lambda>(tab, f, s). length s)") auto

declare map_runes.simps [simp del]

definition ascii :: "string \<Rightarrow> bool" where
  "ascii s \<longleftrightarrow> (\<forall>c \<in> set s. of_char c < (128 :: nat))"

definition ends_high :: "(string \<times> char) list \<Rightarrow> bool" where
  "ends_high tab \<longleftrightarrow> (\<forall>p \<in> set tab. fst p \<noteq> [] \<and> \<not> of_char (last (fst p)) < (128 :: nat))"

lemma prefix_before_ascii:
  assumes "xs \<noteq> []" "\<not> of_char (last xs) < (128 :: nat)" "ascii n"
  shows "prefix xs (s @ n) = prefix xs s"
proof
  assume p: "prefix xs (s @ n)"
  show "prefix xs s"
  proof (rule ccontr)
    assume "\<not> prefix xs s"
    then obtain us where us: "xs = s @ us" "prefix us n" "us \<noteq> []"
      using p by (auto simp: prefix_append)
    then have "last us \<in> set n" by (meson last_in_set set_mono_prefix subsetD)
    with us assms show False by (auto simp: ascii_def)
  qed
qed simp

lemma map_runes_append_ascii:
  assumes "ends_high tab" "ascii n"
  shows "map_runes tab f (s @ n) = map_runes tab f s @ map_runes tab f n"
proof (induction s rule: measure_induct_rule [of length])
  case (less s)
  show ?case
  proof (cases s)
    case Nil
    then show ?thesis by (simp add: map_runes.simps [of tab f "[]"])
  next
    case (Cons c cs)
    have eq: "prefix (fst p) (c # cs @ n) = prefix (fst p) (c # cs)" if "p \<in> set tab" for p
      using prefix_before_ascii [of "fst p" n "c # cs"] that assms by (simp add: ends_high_def)
    then have find: "find (\<lambda>p. prefix (fst p) (c # cs @ n)) tab = find (\<lambda>p. prefix (fst p) (c # cs)) tab"
      by (intro find_cong) auto
    show ?thesis
    proof (cases "find (\<lambda>p. prefix (fst p) (c # cs)) tab")
      case None
      then show ?thesis using less.IH [of cs] Cons find
        by (simp add: map_runes.simps [of tab f "c # cs"] map_runes.simps [of tab f "c # cs @ n"])
    next
      case (Some p)
      then have "prefix (fst p) (c # cs)" by (auto dest: find_Some_in_set)
      then have "length (fst p) - 1 \<le> length cs" by (auto dest: prefix_length_le)
      then show ?thesis using less.IH [of "drop (length (fst p) - 1) cs"] Cons find Some
        by (simp add: map_runes.simps [of tab f "c # cs"] map_runes.simps [of tab f "c # cs @ n"])
    qed
  qed
qed

definition to_upper :: "string \<Rightarrow> string" where
  "to_upper s =
     map_runes [([CHR 0xC4, CHR 0xB1], CHR ''I''), ([CHR 0xC5, CHR 0xBF], CHR ''S'')]
       upper_char s"

lemma to_upper_append_ascii: "ascii n \<Longrightarrow> to_upper (s @ n) = to_upper s @ to_upper n"
  by (simp add: to_upper_def map_runes_append_ascii ends_high_def)

definition to_lower :: "string \<Rightarrow> string" where
  "to_lower s =
     map_runes [([CHR 0xC4, CHR 0xB0], CHR ''i''), ([CHR 0xE2, CHR 0x84, CHR 0xAA], CHR ''k'')]
       lower_char s"

definition fold_case :: "string \<Rightarrow> string" where
  "fold_case s =
     map_runes [([CHR 0xC5, CHR 0xBF], CHR ''s''), ([CHR 0xE2, CHR 0x84, CHR 0xAA], CHR ''k'')]
       lower_char s"

text \<open>\<open>strings.EqualFold\<close>\<close>

definition equal_fold :: "string \<Rightarrow> string \<Rightarrow> bool" where
  "equal_fold s t \<longleftrightarrow> fold_case s = fold_case t"

section \<open>Decimal numbers\<close>

text \<open>The value of an \<open>int64\<close> (and, on the supported platforms, \<open>int\<close>) expression: it wraps.\<close>

definition wrap64 :: "int \<Rightarrow> int" where
  "wrap64 i = (i + 2 ^ 63) mod 2 ^ 64 - 2 ^ 63"

lemma wrap64_id: "- (2 ^ 63) \<le> i \<Longrightarrow> i < 2 ^ 63 \<Longrightarrow> wrap64 i = i"
  by (simp add: wrap64_def)

lemma wrap64_range: "- (2 ^ 63) \<le> wrap64 i \<and> wrap64 i < 2 ^ 63"
  using pos_mod_bound [of "2 ^ 64 :: int" "i + 2 ^ 63"] pos_mod_sign [of "2 ^ 64 :: int" "i + 2 ^ 63"]
  by (simp add: wrap64_def)

text \<open>Integer division of Go truncates towards zero.\<close>

definition quot :: "int \<Rightarrow> int \<Rightarrow> int" where
  "quot a b = sgn a * sgn b * (\<bar>a\<bar> div \<bar>b\<bar>)"

lemma quot_nonneg: "0 \<le> a \<Longrightarrow> 0 < b \<Longrightarrow> quot a b = a div b"
  by (cases "a = 0") (simp_all add: quot_def)

text \<open>\<open>strconv.Itoa\<close>, \<open>strconv.FormatInt(_, 10)\<close> and the verb \<open>%d\<close>\<close>

fun nat_digits :: "nat \<Rightarrow> string" where
  "nat_digits n =
     (if n < 10 then [char_of (48 + n)] else nat_digits (n div 10) @ [char_of (48 + n mod 10)])"

declare nat_digits.simps [simp del]

definition itoa :: "int \<Rightarrow> string" where
  "itoa i = (if i < 0 then CHR ''-'' # nat_digits (nat (- i)) else nat_digits (nat i))"

text \<open>
  \<open>strconv.ParseInt(s, 10, 64)\<close> and \<open>strconv.Atoi\<close> (\<open>int\<close> has 64 bits): an optional sign, at
  least one decimal digit and nothing else, and a value in range; anything else is an error.
\<close>

definition digit_val :: "char \<Rightarrow> nat option" where
  "digit_val c =
     (let n = (of_char c :: nat) in if 48 \<le> n \<and> n \<le> 57 then Some (n - 48) else None)"

fun digits_val :: "nat \<Rightarrow> string \<Rightarrow> nat option" where
  "digits_val acc [] = Some acc"
| "digits_val acc (c # cs) =
     (case digit_val c of None \<Rightarrow> None | Some d \<Rightarrow> digits_val (10 * acc + d) cs)"

definition parse_int64 :: "string \<Rightarrow> int option" where
  "parse_int64 s =
     (let neg = (case s of [] \<Rightarrow> False | c # _ \<Rightarrow> c = CHR ''-'');
          ds = (case s of [] \<Rightarrow> [] | c # cs \<Rightarrow> if c = CHR ''-'' \<or> c = CHR ''+'' then cs else s)
      in if ds = [] then None
         else (case digits_val 0 ds of
                 None \<Rightarrow> None
               | Some n \<Rightarrow>
                   if neg then (if n \<le> 2 ^ 63 then Some (- int n) else None)
                   else (if n < 2 ^ 63 then Some (int n) else None)))"

lemma digit_val_char_of [simp]: "d < 10 \<Longrightarrow> digit_val (char_of (48 + d)) = Some d"
  by (simp add: digit_val_def Let_def)

lemma digits_val_append:
  "digits_val acc (xs @ ys) =
     (case digits_val acc xs of None \<Rightarrow> None | Some n \<Rightarrow> digits_val n ys)"
  by (induction xs arbitrary: acc) (auto split: option.splits)

lemma digits_val_nat_digits: "digits_val 0 (nat_digits n) = Some n"
proof (induction n rule: nat_digits.induct)
  case (1 n)
  show ?case
  proof (cases "n < 10")
    case True
    then show ?thesis by (simp add: nat_digits.simps)
  next
    case False
    with "1.IH" have "digits_val 0 (nat_digits (n div 10)) = Some (n div 10)" by simp
    with False show ?thesis
      by (subst nat_digits.simps) (simp add: digits_val_append)
  qed
qed

lemma nat_digits_range:
  "c \<in> set (nat_digits n) \<Longrightarrow> 48 \<le> (of_char c :: nat) \<and> (of_char c :: nat) \<le> 57"
proof (induction n rule: nat_digits.induct)
  case (1 n)
  show ?case
  proof (cases "n < 10")
    case True
    with "1.prems" show ?thesis by (simp add: nat_digits.simps [of n])
  next
    case False
    with "1.prems" have "c = char_of (48 + n mod 10) \<or> c \<in> set (nat_digits (n div 10))"
      by (simp add: nat_digits.simps [of n])
    with "1.IH" [OF False] show ?thesis by auto
  qed
qed

lemma nat_digits_nonempty [simp]: "nat_digits n \<noteq> []"
  by (subst nat_digits.simps) simp

lemma nat_digits_hd:
  "nat_digits n = c # cs \<Longrightarrow> c \<noteq> CHR ''-'' \<and> c \<noteq> CHR ''+''"
  using nat_digits_range [of c n] by auto

lemma nat_digits_no_dot: "CHR ''.'' \<notin> set (nat_digits n)"
  using nat_digits_range [of "CHR ''.''" n] by auto

text \<open>Every 64-bit value survives printing and parsing.\<close>

lemma parse_itoa:
  assumes "- (2 ^ 63) \<le> i" and "i < 2 ^ 63"
  shows "parse_int64 (itoa i) = Some i"
proof (cases "i < 0")
  case True
  then show ?thesis using assms
    by (simp add: itoa_def parse_int64_def Let_def digits_val_nat_digits)
next
  case False
  obtain c cs where c: "nat_digits (nat i) = c # cs"
    by (cases "nat_digits (nat i)") auto
  then have "digits_val 0 (c # cs) = Some (nat i)"
    using digits_val_nat_digits [of "nat i"] by simp
  with False c nat_digits_hd [OF c] assms show ?thesis
    by (simp add: itoa_def parse_int64_def Let_def del: digits_val.simps)
qed

end
