(* ===== verification/Redact.thy ===== *)
theory Redact
  imports Go_Strings
begin

text \<open>
  internal/mqscredact: replacing the values of sensitive parameters in MQSC text before it is
  logged. The code reads runes from a buffered reader over the text; the reader is modelled by the
  bytes that are left, and a rune by the bytes of its encoding (a byte that starts no valid
  encoding is read as the replacement character, as Go does). After the code's functions comes a
  one-rune-at-a-time reference scanner, the proof that the nested loops of the code compute the
  same text, and the properties, which are stated over the reference.
\<close>

section \<open>The reader\<close>

type_synonym rune = string

definition rune_error :: rune where
  "rune_error = [CHR 0xEF, CHR 0xBF, CHR 0xBD]"

definition byte_in :: "nat \<Rightarrow> nat \<Rightarrow> char \<Rightarrow> bool" where
  "byte_in lo hi c \<longleftrightarrow> lo \<le> of_char c \<and> of_char c \<le> hi"

text \<open>The length of the valid UTF-8 encoding at the start of the bytes, 0 if there is none.\<close>

fun rune_len :: "string \<Rightarrow> nat" where
  "rune_len [] = 0"
| "rune_len (a # s) =
     (if byte_in 0 0x7F a then 1
      else (case s of
        [] \<Rightarrow> 0
      | b # s1 \<Rightarrow>
          if byte_in 0xC2 0xDF a then (if byte_in 0x80 0xBF b then 2 else 0)
          else (case s1 of
            [] \<Rightarrow> 0
          | c # s2 \<Rightarrow>
              if byte_in 0xE0 0xEF a then
                (if (if a = CHR 0xE0 then byte_in 0xA0 0xBF b
                     else if a = CHR 0xED then byte_in 0x80 0x9F b
                     else byte_in 0x80 0xBF b) \<and> byte_in 0x80 0xBF c then 3 else 0)
              else (case s2 of
                [] \<Rightarrow> 0
              | d # _ \<Rightarrow>
                  if byte_in 0xF0 0xF4 a
                     \<and> (if a = CHR 0xF0 then byte_in 0x90 0xBF b
                        else if a = CHR 0xF4 then byte_in 0x80 0x8F b
                        else byte_in 0x80 0xBF b)
                     \<and> byte_in 0x80 0xBF c \<and> byte_in 0x80 0xBF d then 4 else 0))))"

declare rune_len.simps [simp del]

definition read_rune :: "string \<Rightarrow> (rune \<times> string) option" where
  "read_rune s =
     (case s of
        [] \<Rightarrow> None
      | c # cs \<Rightarrow>
          if rune_len s = 0 then Some (rune_error, cs)
          else Some (take (rune_len s) s, drop (rune_len s) s))"

lemma read_rune_None [simp]: "read_rune s = None \<longleftrightarrow> s = []"
  by (simp add: read_rune_def split: list.splits)

lemma read_rune_Nil [simp]: "read_rune [] = None"
  by simp

lemma read_rune_shorter: "read_rune s = Some (ch, r) \<Longrightarrow> length r < length s"
  by (auto simp: read_rune_def split: list.splits if_splits)

function runes :: "string \<Rightarrow> rune list" where
  "runes s = (case read_rune s of None \<Rightarrow> [] | Some (ch, r) \<Rightarrow> ch # runes r)"
  by pat_completeness auto
termination
  by (relation "measure length") (auto dest: read_rune_shorter)

declare runes.simps [simp del]

lemma runes_read: "read_rune s = Some (ch, r) \<Longrightarrow> runes s = ch # runes r"
  by (subst runes.simps) simp

lemma runes_Nil [simp]: "runes [] = []"
  by (subst runes.simps) (simp add: read_rune_def)

text \<open>The regular expression \<open>[^:0-9\s]\<close> on a text of one byte or one rune.\<close>

definition start_byte :: "char \<Rightarrow> bool" where
  "start_byte c \<longleftrightarrow> c \<notin> set '':0123456789 '' \<and> c \<notin> {CHR 0x09, CHR 0x0A, CHR 0x0C, CHR 0x0D}"

definition start_rune :: "rune \<Rightarrow> bool" where
  "start_rune ch \<longleftrightarrow> (case ch of [c] \<Rightarrow> start_byte c | _ \<Rightarrow> True)"

section \<open>The code\<close>

definition sensitiveParameters :: "string list" where
  "sensitiveParameters = [''LDAPPWD'', ''PASSWORD'', ''SSLCRYP'']"

definition redactionString :: string where
  "redactionString = ''(*********)''"

definition isSensitiveCommand :: "string \<Rightarrow> bool" where
  "isSensitiveCommand command \<longleftrightarrow> (\<exists>v \<in> set sensitiveParameters. contains command v)"

text \<open>
  A comment runs to the end of its line. The result is the text read, what is left, and whether
  the end of the input came first.
\<close>

function read_comment :: "string \<Rightarrow> string \<times> string \<times> bool" where
  "read_comment s =
     (case read_rune s of
        None \<Rightarrow> ([], [], True)
      | Some (ch, r) \<Rightarrow>
          if ch = [newline] then (ch, r, False)
          else (let (c, r2, eof) = read_comment r in (ch @ c, r2, eof)))"
  by pat_completeness auto
termination
  by (relation "measure length") (auto dest: read_rune_shorter)

declare read_comment.simps [simp del]

lemma read_comment_shorter: "read_comment s = (t, r, e) \<Longrightarrow> length r \<le> length s"
proof (induction s arbitrary: t r e rule: measure_induct_rule [of length])
  case (less s)
  show ?case
  proof (cases "read_rune s")
    case None
    then show ?thesis using less.prems by (simp add: read_comment.simps [of "[]"])
  next
    case (Some p)
    obtain ch s1 where p: "p = (ch, s1)" by (cases p)
    obtain t1 r1 e1 where t: "read_comment s1 = (t1, r1, e1)" by (cases "read_comment s1")
    have l: "length s1 < length s" using Some p by (auto dest: read_rune_shorter)
    then have "length r1 \<le> length s1" using less.IH t by blast
    with l Some p t less.prems show ?thesis
      by (simp add: read_comment.simps [of s] split: if_splits)
  qed
qed

text \<open>
  The loop after a newline inside a quoted value: it skips white space, digits, colons and comment
  lines, looking at the next byte without consuming it.
\<close>

function skip_line_start :: "string \<Rightarrow> string \<times> string \<times> bool" where
  "skip_line_start s =
     (case s of
        [] \<Rightarrow> ([], [], True)
      | c # cs \<Rightarrow>
          if start_byte c then
            (if c = CHR ''*'' then
               (case read_comment cs of
                  (t, r, eof) \<Rightarrow>
                    if eof then (c # t, r, True)
                    else (let (u, r2, eof2) = skip_line_start r in (c # t @ u, r2, eof2)))
             else ([], s, False))
          else (let (u, r2, eof2) = skip_line_start cs in (c # u, r2, eof2)))"
  by pat_completeness auto
termination
proof (relation "measure length", goal_cases)
  case 1
  show ?case by simp
next
  case 2
  from 2(4,5) [symmetric] 2(1) show ?case by (auto dest: read_comment_shorter)
next
  case 3
  from 3(1) show ?case by simp
qed

declare skip_line_start.simps [simp del]

lemma skip_line_start_shorter: "skip_line_start s = (t, r, e) \<Longrightarrow> length r \<le> length s"
proof (induction s arbitrary: t r e rule: measure_induct_rule [of length])
  case (less s)
  show ?case
  proof (cases s)
    case Nil
    then show ?thesis using less.prems by (simp add: skip_line_start.simps [of "[]"])
  next
    case (Cons c cs)
    obtain t1 r1 e1 where t1: "read_comment cs = (t1, r1, e1)" by (cases "read_comment cs")
    obtain t2 r2 e2 where t2: "skip_line_start r1 = (t2, r2, e2)" by (cases "skip_line_start r1")
    obtain t3 r3 e3 where t3: "skip_line_start cs = (t3, r3, e3)" by (cases "skip_line_start cs")
    have l1: "length r1 \<le> length cs" using t1 by (rule read_comment_shorter)
    have "length r2 \<le> length r1" using less.IH [OF _ t2] l1 Cons by simp
    moreover have "length r3 \<le> length cs" using less.IH [OF _ t3] Cons by simp
    ultimately show ?thesis using l1 Cons t1 t2 t3 less.prems
      by (auto simp: skip_line_start.simps [of "c # cs"] split: if_splits)
  qed
qed

function findEndOfParamterString :: "rune \<Rightarrow> string \<Rightarrow> string \<times> string" where
  "findEndOfParamterString stringDenoter s =
     (case read_rune s of
        None \<Rightarrow> ([], [])
      | Some (ch, r) \<Rightarrow>
          if ch = stringDenoter then (ch, r)
          else if ch = [newline] then
            (case skip_line_start r of
               (t, r2, eof) \<Rightarrow>
                 if eof then (ch @ t, r2)
                 else (let (u, r3) = findEndOfParamterString stringDenoter r2 in (ch @ t @ u, r3)))
          else (let (u, r3) = findEndOfParamterString stringDenoter r in (ch @ u, r3)))"
  by pat_completeness auto
termination
proof (relation "measure (\<lambda>(q, s). length s)", goal_cases)
  case 1
  show ?case by simp
next
  case 2
  from 2(5,6) [symmetric] 2(1,2) show ?case
    by (auto dest!: read_rune_shorter skip_line_start_shorter)
next
  case 3
  from 3(1,2) show ?case by (auto dest: read_rune_shorter)
qed

declare findEndOfParamterString.simps [simp del]

lemma findEnd_shorter: "findEndOfParamterString q s = (t, r) \<Longrightarrow> length r \<le> length s"
proof (induction s arbitrary: t r rule: measure_induct_rule [of length])
  case (less s)
  show ?case
  proof (cases "read_rune s")
    case None
    then show ?thesis using less.prems by (simp add: findEndOfParamterString.simps [of q "[]"])
  next
    case (Some p)
    obtain ch s1 where p: "p = (ch, s1)" by (cases p)
    obtain t1 r1 e1 where t1: "skip_line_start s1 = (t1, r1, e1)" by (cases "skip_line_start s1")
    obtain t2 r2 where t2: "findEndOfParamterString q r1 = (t2, r2)"
      by (cases "findEndOfParamterString q r1")
    obtain t3 r3 where t3: "findEndOfParamterString q s1 = (t3, r3)"
      by (cases "findEndOfParamterString q s1")
    have l: "length s1 < length s" using Some p by (auto dest: read_rune_shorter)
    have l1: "length r1 \<le> length s1" using t1 by (rule skip_line_start_shorter)
    have "length r2 \<le> length r1" using less.IH [OF _ t2] l l1 by simp
    moreover have "length r3 \<le> length s1" using less.IH [OF _ t3] l by simp
    ultimately show ?thesis using l l1 Some p t1 t2 t3 less.prems
      by (simp add: findEndOfParamterString.simps [of q s] split: if_splits)
  qed
qed

text \<open>The loop of \<open>getParameterString\<close>, without the opening parenthesis it starts with.\<close>

function parameter_rest :: "string \<Rightarrow> string \<times> string" where
  "parameter_rest s =
     (case read_rune s of
        None \<Rightarrow> ([], [])
      | Some (ch, r) \<Rightarrow>
          if ch = '')'' then (ch, r)
          else if ch = [CHR 0x27] \<or> ch = [CHR 0x22] then
            (case findEndOfParamterString ch r of
               (t, r2) \<Rightarrow> (let (u, r3) = parameter_rest r2 in (ch @ t @ u, r3)))
          else (let (u, r3) = parameter_rest r in (ch @ u, r3)))"
  by pat_completeness auto
termination
proof (relation "measure length", goal_cases)
  case 1
  show ?case by simp
next
  case 2
  from 2(5) [symmetric] 2(1,2) show ?case by (auto dest!: read_rune_shorter findEnd_shorter)
next
  case 3
  from 3(1,2) show ?case by (auto dest: read_rune_shorter)
qed

declare parameter_rest.simps [simp del]

definition getParameterString :: "string \<Rightarrow> string \<times> string" where
  "getParameterString s = (let (t, r) = parameter_rest s in (''('' @ t, r))"

record redact_state =
  returnStr :: string
  currentVerb :: string
  originalString :: string
  lineContinuation :: bool
  foundGap :: bool
  parameterNext :: bool
  redacting :: bool
  checkComment :: bool
  atNewline :: bool

definition resetAllParameters :: "redact_state \<Rightarrow> redact_state" where
  "resetAllParameters st =
     st\<lparr>currentVerb := [], originalString := [], lineContinuation := False, foundGap := False,
        parameterNext := False, redacting := False, checkComment := True\<rparr>"

definition redact_init :: redact_state where
  "redact_init =
     \<lparr>returnStr = [], currentVerb = [], originalString = [], lineContinuation = False,
      foundGap = False, parameterNext = False, redacting = False, checkComment = True,
      atNewline = True\<rparr>"

text \<open>
  The body of the main loop for one rune, except that a rune that starts a comment is left to the
  loop: the skipping at the start of a line, the switch, and the checks after it.
\<close>

definition starts_comment :: "redact_state \<Rightarrow> rune \<Rightarrow> bool" where
  "starts_comment st ch \<longleftrightarrow> ch = ''*'' \<and> checkComment st"

definition redact_rune :: "redact_state \<Rightarrow> rune \<Rightarrow> redact_state" where
  "redact_rune st0 ch =
     (if atNewline st0 \<and> \<not> start_rune ch
      then st0\<lparr>originalString := originalString st0 @ ch\<rparr>
      else
        let st = st0\<lparr>atNewline := False\<rparr> in
        if ch = ''+'' \<or> ch = ''-'' then
          st\<lparr>lineContinuation := True, foundGap := False, originalString := originalString st @ ch\<rparr>
        else if ch = [newline] then
          st\<lparr>checkComment := True, atNewline := True,
             foundGap := (if lineContinuation st then foundGap st else True),
             originalString := originalString st @ ch\<rparr>
        else if ch = [CHR 0x09] \<or> ch = [CHR 0x0D] \<or> ch = '' '' then
          st\<lparr>foundGap := (if lineContinuation st then foundGap st else True),
             originalString := originalString st @ ch\<rparr>
        else
          let st1 = st\<lparr>parameterNext := (if ch = ''('' then True else parameterNext st),
                       checkComment := False, lineContinuation := False\<rparr>;
              st2 = (if foundGap st1 \<or> parameterNext st1 then
                       st1\<lparr>redacting := (if isSensitiveCommand (to_upper (currentVerb st1))
                                        then True else redacting st1),
                           returnStr := returnStr st1 @ originalString st1,
                           originalString := [], currentVerb := [], foundGap := False\<rparr>
                     else st1)
          in st2\<lparr>originalString := originalString st2 @ ch, currentVerb := currentVerb st2 @ ch\<rparr>)"

definition take_parameter :: "string \<Rightarrow> redact_state \<Rightarrow> redact_state" where
  "take_parameter parameterStr st =
     resetAllParameters
       (st\<lparr>returnStr := returnStr st @ (if redacting st then redactionString else parameterStr)\<rparr>)"

function redact_loop :: "redact_state \<Rightarrow> string \<Rightarrow> string" where
  "redact_loop st0 s0 =
     (let (st, s) = (if parameterNext st0
                     then (let (parameterStr, r) = getParameterString s0
                           in (take_parameter parameterStr st0, r))
                     else (st0, s0))
      in (case read_rune s of
            None \<Rightarrow> returnStr st @ originalString st
          | Some (ch, r) \<Rightarrow>
              if starts_comment st ch then
                (case read_comment r of
                   (t, r2, eof) \<Rightarrow>
                     let st1 = st\<lparr>originalString := originalString st @ ch @ t\<rparr>
                     in if eof then returnStr st1 @ originalString st1
                        else redact_loop (st1\<lparr>checkComment := True, atNewline := True\<rparr>) r2)
              else redact_loop (redact_rune st ch) r))"
  by pat_completeness auto

lemma parameter_rest_shorter: "parameter_rest s = (t, r) \<Longrightarrow> length r \<le> length s"
proof (induction s arbitrary: t r rule: measure_induct_rule [of length])
  case (less s)
  show ?case
  proof (cases "read_rune s")
    case None
    then show ?thesis using less.prems by (simp add: parameter_rest.simps [of "[]"])
  next
    case (Some p)
    obtain ch s1 where p: "p = (ch, s1)" by (cases p)
    obtain t1 r1 where t1: "findEndOfParamterString ch s1 = (t1, r1)"
      by (cases "findEndOfParamterString ch s1")
    obtain t2 r2 where t2: "parameter_rest r1 = (t2, r2)" by (cases "parameter_rest r1")
    obtain t3 r3 where t3: "parameter_rest s1 = (t3, r3)" by (cases "parameter_rest s1")
    have l: "length s1 < length s" using Some p by (auto dest: read_rune_shorter)
    have l1: "length r1 \<le> length s1" using t1 by (rule findEnd_shorter)
    have "length r2 \<le> length r1" using less.IH [OF _ t2] l l1 by simp
    moreover have "length r3 \<le> length s1" using less.IH [OF _ t3] l by simp
    ultimately show ?thesis using l l1 Some p t1 t2 t3 less.prems
      by (simp add: parameter_rest.simps [of s] split: if_splits)
  qed
qed

lemma loop_entry_shorter:
  assumes "x = (if parameterNext st0
                then (let (parameterStr, r) = getParameterString s0
                      in (take_parameter parameterStr st0, r))
                else (st0, s0))"
  shows "length (snd x) \<le> length s0"
  using assms parameter_rest_shorter [of s0]
  by (auto simp: getParameterString_def split: prod.splits)

termination redact_loop
proof (relation "measure (\<lambda>(st, s). length s)", goal_cases)
  case 1
  show ?case by simp
next
  case 2
  from loop_entry_shorter [OF 2(1)] 2(2-4) 2(6,7) [symmetric] show ?case
    by (auto dest!: read_rune_shorter read_comment_shorter)
next
  case 3
  from loop_entry_shorter [OF 3(1)] 3(2-4) show ?case by (auto dest!: read_rune_shorter)
qed

declare redact_loop.simps [simp del]

definition Redact :: "string \<Rightarrow> string" where
  "Redact out = redact_loop redact_init (trim_space out)"

section \<open>A reference scanner\<close>

text \<open>
  The same text computed one rune at a time, without look-ahead and without nested loops. Inside
  a parenthesised value it only tracks where in the value it is: in plain text, in a quoted text,
  at the start of a line of a quoted text, or in a comment line of a quoted text.
\<close>

datatype place = Plain | Quoted rune | QuotedLine rune | QuotedComment rune

definition quoted_step :: "rune \<Rightarrow> rune \<Rightarrow> place" where
  "quoted_step q ch = (if ch = q then Plain else if ch = [newline] then QuotedLine q else Quoted q)"

text \<open>\<open>None\<close>: this rune is the parenthesis that ends the value.\<close>

fun value_step :: "place \<Rightarrow> rune \<Rightarrow> place option" where
  "value_step Plain ch =
     (if ch = '')'' then None
      else if ch = [CHR 0x27] \<or> ch = [CHR 0x22] then Some (Quoted ch) else Some Plain)"
| "value_step (Quoted q) ch = Some (quoted_step q ch)"
| "value_step (QuotedLine q) ch =
     Some (if \<not> start_rune ch then QuotedLine q
           else if ch = ''*'' then QuotedComment q else quoted_step q ch)"
| "value_step (QuotedComment q) ch = Some (if ch = [newline] then QuotedLine q else QuotedComment q)"

datatype scan =
    Outside redact_state
  | InComment redact_state
  | InValue place string redact_state

definition keep_text :: "string \<Rightarrow> redact_state \<Rightarrow> redact_state" where
  "keep_text t st = st\<lparr>originalString := originalString st @ t\<rparr>"

definition comment_over :: "redact_state \<Rightarrow> redact_state" where
  "comment_over st = st\<lparr>checkComment := True, atNewline := True\<rparr>"

fun scan_step :: "scan \<Rightarrow> rune \<Rightarrow> scan" where
  "scan_step (Outside st) ch =
     (if starts_comment st ch then InComment (keep_text ch st)
      else let st' = redact_rune st ch
           in if parameterNext st' then InValue Plain ''('' st' else Outside st')"
| "scan_step (InComment st) ch =
     (let st' = keep_text ch st in if ch = [newline] then Outside (comment_over st') else InComment st')"
| "scan_step (InValue p buf st) ch =
     (case value_step p ch of
        None \<Rightarrow> Outside (take_parameter (buf @ ch) st)
      | Some p' \<Rightarrow> InValue p' (buf @ ch) st)"

definition output_of :: "redact_state \<Rightarrow> string" where
  "output_of st = returnStr st @ originalString st"

fun scan_result :: "scan \<Rightarrow> string" where
  "scan_result (Outside st) = output_of st"
| "scan_result (InComment st) = output_of st"
| "scan_result (InValue p buf st) = output_of (take_parameter buf st)"

definition scan_from :: "scan \<Rightarrow> string \<Rightarrow> scan" where
  "scan_from c s = foldl scan_step c (runes s)"

lemma scan_from_Nil [simp]: "scan_from c [] = c"
  by (simp add: scan_from_def)

lemma scan_from_read: "read_rune s = Some (ch, r) \<Longrightarrow> scan_from c s = scan_from (scan_step c ch) r"
  by (simp add: scan_from_def runes_read)

subsection \<open>The loops of the code follow the scanner\<close>

lemma keep_text_append: "keep_text b (keep_text a st) = keep_text (a @ b) st"
  by (simp add: keep_text_def)

lemma scan_comment:
  "read_comment s = (t, r, e) \<Longrightarrow>
   scan_from (InComment st) s =
     (if e then InComment (keep_text t st) else scan_from (Outside (comment_over (keep_text t st))) r)"
proof (induction s arbitrary: t r e st rule: measure_induct_rule [of length])
  case (less s)
  show ?case
  proof (cases "read_rune s")
    case None
    then show ?thesis using less.prems
      by (simp add: read_comment.simps [of "[]"] keep_text_def)
  next
    case (Some p)
    obtain ch s1 where p: "p = (ch, s1)" by (cases p)
    obtain t1 r1 e1 where t: "read_comment s1 = (t1, r1, e1)" by (cases "read_comment s1")
    have "length s1 < length s" using Some p by (auto dest: read_rune_shorter)
    note IH = less.IH [OF this t, of "keep_text ch st"]
    show ?thesis using IH Some p t less.prems
      by (auto simp: read_comment.simps [of s] scan_from_read keep_text_append split: if_splits)
  qed
qed

lemma scan_quoted_comment:
  "read_comment s = (t, r, e) \<Longrightarrow>
   scan_from (InValue (QuotedComment q) buf st) s =
     (if e then InValue (QuotedComment q) (buf @ t) st
      else scan_from (InValue (QuotedLine q) (buf @ t) st) r)"
proof (induction s arbitrary: t r e buf rule: measure_induct_rule [of length])
  case (less s)
  show ?case
  proof (cases "read_rune s")
    case None
    then show ?thesis using less.prems by (simp add: read_comment.simps [of "[]"])
  next
    case (Some p)
    obtain ch s1 where p: "p = (ch, s1)" by (cases p)
    obtain t1 r1 e1 where t: "read_comment s1 = (t1, r1, e1)" by (cases "read_comment s1")
    have "length s1 < length s" using Some p by (auto dest: read_rune_shorter)
    note IH = less.IH [OF this t, of "buf @ ch"]
    show ?thesis using IH Some p t less.prems
      by (auto simp: read_comment.simps [of s] scan_from_read split: if_splits)
  qed
qed

lemma end_of_comment: "read_comment s = (t, r, True) \<Longrightarrow> r = []"
proof (induction s arbitrary: t r rule: measure_induct_rule [of length])
  case (less s)
  then show ?case
    by (cases "read_rune s")
       (auto simp: read_comment.simps [of s] split: if_splits prod.splits dest: read_rune_shorter)
qed

lemma skip_end: "skip_line_start s = (t, r, True) \<Longrightarrow> r = []"
proof (induction s arbitrary: t r rule: measure_induct_rule [of length])
  case (less s)
  show ?case
  proof (cases s)
    case Nil
    then show ?thesis using less.prems by (simp add: skip_line_start.simps [of "[]"])
  next
    case (Cons c cs)
    obtain t1 r1 e1 where t1: "read_comment cs = (t1, r1, e1)" by (cases "read_comment cs")
    obtain t2 r2 e2 where t2: "skip_line_start r1 = (t2, r2, e2)" by (cases "skip_line_start r1")
    obtain t3 r3 e3 where t3: "skip_line_start cs = (t3, r3, e3)" by (cases "skip_line_start cs")
    have "e1 \<Longrightarrow> r1 = []" using t1 end_of_comment by auto
    moreover have "e2 \<Longrightarrow> r2 = []"
      using less.IH t2 read_comment_shorter [OF t1] Cons by (metis le_imp_less_Suc length_Cons)
    moreover have "e3 \<Longrightarrow> r3 = []"
      using less.IH t3 Cons by (metis length_Cons lessI)
    ultimately show ?thesis using Cons t1 t2 t3 less.prems
      by (auto simp: skip_line_start.simps [of "c # cs"] split: if_splits)
  qed
qed

text \<open>A byte below 128 is a rune by itself, and a byte that starts no output is below 128.\<close>

lemma read_rune_ascii: "of_char c < (128 :: nat) \<Longrightarrow> read_rune (c # cs) = Some ([c], cs)"
  by (simp add: read_rune_def rune_len.simps byte_in_def)

lemma not_start_ascii: "\<not> start_byte c \<Longrightarrow> of_char c < (128 :: nat)"
  by (auto simp: start_byte_def)

lemma start_rune_head:
  assumes "read_rune (c # cs) = Some (ch, r)"
  shows "start_rune ch = start_byte c"
proof (cases "of_char c < (128 :: nat)")
  case True
  with assms show ?thesis by (auto simp: read_rune_ascii start_rune_def)
next
  case False
  then have "start_byte c" using not_start_ascii by blast
  moreover have "start_rune ch"
    using assms \<open>start_byte c\<close>
    by (auto simp: read_rune_def start_rune_def rune_error_def take_Cons' split: if_splits list.splits)
  ultimately show ?thesis by simp
qed

lemma scan_line_start:
  "skip_line_start s = (t, r, e) \<Longrightarrow>
   if e then \<exists>p. scan_from (InValue (QuotedLine q) buf st) s = InValue p (buf @ t) st
   else scan_from (InValue (QuotedLine q) buf st) s
        = scan_from (InValue (QuotedLine q) (buf @ t) st) r
      \<and> (\<exists>c cs. r = c # cs \<and> start_byte c \<and> c \<noteq> CHR ''*'')"
proof (induction s arbitrary: t r e buf rule: measure_induct_rule [of length])
  case (less s)
  show ?case
  proof (cases s)
    case Nil
    then show ?thesis using less.prems by (simp add: skip_line_start.simps [of "[]"])
  next
    case (Cons c cs)
    show ?thesis
    proof (cases "start_byte c")
      case False
      obtain t1 r1 e1 where t: "skip_line_start cs = (t1, r1, e1)" by (cases "skip_line_start cs")
      have rd: "read_rune (c # cs) = Some ([c], cs)"
        by (rule read_rune_ascii [OF not_start_ascii [OF False]])
      have "length cs < length s" using Cons by simp
      note IH = less.IH [OF this t, of "buf @ [c]"]
      show ?thesis using IH False Cons t less.prems
        by (auto simp: skip_line_start.simps [of "c # cs"] scan_from_read [OF rd] start_rune_def
            split: if_splits)
    next
      case start: True
      show ?thesis
      proof (cases "c = CHR ''*''")
        case True
        obtain t1 r1 e1 where t1: "read_comment cs = (t1, r1, e1)" by (cases "read_comment cs")
        obtain t2 r2 e2 where t2: "skip_line_start r1 = (t2, r2, e2)" by (cases "skip_line_start r1")
        have rd: "read_rune (CHR ''*'' # cs) = Some (''*'', cs)"
          by (rule read_rune_ascii) simp
        have star: "start_byte (CHR ''*'')" by (simp add: start_byte_def)
        have "length r1 < length s" using read_comment_shorter [OF t1] Cons by simp
        note IH = less.IH [OF this t2, of "buf @ c # t1"]
        show ?thesis
          using IH star True Cons t1 t2 less.prems scan_quoted_comment [OF t1, of q "buf @ ''*''" st]
          by (auto simp: skip_line_start.simps [of "CHR ''*'' # cs"] scan_from_read [OF rd]
              start_rune_def split: if_splits)
      next
        case False
        then show ?thesis using start Cons less.prems
          by (auto simp: skip_line_start.simps [of "c # cs"])
      qed
    qed
  qed
qed

lemma scan_quoted_at_start:
  assumes "start_byte c" "c \<noteq> CHR ''*''"
  shows "scan_from (InValue (QuotedLine q) buf st) (c # cs)
         = scan_from (InValue (Quoted q) buf st) (c # cs)"
proof -
  obtain ch r where rd: "read_rune (c # cs) = Some (ch, r)"
    by (cases "read_rune (c # cs)") auto
  have "start_rune ch" using start_rune_head [OF rd] assms by simp
  moreover have "ch \<noteq> ''*''"
    using rd assms(2) by (auto simp: read_rune_def rune_error_def take_Cons' split: if_splits)
  ultimately show ?thesis by (simp add: scan_from_read [OF rd])
qed

lemma scan_quoted:
  "findEndOfParamterString q s = (t, r) \<Longrightarrow>
   (\<exists>p. scan_from (InValue (Quoted q) buf st) s = InValue p (buf @ t) st \<and> r = []) \<or>
   scan_from (InValue (Quoted q) buf st) s = scan_from (InValue Plain (buf @ t) st) r"
proof (induction s arbitrary: t r buf rule: measure_induct_rule [of length])
  case (less s)
  show ?case
  proof (cases "read_rune s")
    case None
    then show ?thesis using less.prems by (simp add: findEndOfParamterString.simps [of q "[]"])
  next
    case (Some p)
    obtain ch s1 where p: "p = (ch, s1)" by (cases p)
    have rd: "read_rune s = Some (ch, s1)" using Some p by simp
    have l: "length s1 < length s" using rd by (rule read_rune_shorter)
    note simps = findEndOfParamterString.simps [of q s] scan_from_read [OF rd] quoted_step_def
    show ?thesis
    proof (cases "ch = [newline] \<and> ch \<noteq> q")
      case True
      obtain t1 r1 e1 where t1: "skip_line_start s1 = (t1, r1, e1)" by (cases "skip_line_start s1")
      obtain t2 r2 where t2: "findEndOfParamterString q r1 = (t2, r2)"
        by (cases "findEndOfParamterString q r1")
      have "length r1 < length s" using skip_line_start_shorter [OF t1] l by simp
      note IH = less.IH [OF this t2, of "buf @ ch @ t1"]
      note line = scan_line_start [OF t1, of q "buf @ ch" st]
      show ?thesis
      proof (cases e1)
        case True
        moreover have "r1 = []" using t1 True skip_end by simp
        ultimately show ?thesis using line rd \<open>ch = [newline] \<and> ch \<noteq> q\<close> t1 less.prems
          by (auto simp: simps)
      next
        case False
        then have "scan_from (InValue (QuotedLine q) (buf @ ch) st) s1
              = scan_from (InValue (Quoted q) (buf @ ch @ t1) st) r1"
          using line scan_quoted_at_start by auto
        then show ?thesis using IH False rd \<open>ch = [newline] \<and> ch \<noteq> q\<close> t1 t2 less.prems
          by (auto simp: simps)
      qed
    next
      case False
      obtain t2 r2 where t2: "findEndOfParamterString q s1 = (t2, r2)"
        by (cases "findEndOfParamterString q s1")
      note IH = less.IH [OF l t2, of "buf @ ch"]
      show ?thesis using IH False rd t2 less.prems by (auto simp: simps split: if_splits)
    qed
  qed
qed

lemma scan_value:
  "parameter_rest s = (t, r) \<Longrightarrow>
   (\<exists>p. scan_from (InValue Plain buf st) s = InValue p (buf @ t) st \<and> r = []) \<or>
   scan_from (InValue Plain buf st) s = scan_from (Outside (take_parameter (buf @ t) st)) r"
proof (induction s arbitrary: t r buf rule: measure_induct_rule [of length])
  case (less s)
  show ?case
  proof (cases "read_rune s")
    case None
    then show ?thesis using less.prems by (simp add: parameter_rest.simps [of "[]"])
  next
    case (Some p)
    obtain ch s1 where p: "p = (ch, s1)" by (cases p)
    have rd: "read_rune s = Some (ch, s1)" using Some p by simp
    have l: "length s1 < length s" using rd by (rule read_rune_shorter)
    note simps = parameter_rest.simps [of s] scan_from_read [OF rd]
    show ?thesis
    proof (cases "ch = [CHR 0x27] \<or> ch = [CHR 0x22]")
      case True
      obtain t1 r1 where t1: "findEndOfParamterString ch s1 = (t1, r1)"
        by (cases "findEndOfParamterString ch s1")
      obtain t2 r2 where t2: "parameter_rest r1 = (t2, r2)" by (cases "parameter_rest r1")
      have "length r1 < length s" using findEnd_shorter [OF t1] l by simp
      note IH = less.IH [OF this t2, of "buf @ ch @ t1"]
      have nil: "parameter_rest [] = ([], [])" by (simp add: parameter_rest.simps [of "[]"])
      show ?thesis
        using IH True rd t1 t2 less.prems scan_quoted [OF t1, of "buf @ ch" st]
        by (auto simp: simps nil)
    next
      case False
      obtain t2 r2 where t2: "parameter_rest s1 = (t2, r2)" by (cases "parameter_rest s1")
      note IH = less.IH [OF l t2, of "buf @ ch"]
      show ?thesis using IH False rd t2 less.prems by (auto simp: simps split: if_splits)
    qed
  qed
qed

lemma redact_rune_frame [simp]:
  "parameterNext (keep_text t st) = parameterNext st"
  "parameterNext (comment_over st) = parameterNext st"
  "\<not> parameterNext (take_parameter t st)"
  by (simp_all add: keep_text_def comment_over_def take_parameter_def resetAllParameters_def)

text \<open>The state in which the loop of the code is when the scanner is where it is.\<close>

lemma loop_parameter:
  "parameterNext st \<Longrightarrow>
   redact_loop st s = (case getParameterString s of (t, r) \<Rightarrow> redact_loop (take_parameter t st) r)"
  by (auto simp: redact_loop.simps [of st s] redact_loop.simps [of "take_parameter _ _"]
      split: prod.splits)

lemma loop_scans:
  "\<not> parameterNext st \<Longrightarrow> redact_loop st s = scan_result (scan_from (Outside st) s)"
proof (induction s arbitrary: st rule: measure_induct_rule [of length])
  case (less s)
  show ?case
  proof (cases "read_rune s")
    case None
    then show ?thesis using less.prems by (simp add: redact_loop.simps [of st "[]"] output_of_def)
  next
    case (Some p)
    obtain ch s1 where p: "p = (ch, s1)" by (cases p)
    have rd: "read_rune s = Some (ch, s1)" using Some p by simp
    have l: "length s1 < length s" using rd by (rule read_rune_shorter)
    obtain t1 r1 e1 where t1: "read_comment s1 = (t1, r1, e1)" by (cases "read_comment s1")
    obtain t2 r2 where t2: "parameter_rest s1 = (t2, r2)" by (cases "parameter_rest s1")
    note simps = redact_loop.simps [of st s] scan_from_read [OF rd]
    consider (comment) "starts_comment st ch"
      | (param) "\<not> starts_comment st ch" "parameterNext (redact_rune st ch)"
      | (other) "\<not> starts_comment st ch" "\<not> parameterNext (redact_rune st ch)"
      by blast
    then show ?thesis
    proof cases
      case comment
      have l1: "length r1 < length s" using read_comment_shorter [OF t1] l by simp
      have kept: "st\<lparr>originalString := originalString st @ ch @ t1\<rparr> = keep_text t1 (keep_text ch st)"
        by (simp add: keep_text_def)
      show ?thesis using comment rd t1 less.prems less.IH [OF l1] scan_comment [OF t1]
        by (simp add: simps kept output_of_def Let_def flip: comment_over_def)
    next
      case param
      have l2: "length r2 < length s" using parameter_rest_shorter [OF t2] l by simp
      have "redact_loop (redact_rune st ch) s1
            = scan_result (scan_from (Outside (take_parameter (''('' @ t2) (redact_rune st ch))) r2)"
        using param t2 less.IH [OF l2] by (simp add: loop_parameter getParameterString_def)
      also have "\<dots> = scan_result (scan_from (InValue Plain ''('' (redact_rune st ch)) s1)"
        using scan_value [OF t2, of "''(''" "redact_rune st ch"] by auto
      finally show ?thesis using param rd less.prems by (simp add: simps)
    next
      case other
      then show ?thesis using rd less.prems less.IH [OF l] by (simp add: simps)
    qed
  qed
qed

lemma redact_equals_scan:
  "Redact out = scan_result (foldl scan_step (Outside redact_init) (runes (trim_space out)))"
  by (simp add: Redact_def loop_scans redact_init_def flip: scan_from_def)

text \<open>
  C3. \<open>Redact\<close>, with its look-ahead and its nested loops over the buffered reader, computes on every
  text what the one-rune-at-a-time scanner computes on the trimmed text.
\<close>

theorem redact_equals_scanner:
  "Redact out = scan_result (foldl scan_step (Outside redact_init) (runes (trim_space out)))"
  by (rule redact_equals_scan)

section \<open>What is hidden\<close>

definition letter :: "rune \<Rightarrow> bool" where
  "letter ch \<longleftrightarrow> (\<exists>c. ch = [c] \<and> (byte_in 0x41 0x5A c \<or> byte_in 0x61 0x7A c))"

definition blank :: "rune \<Rightarrow> bool" where
  "blank ch \<longleftrightarrow> ch \<in> {'' '', [CHR 0x09], [CHR 0x0D], [newline]}"

text \<open>
  The letters of a name, which may be broken by line continuations: after a continuation character
  blanks (newlines among them) may come before the next letter. The flag says whether a continuation
  is open.
\<close>

fun spelled :: "bool \<Rightarrow> rune list \<Rightarrow> string option" where
  "spelled cont [] = Some []"
| "spelled cont (ch # t) =
     (if letter ch then map_option (\<lambda>n. ch @ n) (spelled False t)
      else if ch = ''+'' \<or> ch = ''-'' then spelled True t
      else if cont \<and> blank ch then spelled True t
      else None)"

text \<open>The runes of a value after its opening parenthesis, up to the one that closes it.\<close>

fun value_from :: "place \<Rightarrow> rune list \<Rightarrow> bool" where
  "value_from p [] = False"
| "value_from p (ch # v) =
     (case value_step p ch of None \<Rightarrow> v = [] | Some p' \<Rightarrow> value_from p' v)"

definition complete_value :: "rune list \<Rightarrow> bool" where
  "complete_value v \<longleftrightarrow> value_from Plain v"

definition reading :: "string \<Rightarrow> bool \<Rightarrow> redact_state \<Rightarrow> bool" where
  "reading w cont st \<longleftrightarrow>
     \<not> parameterNext st \<and> suffix w (currentVerb st) \<and> (w = [] \<or> \<not> foundGap st)
     \<and> (cont \<longrightarrow> lineContinuation st)"

lemma letter_rune:
  "letter ch \<Longrightarrow> start_rune ch \<and> ch \<noteq> ''*'' \<and> ch \<noteq> ''+'' \<and> ch \<noteq> ''-'' \<and> ch \<noteq> ''(''
     \<and> \<not> blank ch \<and> ascii ch"
  by (auto simp: letter_def start_rune_def start_byte_def byte_in_def blank_def ascii_def)

lemma blank_rune: "blank ch \<Longrightarrow> ch \<noteq> ''*'' \<and> ch \<noteq> ''('' \<and> ch \<noteq> ''+'' \<and> ch \<noteq> ''-''"
  by (auto simp: blank_def)

lemma step_letter:
  assumes "letter ch" "\<not> parameterNext st"
  shows "scan_step (Outside st) ch = Outside (redact_rune st ch)"
    and "\<not> parameterNext (redact_rune st ch)" "\<not> foundGap (redact_rune st ch)"
    and "currentVerb (redact_rune st ch) = (if foundGap st then [] else currentVerb st) @ ch"
proof -
  note l = letter_rune [OF assms(1)]
  have sw: "ch \<noteq> [newline]" "ch \<noteq> [CHR 0x09]" "ch \<noteq> [CHR 0x0D]" "ch \<noteq> '' ''"
    using l by (auto simp: blank_def)
  have r: "redact_rune st ch =
      (let st2 = (if foundGap st then
                    st\<lparr>atNewline := False, checkComment := False, lineContinuation := False,
                       redacting := (isSensitiveCommand (to_upper (currentVerb st)) \<or> redacting st),
                       returnStr := returnStr st @ originalString st,
                       originalString := [], currentVerb := [], foundGap := False\<rparr>
                  else st\<lparr>atNewline := False, checkComment := False, lineContinuation := False\<rparr>)
       in st2\<lparr>originalString := originalString st2 @ ch, currentVerb := currentVerb st2 @ ch\<rparr>)"
    using l sw assms(2) by (simp add: redact_rune_def Let_def)
  show n: "\<not> parameterNext (redact_rune st ch)" "\<not> foundGap (redact_rune st ch)"
    and "currentVerb (redact_rune st ch) = (if foundGap st then [] else currentVerb st) @ ch"
    using assms(2) by (simp_all add: r Let_def)
  show "scan_step (Outside st) ch = Outside (redact_rune st ch)"
    using n l by (simp add: starts_comment_def Let_def)
qed

lemma reading_letter:
  assumes "reading w cont st" "letter ch"
  shows "\<exists>st'. scan_step (Outside st) ch = Outside st' \<and> reading (w @ ch) False st'"
  using assms step_letter [OF assms(2), of st]
  by (intro exI [of _ "redact_rune st ch"]) (auto simp: reading_def suffix_def)

lemma reading_continue:
  assumes "reading w cont st" "ch = ''+'' \<or> ch = ''-''"
  shows "\<exists>st'. scan_step (Outside st) ch = Outside st' \<and> reading w True st'"
  using assms by (auto simp: reading_def redact_rune_def starts_comment_def start_rune_def
      start_byte_def Let_def)

lemma reading_blank:
  assumes "reading w True st" "blank ch"
  shows "\<exists>st'. scan_step (Outside st) ch = Outside st' \<and> reading w True st'"
  using assms by (auto simp: reading_def redact_rune_def starts_comment_def blank_def Let_def)

lemma reading_name:
  "reading w cont st \<Longrightarrow> spelled cont t = Some n \<Longrightarrow>
   \<exists>st' cont'. foldl scan_step (Outside st) t = Outside st' \<and> reading (w @ n) cont' st'"
proof (induction t arbitrary: w cont st n)
  case Nil
  then show ?case by auto
next
  case (Cons ch t)
  consider (letter) m where "letter ch" "spelled False t = Some m" "n = ch @ m"
    | (cont) "ch = ''+'' \<or> ch = ''-''" "spelled True t = Some n"
    | (blank) "cont" "blank ch" "spelled True t = Some n"
    using Cons.prems(2) by (auto split: if_splits)
  then show ?case
  proof cases
    case letter
    obtain st1 where "scan_step (Outside st) ch = Outside st1" "reading (w @ ch) False st1"
      using reading_letter [OF Cons.prems(1) letter(1)] by blast
    with Cons.IH [OF _ letter(2)] letter(3) show ?thesis
      by (simp del: scan_step.simps) (metis append_assoc)
  next
    case cont
    obtain st1 where "scan_step (Outside st) ch = Outside st1" "reading w True st1"
      using reading_continue [OF Cons.prems(1) cont(1)] by blast
    with Cons.IH [OF _ cont(2)] show ?thesis by (simp del: scan_step.simps)
  next
    case blank
    obtain st1 where "scan_step (Outside st) ch = Outside st1" "reading w True st1"
      using reading_blank [of w st ch] Cons.prems(1) blank(1,2)
      by (auto simp: reading_def simp del: scan_step.simps)
    with Cons.IH [OF _ blank(3)] show ?thesis by (simp del: scan_step.simps)
  qed
qed

definition at_verb :: "string \<Rightarrow> redact_state \<Rightarrow> bool" where
  "at_verb w st \<longleftrightarrow> \<not> parameterNext st \<and> suffix w (currentVerb st)"

lemma gap_after_verb:
  "at_verb w st \<Longrightarrow> list_all blank g \<Longrightarrow>
   \<exists>st'. foldl scan_step (Outside st) g = Outside st' \<and> at_verb w st'"
proof (induction g arbitrary: st)
  case (Cons ch g)
  have "\<exists>st1. scan_step (Outside st) ch = Outside st1 \<and> at_verb w st1"
    using Cons.prems
    by (auto simp: at_verb_def redact_rune_def starts_comment_def blank_def Let_def)
  with Cons show ?case by auto
qed auto

lemma sensitive_verb:
  "isSensitiveCommand (to_upper n) \<Longrightarrow> ascii n \<Longrightarrow> suffix n v \<Longrightarrow> isSensitiveCommand (to_upper v)"
  unfolding isSensitiveCommand_def suffix_def
  by (metis sublist_append to_upper_append_ascii)

lemma open_sensitive:
  assumes "at_verb n st" "isSensitiveCommand (to_upper n)" "ascii n"
  shows "\<exists>st'. scan_step (Outside st) ''('' = InValue Plain ''('' st' \<and> redacting st'"
proof -
  have "isSensitiveCommand (to_upper (currentVerb st))"
    using assms sensitive_verb by (auto simp: at_verb_def)
  then show ?thesis
    by (simp add: redact_rune_def starts_comment_def start_rune_def start_byte_def Let_def)
qed

lemma spelled_ascii: "spelled cont t = Some n \<Longrightarrow> ascii n"
  by (induction t arbitrary: cont n)
     (auto simp: ascii_def split: if_splits dest!: letter_rune)

text \<open>
  The state after the value does not depend on the value when it is redacted.
\<close>

lemma value_run:
  "value_from p v \<Longrightarrow>
   \<exists>t. foldl scan_step (InValue p buf st) v = Outside (take_parameter t st)"
  by (induction v arbitrary: p buf) (auto split: option.splits)

lemma take_parameter_redacting: "redacting st \<Longrightarrow> take_parameter t st = take_parameter u st"
  by (simp add: take_parameter_def)

text \<open>A parameter name that the scanner meets at any point outside comments and values.\<close>

definition sensitive_open :: "rune list \<Rightarrow> rune list \<Rightarrow> bool" where
  "sensitive_open t g \<longleftrightarrow>
     (case spelled False t of None \<Rightarrow> False | Some n \<Rightarrow> isSensitiveCommand (to_upper n))
     \<and> list_all blank g"

lemma sensitive_value_redacted:
  assumes "foldl scan_step (Outside redact_init) pre = Outside st0" "\<not> parameterNext st0"
    and "sensitive_open t g"
  shows "\<exists>st. redacting st
    \<and> (\<forall>v. complete_value v \<longrightarrow>
           foldl scan_step (Outside redact_init) (pre @ t @ g @ [''(''] @ v)
           = Outside (take_parameter [] st))"
proof -
  obtain n where n: "spelled False t = Some n" "isSensitiveCommand (to_upper n)" "list_all blank g"
    using assms(3) by (auto simp: sensitive_open_def split: option.splits)
  obtain st1 cont where 1: "foldl scan_step (Outside st0) t = Outside st1" "reading n cont st1"
    using reading_name [OF _ n(1), of "[]" st0] assms(2) by (auto simp: reading_def)
  then obtain st2 where 2: "foldl scan_step (Outside st1) g = Outside st2" "at_verb n st2"
    using gap_after_verb n(3) by (metis at_verb_def reading_def)
  obtain st where 3: "scan_step (Outside st2) ''('' = InValue Plain ''('' st" "redacting st"
    using open_sensitive 2(2) n(2) spelled_ascii [OF n(1)] by blast
  show ?thesis
  proof (intro exI conjI allI impI)
    fix v assume "complete_value v"
    then obtain u where "foldl scan_step (InValue Plain ''('' st) v = Outside (take_parameter u st)"
      using value_run [of Plain v "''(''" st] by (auto simp: complete_value_def)
    then show "foldl scan_step (Outside redact_init) (pre @ t @ g @ [''(''] @ v)
           = Outside (take_parameter [] st)"
      using assms(1) 1(1) 2(1) 3 take_parameter_redacting [of st u "[]"] by (simp del: scan_step.simps)
  qed (rule 3(2))
qed

text \<open>Outside a value no parameter is pending: the scanner keeps this at every rune.\<close>

fun scan_invar :: "scan \<Rightarrow> bool" where
  "scan_invar (Outside st) = (\<not> parameterNext st)"
| "scan_invar (InComment st) = (\<not> parameterNext st)"
| "scan_invar (InValue p buf st) = True"

interpretation scanner: event_handler scan_step "Outside redact_init" scan_invar
proof
  show "scan_invar (Outside redact_init)" by (simp add: redact_init_def)
next
  fix c ch assume "scan_invar c"
  then show "scan_invar (scan_step c ch)" by (cases c) (auto simp: Let_def split: option.splits)
qed

text \<open>
  C1. A redacted value does not influence the output: when a sensitive parameter name, in any case
  and possibly broken by line continuations, is followed by blanks and a parenthesised value, at
  any point of the text where the scanner is outside comments and values, then replacing the value
  by another complete one leaves the result unchanged.
\<close>

theorem redact_hides_value:
  assumes "foldl scan_step (Outside redact_init) pre = Outside before"
    and "sensitive_open t g" "complete_value v" "complete_value v'"
    and "runes (trim_space out) = pre @ t @ g @ [''(''] @ v @ post"
    and "runes (trim_space out') = pre @ t @ g @ [''(''] @ v' @ post"
  shows "Redact out = Redact out'"
proof -
  have "\<not> parameterNext before" using scanner.invar_run [of pre] assms(1) by simp
  then obtain st where "foldl scan_step (Outside redact_init) (pre @ t @ g @ [''(''] @ u)
      = Outside (take_parameter [] st)" if "complete_value u" for u
    using sensitive_value_redacted [OF assms(1) _ assms(2)] by blast
  then have "foldl scan_step (Outside redact_init) ((pre @ t @ g @ [''(''] @ v) @ post)
           = foldl scan_step (Outside redact_init) ((pre @ t @ g @ [''(''] @ v') @ post)"
    using assms(3,4) by (simp only: foldl_append)
  then show ?thesis using assms(5,6) by (simp add: redact_equals_scan)
qed

lemma redact_hides_value_witness:
  "Redact ''PASS+
word (secret)'' = Redact ''PASS+
word (')' * )''"
  by (rule redact_hides_value [where pre = "[]" and before = redact_init and g = "['' '']"
        and t = "runes ''PASS+
word''" and v = "runes ''secret)''" and v' = "runes ''')' * )''" and post = "[]"]) code_simp+

section \<open>What is not hidden\<close>

datatype piece = Kept string | Hidden string

fun piece_in :: "piece \<Rightarrow> string" where
  "piece_in (Kept t) = t"
| "piece_in (Hidden t) = t"

fun piece_out :: "piece \<Rightarrow> string" where
  "piece_out (Kept t) = t"
| "piece_out (Hidden t) = redactionString"

text \<open>The place reached in a value that is not yet closed.\<close>

fun value_place :: "place \<Rightarrow> rune list \<Rightarrow> place option" where
  "value_place p [] = Some p"
| "value_place p (ch # v) =
     (case value_step p ch of None \<Rightarrow> None | Some p' \<Rightarrow> value_place p' v)"

definition hidden_value :: "string \<Rightarrow> bool" where
  "hidden_value t \<longleftrightarrow>
     (\<exists>v. t = ''('' @ concat v \<and> (complete_value v \<or> value_place Plain v \<noteq> None))"

lemma value_place_snoc:
  "value_place p v = Some p1 \<Longrightarrow>
   value_place p (v @ [ch]) = value_step p1 ch \<and>
   (value_step p1 ch = None \<longrightarrow> value_from p (v @ [ch]))"
  by (induction v arbitrary: p) (auto split: option.splits)

definition pieces_ok :: "piece list \<Rightarrow> bool" where
  "pieces_ok ps \<longleftrightarrow> (\<forall>t. Hidden t \<in> set ps \<longrightarrow> hidden_value t)"

definition covers :: "piece list \<Rightarrow> redact_state \<Rightarrow> string \<Rightarrow> string \<Rightarrow> bool" where
  "covers ps st buf s \<longleftrightarrow>
     pieces_ok ps \<and> concat (map piece_out ps) = returnStr st \<and> concat (map piece_in ps) @ buf = s"

fun explains :: "piece list \<Rightarrow> scan \<Rightarrow> string \<Rightarrow> bool" where
  "explains ps (Outside st) s = covers ps st (originalString st) s"
| "explains ps (InComment st) s = covers ps st (originalString st) s"
| "explains ps (InValue p buf st) s =
     (covers ps st buf s \<and> (\<exists>v. buf = ''('' @ concat v \<and> value_place Plain v = Some p))"

text \<open>One rune either extends the pending text or moves it to the result and starts it anew.\<close>

lemma redact_rune_cases:
  fixes st ch
  defines "st' \<equiv> redact_rune st ch"
  shows "returnStr st' = returnStr st \<and> originalString st' = originalString st @ ch
           \<and> (parameterNext st' \<longrightarrow> parameterNext st)
       \<or> returnStr st' = returnStr st @ originalString st \<and> originalString st' = ch
           \<and> (parameterNext st' \<longrightarrow> parameterNext st \<or> ch = ''('')"
  unfolding st'_def redact_rune_def Let_def by auto

lemma covers_move:
  "covers ps st (originalString st) s \<Longrightarrow>
   returnStr st' = returnStr st @ originalString st \<Longrightarrow> covers (ps @ [Kept (originalString st)]) st' ch (s @ ch)"
  by (auto simp: covers_def pieces_ok_def)

lemma covers_extend:
  "covers ps st buf s \<Longrightarrow> returnStr st' = returnStr st \<Longrightarrow> covers ps st' (buf @ ch) (s @ ch)"
  by (auto simp: covers_def)

lemma covers_parameter:
  assumes "covers ps st buf s" "hidden_value buf"
  shows "\<exists>ps'. covers ps' (take_parameter buf st) (originalString (take_parameter buf st)) s"
  using assms
  by (intro exI [of _ "ps @ [if redacting st then Hidden buf else Kept buf]"])
     (auto simp: covers_def pieces_ok_def take_parameter_def resetAllParameters_def)

lemma explains_step:
  assumes "explains ps c s" "scan_invar c"
  shows "\<exists>ps'. explains ps' (scan_step c ch) (s @ ch)"
proof (cases c)
  case (Outside st)
  note c = assms [unfolded Outside, simplified]
  show ?thesis
  proof (cases "starts_comment st ch")
    case True
    then show ?thesis using covers_extend [OF c(1), of "keep_text ch st" ch] Outside
      by (auto simp: keep_text_def)
  next
    case False
    consider (extend) "returnStr (redact_rune st ch) = returnStr st"
        "originalString (redact_rune st ch) = originalString st @ ch"
        "\<not> parameterNext (redact_rune st ch)"
      | (move) "returnStr (redact_rune st ch) = returnStr st @ originalString st"
        "originalString (redact_rune st ch) = ch"
        "parameterNext (redact_rune st ch) \<longrightarrow> ch = ''(''"
      using redact_rune_cases [of st ch] c(2) by blast
    then show ?thesis
    proof cases
      case extend
      then show ?thesis using covers_extend [OF c(1) extend(1)] False Outside by auto
    next
      case move
      then have "explains (ps @ [Kept (originalString st)]) (scan_step c ch) (s @ ch)"
        using covers_move [OF c(1) move(1), of ch] False Outside
        by (auto simp: Let_def intro: exI [of _ "[]"])
      then show ?thesis by blast
    qed
  qed
next
  case (InComment st)
  then show ?thesis
    using assms covers_extend [of ps st "originalString st" s "keep_text ch st" ch]
      covers_extend [of ps st "originalString st" s "comment_over (keep_text ch st)" ch]
    by (auto simp: keep_text_def comment_over_def Let_def)
next
  case (InValue p buf st)
  then obtain v where v: "buf = ''('' @ concat v" "value_place Plain v = Some p"
    and cov: "covers ps st (buf @ ch) (s @ ch)"
    using assms covers_extend [of ps st buf s st ch] by auto
  have b: "buf @ ch = ''('' @ concat (v @ [ch])" using v by simp
  show ?thesis
  proof (cases "value_step p ch")
    case None
    then have "hidden_value (buf @ ch)"
      using b value_place_snoc [OF v(2), of ch] unfolding hidden_value_def complete_value_def by blast
    then show ?thesis using covers_parameter [OF cov] None InValue by simp
  next
    case (Some p')
    then have "value_place Plain (v @ [ch]) = Some p'" using value_place_snoc [OF v(2)] by simp
    then show ?thesis using cov b Some InValue by (auto simp del: concat_append)
  qed
qed

lemma explains_run: "\<exists>ps. explains ps (foldl scan_step (Outside redact_init) rs) (concat rs)"
proof (induction rs rule: rev_induct)
  case Nil
  show ?case
    by (rule exI [of _ "[]"]) (simp add: covers_def pieces_ok_def redact_init_def)
next
  case (snoc ch rs)
  then show ?case using explains_step scanner.invar_run [of rs] by fastforce
qed

text \<open>
  C2. Nothing else is changed: the text is a sequence of pieces, the output is the same sequence
  with some pieces replaced by the redaction text, and each of these starts with a parenthesis and
  is a complete value (or, for a value that the end of the text cuts off, the rest of the text).
\<close>

theorem redact_changes_only_values:
  "\<exists>ps. concat (map piece_in ps) = concat (runes (trim_space out))
      \<and> concat (map piece_out ps) = Redact out
      \<and> pieces_ok ps"
proof -
  let ?c = "foldl scan_step (Outside redact_init) (runes (trim_space out))"
  obtain ps where ps: "explains ps ?c (concat (runes (trim_space out)))"
    using explains_run by blast
  have plain: "\<exists>ps'. concat (map piece_in ps') = s \<and> concat (map piece_out ps') = output_of st
      \<and> pieces_ok ps'"
    if "covers qs st (originalString st) s" for qs st s
    using that by (intro exI [of _ "qs @ [Kept (originalString st)]"])
      (auto simp: covers_def pieces_ok_def output_of_def)
  show ?thesis
  proof (cases ?c)
    case (InValue p buf st)
    then have "hidden_value buf" "covers ps st buf (concat (runes (trim_space out)))"
      using ps by (auto simp: hidden_value_def)
    then obtain qs where "covers qs (take_parameter buf st)
        (originalString (take_parameter buf st)) (concat (runes (trim_space out)))"
      using covers_parameter by blast
    from plain [OF this] show ?thesis using InValue by (simp add: redact_equals_scan)
  qed (use ps plain in \<open>auto simp: redact_equals_scan\<close>)
qed

end
