(* ===== verification/Host.thy ===== *)
theory Host
  imports Go_Strings
begin

text \<open>
  What the programs see of the machine they run on: environment variables, files by path, the
  clock, the host name, the external commands (MQ's own and the system's), and the lines they
  log. An operation on the file system fails when the file it needs does not exist, or when the
  fault oracle of the host names an error for it (permissions, a missing parent directory, a full
  disk); a failed operation changes nothing. A command is not code of this repository: what it
  answers is an arbitrary function of the commands run before it and of its own argument list.
\<close>

section \<open>State\<close>

datatype io_error = NotExist | IoErr string

datatype io_op =
    OpStat string
  | OpRead string
  | OpWrite string
  | OpAppend string
  | OpRemove string
  | OpRename string string
  | OpOpen string
  | OpClose string

record cmd_result =
  cmd_out :: string
  cmd_rc :: int
  cmd_err :: "string option"

datatype log_level = DebugL | InfoL | ErrorL

record host =
  env :: "string \<rightharpoonup> string"
  files :: "string \<rightharpoonup> string"
  faults :: "io_op \<Rightarrow> string option"
  clock :: int
  hostname :: "string option"
  exec :: "string list list \<Rightarrow> string list \<Rightarrow> cmd_result"
  cmds :: "string list list"
  logs :: "(log_level \<times> string) list"

section \<open>Environment and log\<close>

text \<open>\<open>os.LookupEnv\<close> is \<open>env h\<close> itself; \<open>os.Getenv\<close> gives the empty text for an unset name.\<close>

definition getenv :: "host \<Rightarrow> string \<Rightarrow> string" where
  "getenv h k = (case env h k of None \<Rightarrow> [] | Some v \<Rightarrow> v)"

definition setenv :: "string \<Rightarrow> string \<Rightarrow> host \<Rightarrow> host" where
  "setenv k v h = h\<lparr>env := (env h)(k \<mapsto> v)\<rparr>"

definition say :: "log_level \<Rightarrow> string \<Rightarrow> host \<Rightarrow> host" where
  "say l m h = h\<lparr>logs := logs h @ [(l, m)]\<rparr>"

section \<open>File operations\<close>

definition os_stat :: "string \<Rightarrow> host \<Rightarrow> io_error option" where
  "os_stat p h =
     (case faults h (OpStat p) of
        Some e \<Rightarrow> Some (IoErr e)
      | None \<Rightarrow> if files h p = None then Some NotExist else None)"

definition os_read :: "string \<Rightarrow> host \<Rightarrow> (io_error, string) result" where
  "os_read p h =
     (case faults h (OpRead p) of
        Some e \<Rightarrow> Inl (IoErr e)
      | None \<Rightarrow> (case files h p of None \<Rightarrow> Inl NotExist | Some c \<Rightarrow> Inr c))"

definition os_write :: "string \<Rightarrow> string \<Rightarrow> host \<Rightarrow> io_error option \<times> host" where
  "os_write p c h =
     (case faults h (OpWrite p) of
        Some e \<Rightarrow> (Some (IoErr e), h)
      | None \<Rightarrow> (None, h\<lparr>files := (files h)(p \<mapsto> c)\<rparr>))"

definition os_remove :: "string \<Rightarrow> host \<Rightarrow> io_error option \<times> host" where
  "os_remove p h =
     (case faults h (OpRemove p) of
        Some e \<Rightarrow> (Some (IoErr e), h)
      | None \<Rightarrow>
          if files h p = None then (Some NotExist, h)
          else (None, h\<lparr>files := (files h)(p := None)\<rparr>))"

definition os_rename :: "string \<Rightarrow> string \<Rightarrow> host \<Rightarrow> io_error option \<times> host" where
  "os_rename p q h =
     (case faults h (OpRename p q) of
        Some e \<Rightarrow> (Some (IoErr e), h)
      | None \<Rightarrow>
          (case files h p of
             None \<Rightarrow> (Some NotExist, h)
           | Some c \<Rightarrow> (None, h\<lparr>files := (files h)(p := None, q := Some c)\<rparr>)))"

text \<open>\<open>os.OpenFile\<close> with \<open>O_CREATE\<close> and without \<open>O_TRUNC\<close>: an absent file is created empty.\<close>

definition os_open_create :: "string \<Rightarrow> host \<Rightarrow> io_error option \<times> host" where
  "os_open_create p h =
     (case faults h (OpOpen p) of
        Some e \<Rightarrow> (Some (IoErr e), h)
      | None \<Rightarrow>
          (None, if files h p = None then h\<lparr>files := (files h)(p \<mapsto> [])\<rparr> else h))"

definition os_append :: "string \<Rightarrow> string \<Rightarrow> host \<Rightarrow> io_error option \<times> host" where
  "os_append p c h =
     (case faults h (OpAppend p) of
        Some e \<Rightarrow> (Some (IoErr e), h)
      | None \<Rightarrow>
          (None, h\<lparr>files := (files h)(p \<mapsto> (case files h p of None \<Rightarrow> [] | Some d \<Rightarrow> d) @ c)\<rparr>))"

section \<open>Commands\<close>

text \<open>\<open>command.Run\<close>: the argument list starts with the name of the command.\<close>

definition run_cmd :: "string list \<Rightarrow> host \<Rightarrow> cmd_result \<times> host" where
  "run_cmd a h = (exec h (cmds h) a, h\<lparr>cmds := cmds h @ [a]\<rparr>)"

section \<open>Hosts without faults\<close>

definition healthy_host :: "host \<Rightarrow> bool" where
  "healthy_host h \<longleftrightarrow> faults h = (\<lambda>_. None)"

lemma healthy_host_faults [simp]: "healthy_host h \<Longrightarrow> faults h p = None"
  by (simp add: healthy_host_def)

lemma faults_frame [simp]:
  "faults (snd (os_write p c h)) = faults h"
  "faults (snd (os_remove p h)) = faults h"
  "faults (snd (os_rename p q h)) = faults h"
  "faults (snd (os_open_create p h)) = faults h"
  "faults (snd (os_append p c h)) = faults h"
  "faults (say l m h) = faults h"
  "faults (snd (run_cmd a h)) = faults h"
  by (auto simp: os_write_def os_remove_def os_rename_def os_open_create_def os_append_def say_def
      run_cmd_def split: option.splits)

lemma healthy_host_frame [simp, inv_intros]:
  "healthy_host (snd (os_write p c h)) = healthy_host h"
  "healthy_host (snd (os_remove p h)) = healthy_host h"
  "healthy_host (snd (os_rename p q h)) = healthy_host h"
  "healthy_host (snd (os_open_create p h)) = healthy_host h"
  "healthy_host (snd (os_append p c h)) = healthy_host h"
  "healthy_host (say l m h) = healthy_host h"
  "healthy_host (snd (run_cmd a h)) = healthy_host h"
  by (simp_all add: healthy_host_def)

lemma healthy_host_update [simp]:
  "healthy_host (h\<lparr>files := f\<rparr>) = healthy_host h"
  "healthy_host (h\<lparr>clock := t\<rparr>) = healthy_host h"
  "healthy_host (h\<lparr>env := e\<rparr>) = healthy_host h"
  "healthy_host (h\<lparr>cmds := c\<rparr>) = healthy_host h"
  "healthy_host (h\<lparr>logs := l\<rparr>) = healthy_host h"
  by (simp_all add: healthy_host_def)

lemma env_frame [simp]:
  "env (snd (os_write p c h)) = env h"
  "env (snd (os_remove p h)) = env h"
  "env (snd (os_rename p q h)) = env h"
  "env (snd (os_open_create p h)) = env h"
  "env (snd (os_append p c h)) = env h"
  "env (say l m h) = env h"
  "env (snd (run_cmd a h)) = env h"
  by (auto simp: os_write_def os_remove_def os_rename_def os_open_create_def os_append_def say_def
      run_cmd_def split: option.splits)

lemma files_frame [simp]:
  "files (say l m h) = files h"
  "files (snd (run_cmd a h)) = files h"
  "files (setenv k v h) = files h"
  by (simp_all add: say_def run_cmd_def setenv_def)

lemma clock_frame [simp]:
  "clock (snd (os_write p c h)) = clock h"
  "clock (snd (os_remove p h)) = clock h"
  "clock (say l m h) = clock h"
  "clock (snd (run_cmd a h)) = clock h"
  by (auto simp: os_write_def os_remove_def say_def run_cmd_def split: option.splits)

lemma healthy_file_ops [simp]:
  assumes "healthy_host h"
  shows "os_stat p h = (if files h p = None then Some NotExist else None)"
    and "os_read p h = (case files h p of None \<Rightarrow> Inl NotExist | Some c \<Rightarrow> Inr c)"
    and "os_write p c h = (None, h\<lparr>files := (files h)(p \<mapsto> c)\<rparr>)"
    and "os_remove p h =
           (if files h p = None then (Some NotExist, h)
            else (None, h\<lparr>files := (files h)(p := None)\<rparr>))"
  using assms by (simp_all add: os_stat_def os_read_def os_write_def os_remove_def)

section \<open>Marker files\<close>

text \<open>
  Several components keep one bit of state, or one value, as a file that is present or absent.
  What they rely on of the file system is this interface: writing a file makes exactly that file
  hold the value, removing a file makes exactly that file absent.
\<close>

locale marker_store =
  fixes lookup :: "'s \<Rightarrow> string \<Rightarrow> string option"
    and put :: "string \<Rightarrow> string \<Rightarrow> 's \<Rightarrow> 's"
    and del :: "string \<Rightarrow> 's \<Rightarrow> 's"
    and ok :: "'s \<Rightarrow> bool"
  assumes lookup_put: "ok s \<Longrightarrow> lookup (put p c s) = (lookup s)(p \<mapsto> c)"
    and lookup_del: "ok s \<Longrightarrow> lookup (del p s) = (lookup s)(p := None)"
    and ok_put: "ok s \<Longrightarrow> ok (put p c s)"
    and ok_del: "ok s \<Longrightarrow> ok (del p s)"
begin

definition put_once :: "string \<Rightarrow> string \<Rightarrow> 's \<Rightarrow> 's" where
  "put_once p c s = (if lookup s p = None then put p c s else s)"

lemma put_once_keeps: "lookup s p = Some d \<Longrightarrow> put_once p c s = s"
  by (simp add: put_once_def)

lemma put_once_present: "ok s \<Longrightarrow> lookup (put_once p c s) p \<noteq> None"
  by (simp add: put_once_def lookup_put)

lemma put_once_idem: "ok s \<Longrightarrow> put_once p d (put_once p c s) = put_once p c s"
  using put_once_present by (auto simp: put_once_def lookup_put)

lemma del_absent: "ok s \<Longrightarrow> lookup (del p s) p = None"
  by (simp add: lookup_del)

lemma put_present: "ok s \<Longrightarrow> lookup (put p c s) p = Some c"
  by (simp add: lookup_put)

lemma put_other: "ok s \<Longrightarrow> q \<noteq> p \<Longrightarrow> lookup (put p c s) q = lookup s q"
  by (simp add: lookup_put)

lemma del_other: "ok s \<Longrightarrow> q \<noteq> p \<Longrightarrow> lookup (del p s) q = lookup s q"
  by (simp add: lookup_del)

end

text \<open>The file system of a host without faults provides it.\<close>

interpretation host_markers: marker_store files "\<lambda>p c h. snd (os_write p c h)"
  "\<lambda>p h. snd (os_remove p h)" healthy_host
  by unfold_locales (auto simp: fun_eq_iff healthy_host_def)

end
