(* ===== verification/Paths.thy ===== *)
theory Paths
  imports Host
begin

text \<open>
  Paths and what is read from and written to them: internal/pathutils, internal/filecheck,
  internal/copy, pkg/name and pkg/mqini, over the lexical path operations of Go's packages path
  and path/filepath (on Linux the two agree).
\<close>

section \<open>Lexical paths\<close>

definition is_abs :: "string \<Rightarrow> bool" where
  "is_abs p \<longleftrightarrow> has_prefix p ''/''"

definition plain_name :: "string \<Rightarrow> bool" where
  "plain_name c \<longleftrightarrow> c \<noteq> [] \<and> c \<noteq> ''.'' \<and> c \<noteq> ''..''"

text \<open>One path element, with the elements kept so far, the last first.\<close>

definition clean_step :: "bool \<Rightarrow> string list \<Rightarrow> string \<Rightarrow> string list" where
  "clean_step rooted kept c =
     (if c = [] \<or> c = ''.'' then kept
      else if c = ''..'' then
        (case kept of
           [] \<Rightarrow> if rooted then [] else [''..'']
         | k # ks \<Rightarrow> if k = ''..'' then ''..'' # kept else ks)
      else c # kept)"

definition clean_elems :: "bool \<Rightarrow> string \<Rightarrow> string list" where
  "clean_elems rooted p = rev (foldl (clean_step rooted) [] (split_on CHR ''/'' p))"

text \<open>\<open>path.Clean\<close> and \<open>filepath.Clean\<close>\<close>

definition path_clean :: "string \<Rightarrow> string" where
  "path_clean p =
     (if is_abs p then CHR ''/'' # join ''/'' (clean_elems True p)
      else if clean_elems False p = [] then ''.''
      else join ''/'' (clean_elems False p))"

text \<open>\<open>filepath.Join\<close>\<close>

definition path_join :: "string list \<Rightarrow> string" where
  "path_join es =
     (case dropWhile (\<lambda>e. e = []) es of [] \<Rightarrow> [] | e # fs \<Rightarrow> path_clean (join ''/'' (e # fs)))"

text \<open>\<open>filepath.Abs\<close>, where the working directory may be unknown.\<close>

definition path_abs :: "string option \<Rightarrow> string \<Rightarrow> string" where
  "path_abs wd p =
     (if is_abs p then path_clean p else (case wd of None \<Rightarrow> [] | Some d \<Rightarrow> path_join [d, p]))"

lemma foldl_clean_plain:
  "\<forall>c \<in> set cs. plain_name c \<Longrightarrow> foldl (clean_step rooted) kept cs = rev cs @ kept"
  by (induction cs arbitrary: kept) (auto simp: clean_step_def plain_name_def)

lemma clean_step_elems:
  "set (clean_step rooted kept c) \<subseteq> insert ''..'' (set kept) \<union> (if plain_name c then {c} else {})"
  by (cases kept) (auto simp: clean_step_def plain_name_def)

lemma clean_step_plain:
  assumes "\<forall>d \<in> set kept. plain_name d"
  shows "\<forall>d \<in> set (clean_step True kept c). plain_name d"
proof (cases "plain_name c")
  case True
  then show ?thesis using assms by (simp add: clean_step_def plain_name_def)
next
  case False
  then show ?thesis using assms
    by (cases kept) (simp_all add: clean_step_def plain_name_def)
qed

lemma foldl_clean_rooted:
  "\<forall>c \<in> set kept. plain_name c \<Longrightarrow> \<forall>c \<in> set (foldl (clean_step True) kept cs). plain_name c"
proof (induction cs arbitrary: kept)
  case (Cons c cs)
  show ?case using Cons.IH [OF clean_step_plain [OF Cons.prems]] by simp
qed simp

lemma foldl_clean_elem:
  assumes "x \<noteq> CHR ''.''"
  shows "\<forall>c \<in> set kept \<union> set cs. x \<notin> set c \<Longrightarrow>
         \<forall>c \<in> set (foldl (clean_step rooted) kept cs). x \<notin> set c"
proof (induction cs arbitrary: kept)
  case (Cons c cs)
  have "\<forall>d \<in> set (clean_step rooted kept c) \<union> set cs. x \<notin> set d"
    using Cons.prems assms clean_step_elems [of rooted kept c] by (auto split: if_splits)
  from Cons.IH [OF this] show ?case by simp
qed simp

lemma clean_elems_plain: "c \<in> set (clean_elems True p) \<Longrightarrow> plain_name c"
  using foldl_clean_rooted [of "[]"] by (auto simp: clean_elems_def)

lemma clean_elems_no_slash: "c \<in> set (clean_elems rooted p) \<Longrightarrow> CHR ''/'' \<notin> set c"
  using foldl_clean_elem [of "CHR ''/''" "[]" "split_on CHR ''/'' p" rooted]
  by (auto simp: clean_elems_def dest: split_on_elem_no_sep)

text \<open>The elements of a path that was put together from plain names.\<close>

lemma foldl_clean_join:
  assumes "\<forall>c \<in> set cs. plain_name c \<and> CHR ''/'' \<notin> set c"
  shows "foldl (clean_step rooted) kept (split_on CHR ''/'' (join ''/'' cs)) = rev cs @ kept"
proof (cases "cs = []")
  case True
  then show ?thesis by (simp add: clean_step_def)
next
  case False
  then show ?thesis using assms split_on_join [of cs "CHR ''/''"] by (simp add: foldl_clean_plain)
qed

lemma clean_elems_idem: "clean_elems True (CHR ''/'' # join ''/'' (clean_elems True p)) = clean_elems True p"
proof -
  have "foldl (clean_step True) [] (split_on CHR ''/'' (join ''/'' (clean_elems True p)))
        = rev (clean_elems True p)"
    by (subst foldl_clean_join) (auto dest: clean_elems_plain clean_elems_no_slash)
  then show ?thesis by (simp add: clean_elems_def clean_step_def)
qed

lemma clean_elems_slash: "clean_elems rooted (CHR ''/'' # p) = clean_elems rooted p"
  by (simp add: clean_elems_def clean_step_def)

section \<open>internal/pathutils\<close>

definition CleanPath :: "string list \<Rightarrow> string" where
  "CleanPath paths =
     (case paths of
        [] \<Rightarrow> []
      | p # _ \<Rightarrow>
          foldl (\<lambda>combined part. path_join [combined, path_clean (CHR ''/'' # part)])
            (if is_abs p then [] else ''./'') paths)"

text \<open>What the path is: the elements of every part, each part cleaned as if it were rooted.\<close>

definition render :: "bool \<Rightarrow> string list \<Rightarrow> string" where
  "render rooted cs =
     (if rooted then CHR ''/'' # join ''/'' cs else if cs = [] then ''.'' else join ''/'' cs)"

lemma join_slash_empty: "join ''/'' [s, t] = s @ CHR ''/'' # t"
  by simp

lemma render_not_abs:
  assumes "\<forall>c \<in> set cs. plain_name c \<and> CHR ''/'' \<notin> set c"
  shows "\<not> is_abs (render False cs @ s)"
proof (cases cs)
  case Nil
  then show ?thesis by (simp add: render_def is_abs_def)
next
  case (Cons c ds)
  then have "c \<noteq> []" "CHR ''/'' \<notin> set c" using assms by (auto simp: plain_name_def)
  then obtain x w where "c = x # w" "x \<noteq> CHR ''/''" by (cases c) auto
  then show ?thesis using Cons by (cases ds) (simp_all add: render_def is_abs_def)
qed

lemma join_slash_append:
  "foldl (clean_step rooted) kept (split_on CHR ''/'' (s @ CHR ''/'' # t))
   = foldl (clean_step rooted) (foldl (clean_step rooted) kept (split_on CHR ''/'' s)) (split_on CHR ''/'' t)"
  by (simp add: split_on_append)

definition good_elems :: "string list \<Rightarrow> bool" where
  "good_elems cs \<longleftrightarrow> (\<forall>c \<in> set cs. plain_name c \<and> CHR ''/'' \<notin> set c)"

lemma good_clean_elems [simp]: "good_elems (clean_elems True p)"
  by (auto simp: good_elems_def dest: clean_elems_plain clean_elems_no_slash)

lemma good_append [simp]: "good_elems (cs @ ds) \<longleftrightarrow> good_elems cs \<and> good_elems ds"
  by (auto simp: good_elems_def)

lemma elems_render:
  assumes "good_elems cs"
  shows "foldl (clean_step rooted) [] (split_on CHR ''/'' (render r cs)) = rev cs"
proof (cases "\<not> r \<and> cs = []")
  case True
  then show ?thesis by (simp add: render_def clean_step_def)
next
  case False
  then show ?thesis
    using foldl_clean_join [of cs rooted "[]"] assms
    by (auto simp: render_def good_elems_def clean_step_def)
qed

lemma render_nonempty:
  assumes "good_elems cs"
  shows "render r cs \<noteq> []"
proof (cases cs)
  case Nil
  then show ?thesis by (simp add: render_def)
next
  case (Cons c ds)
  then have "c \<noteq> []" using assms by (simp add: good_elems_def plain_name_def)
  then show ?thesis using Cons by (cases ds) (simp_all add: render_def)
qed

lemma path_clean_render: "path_clean p = render (is_abs p) (clean_elems (is_abs p) p)"
  by (simp add: path_clean_def render_def)

lemma join_rendered:
  assumes "good_elems cs" "good_elems ds"
  shows "path_join [render r cs, render True ds] = render r (cs @ ds)"
proof -
  have ne: "render r cs \<noteq> []" using assms(1) by (rule render_nonempty)
  have el: "clean_elems b (render r cs @ CHR ''/'' # render True ds) = cs @ ds" for b
    using elems_render [OF assms(1), of b r] foldl_clean_join [of ds b "rev cs"] assms(2)
    by (simp add: clean_elems_def split_on_append render_def [of True ds] clean_step_def good_elems_def)
  have abs: "is_abs (render r cs @ CHR ''/'' # render True ds) = r"
  proof (cases r)
    case True
    then show ?thesis by (simp add: is_abs_def render_def)
  next
    case False
    then show ?thesis using render_not_abs [of cs] assms(1) by (simp add: good_elems_def)
  qed
  have "path_join [render r cs, render True ds] = path_clean (render r cs @ CHR ''/'' # render True ds)"
    using ne by (simp add: path_join_def)
  then show ?thesis by (simp only: path_clean_render el abs)
qed

definition joined_elems :: "string list \<Rightarrow> string list" where
  "joined_elems ps = concat (map (clean_elems True) ps)"

lemma CleanPath_fold:
  "good_elems cs \<Longrightarrow>
   foldl (\<lambda>combined part. path_join [combined, path_clean (CHR ''/'' # part)]) (render r cs) ps
   = render r (cs @ joined_elems ps)"
proof (induction ps arbitrary: cs)
  case Nil
  then show ?case by (simp add: joined_elems_def)
next
  case (Cons p ps)
  have "path_clean (CHR ''/'' # p) = render True (clean_elems True p)"
    by (simp add: path_clean_render is_abs_def clean_elems_slash)
  then show ?case
    using Cons.IH [of "cs @ clean_elems True p"] Cons.prems
    by (simp add: join_rendered joined_elems_def)
qed

lemma good_joined [simp]: "good_elems (joined_elems ps)"
  by (induction ps) (auto simp: joined_elems_def good_elems_def dest: clean_elems_plain clean_elems_no_slash)

lemma CleanPath_render:
  assumes "ps \<noteq> []"
  shows "CleanPath ps = render (is_abs (hd ps)) (joined_elems ps)"
proof -
  obtain p qs where ps: "ps = p # qs" using assms by (cases ps) auto
  have clean: "path_clean (CHR ''/'' # p) = render True (clean_elems True p)"
    by (simp add: path_clean_render is_abs_def clean_elems_slash)
  have first: "path_join [if is_abs p then [] else ''./'', path_clean (CHR ''/'' # p)]
      = render (is_abs p) (clean_elems True p)"
  proof (cases "is_abs p")
    case True
    have "path_join [[], render True (clean_elems True p)] = path_clean (render True (clean_elems True p))"
      by (simp add: path_join_def render_def)
    also have "\<dots> = render True (clean_elems True p)"
      by (simp add: path_clean_render is_abs_def render_def clean_elems_idem)
    finally show ?thesis using True clean by simp
  next
    case False
    have "path_join [''./'', render True (clean_elems True p)]
        = render False (clean_elems False (''./'' @ CHR ''/'' # render True (clean_elems True p)))"
      by (simp add: path_join_def path_clean_render is_abs_def)
    also have "clean_elems False (''./'' @ CHR ''/'' # render True (clean_elems True p)) = clean_elems True p"
      using foldl_clean_join [of "clean_elems True p" False "[]"] good_clean_elems [of p]
      by (simp add: clean_elems_def [of False] render_def clean_step_def good_elems_def)
    finally show ?thesis using False clean by simp
  qed
  show ?thesis
    using CleanPath_fold [of "clean_elems True p" "is_abs p" qs] first
    by (simp add: ps CleanPath_def joined_elems_def)
qed

text \<open>
  C37. \<open>CleanPath\<close> confines: the result names exactly the elements of the parts, each part cleaned by
  itself, so the elements of the first part always come first, and no element is a parent
  reference, whatever the other parts hold.
\<close>

theorem CleanPath_confined:
  "split_on CHR ''/'' (CleanPath (base # parts))
     = (if is_abs base then [[]] else []) @
       (let cs = clean_elems True base @ joined_elems parts
        in if cs = [] then [if is_abs base then [] else ''.''] else cs)
   \<and> ''..'' \<notin> set (split_on CHR ''/'' (CleanPath (base # parts)))"
proof -
  let ?cs = "joined_elems (base # parts)"
  have cs: "?cs = clean_elems True base @ joined_elems parts" by (simp add: joined_elems_def)
  have good: "\<forall>c \<in> set ?cs. plain_name c \<and> CHR ''/'' \<notin> set c"
    using good_joined [of "base # parts"] by (simp only: good_elems_def)
  have split: "split_on CHR ''/'' (CleanPath (base # parts))
     = (if is_abs base then [[]] else []) @
       (if ?cs = [] then [if is_abs base then [] else ''.''] else ?cs)"
    using split_on_join [of ?cs "CHR ''/''"] good by (simp add: CleanPath_render render_def)
  moreover have "''..'' \<notin> set ?cs" using good by (auto simp: plain_name_def)
  ultimately show ?thesis by (simp add: Let_def cs)
qed

section \<open>internal/filecheck\<close>

definition refused_dirs :: "string list" where
  "refused_dirs = [''bin'', ''boot'', ''dev'', ''lib'', ''lib64'', ''proc'', ''sbin'', ''sys'']"

definition CheckFileSource :: "string option \<Rightarrow> string \<Rightarrow> string option" where
  "CheckFileSource wd fileName =
     (let absFile = path_abs wd fileName
      in if \<exists>p \<in> set refused_dirs. has_prefix absFile (CleanPath [''/'', p])
         then Some (''Filename resolves to invalid path '' @ CHR 0x27 # absFile @ [CHR 0x27]) else None)"

lemma CleanPath_root_name:
  "plain_name p \<Longrightarrow> CHR ''/'' \<notin> set p \<Longrightarrow> CleanPath [''/'', p] = CHR ''/'' # p"
  by (simp add: CleanPath_render joined_elems_def clean_elems_def clean_step_def split_on_no_sep
      render_def is_abs_def plain_name_def)

lemma prefix_join_head:
  assumes "CHR ''/'' \<notin> set r" "r \<noteq> []"
  shows "prefix r (join ''/'' cs) \<longleftrightarrow> (case cs of [] \<Rightarrow> False | d # _ \<Rightarrow> prefix r d)"
proof (cases cs)
  case Nil
  then show ?thesis using assms by simp
next
  case (Cons d ds)
  have "prefix r (d @ CHR ''/'' # t) \<longleftrightarrow> prefix r d" for t
    using assms(1) by (auto simp: prefix_append prefix_Cons)
  then show ?thesis using Cons by (cases ds) simp_all
qed

lemma refused_names: "r \<in> set refused_dirs \<Longrightarrow> plain_name r \<and> CHR ''/'' \<notin> set r \<and> r \<noteq> []"
  by (auto simp: refused_dirs_def plain_name_def)

text \<open>
  \<open>CheckFileSource\<close> decides on the resolved path: an absolute file name, with any parent
  references in it resolved, is refused exactly when its first element starts with the name of a
  system directory (so a directory such as \<open>/library\<close> is refused too), and otherwise accepted.
\<close>

theorem CheckFileSource_resolved:
  assumes "is_abs fileName"
  shows "CheckFileSource wd fileName = None \<longleftrightarrow>
    (case clean_elems True fileName of
       [] \<Rightarrow> True
     | d # _ \<Rightarrow> \<forall>r \<in> set refused_dirs. \<not> prefix r d)"
proof -
  have "prefix (CleanPath [''/'', r]) (path_abs wd fileName)
      \<longleftrightarrow> (case clean_elems True fileName of [] \<Rightarrow> False | d # _ \<Rightarrow> prefix r d)"
    if "r \<in> set refused_dirs" for r
    using refused_names [OF that] assms prefix_join_head [of r "clean_elems True fileName"]
    by (simp add: CleanPath_root_name path_abs_def path_clean_def)
  then show ?thesis by (auto simp: CheckFileSource_def Let_def split: list.splits)
qed

lemma CheckFileSource_resolved_witness:
  "CheckFileSource None ''/etc/mqm/../../proc/1/environ'' \<noteq> None
   \<and> CheckFileSource None ''/etc/mqm/a.crt'' = None"
proof
  have abs: "is_abs ''/etc/mqm/../../proc/1/environ''" "is_abs ''/etc/mqm/a.crt''"
    by (simp_all add: is_abs_def)
  show "CheckFileSource None ''/etc/mqm/../../proc/1/environ'' \<noteq> None"
    unfolding CheckFileSource_resolved [OF abs(1)] by code_simp
  show "CheckFileSource None ''/etc/mqm/a.crt'' = None"
    unfolding CheckFileSource_resolved [OF abs(2)] by code_simp
qed

section \<open>The last element of a path\<close>

definition base_name :: "string \<Rightarrow> string" where
  "base_name p = last (split_on CHR ''/'' p)"

lemma base_name_append: "base_name (a @ CHR ''/'' # b) = base_name b"
  by (simp add: base_name_def split_on_append)

lemma base_name_rooted: "base_name (CHR ''/'' # b) = base_name b"
  using base_name_append [of "[]" b] by simp

lemma path_clean_base:
  assumes "plain_name (base_name p)"
  shows "base_name (path_clean p) = base_name p"
proof -
  let ?c = "base_name p"
  obtain bs where bs: "split_on CHR ''/'' p = bs @ [?c]"
    unfolding base_name_def by (metis append_butlast_last_id split_on_nonempty)
  have e: "clean_elems r p = rev (foldl (clean_step r) [] bs) @ [?c]" for r
    unfolding clean_elems_def bs using assms by (simp add: clean_step_def plain_name_def)
  have "split_on CHR ''/'' (join ''/'' (clean_elems r p)) = clean_elems r p" for r
    using split_on_join [of "clean_elems r p" "CHR ''/''"] clean_elems_no_slash e [of r] by fastforce
  then have j: "base_name (join ''/'' (clean_elems r p)) = ?c" for r
    by (simp add: base_name_def e)
  show ?thesis
    using j e by (simp add: path_clean_def base_name_rooted)
qed

lemma CleanPath_base:
  assumes "plain_name (base_name x)"
  shows "base_name (CleanPath [d, x]) = base_name x"
proof -
  let ?b = "path_clean (CHR ''/'' # x)"
  have b: "base_name ?b = base_name x" using assms by (simp add: path_clean_base base_name_rooted)
  have "?b \<noteq> []" by (simp add: path_clean_def is_abs_def)
  then have "base_name (path_join [a, ?b]) = base_name x" for a
    using assms b by (simp add: path_join_def path_clean_base base_name_append)
  then show ?thesis by (simp add: CleanPath_def)
qed

lemma base_name_suffix: "CHR ''/'' \<notin> set e \<Longrightarrow> \<exists>c. base_name (x @ e) = c @ e"
proof (induction x)
  case Nil
  assume "CHR ''/'' \<notin> set e"
  then show ?case by (simp add: base_name_def split_on_no_sep)
next
  case (Cons a x)
  then obtain c where c: "base_name (x @ e) = c @ e" by blast
  obtain w ws where w: "split_on CHR ''/'' (x @ e) = w # ws" by (cases "split_on CHR ''/'' (x @ e)") auto
  then have "base_name ((a # x) @ e) = (if a \<noteq> CHR ''/'' \<and> ws = [] then a # base_name (x @ e) else base_name (x @ e))"
    by (auto simp: base_name_def)
  then have "base_name ((a # x) @ e) = (if a \<noteq> CHR ''/'' \<and> ws = [] then a # c else c) @ e" using c by simp
  then show ?case by blast
qed

section \<open>internal/copy\<close>

fun err_text :: "io_error \<Rightarrow> string" where
  "err_text NotExist = ''no such file or directory''"
| "err_text (IoErr e) = e"

text \<open>
  The destination is opened without truncation, so what is written replaces the start of what it
  held. The permission bits are not part of the model.
\<close>

definition overwrite_start :: "string \<Rightarrow> string \<Rightarrow> string" where
  "overwrite_start new old = new @ drop (length new) old"

definition file_or_empty :: "host \<Rightarrow> string \<Rightarrow> string" where
  "file_or_empty h p = (case files h p of None \<Rightarrow> [] | Some c \<Rightarrow> c)"

definition CopyFileMode :: "string option \<Rightarrow> string \<Rightarrow> string \<Rightarrow> host \<Rightarrow> string option \<times> host" where
  "CopyFileMode wd src dest h =
     (case CheckFileSource wd src of
        Some e \<Rightarrow> (Some (''failed to open '' @ src @ '' for copy: '' @ e), h)
      | None \<Rightarrow>
          (case os_read src h of
             Inl e \<Rightarrow> (Some (''failed to open '' @ src @ '' for copy: '' @ err_text e), h)
           | Inr _ \<Rightarrow>
               (case os_open_create dest h of
                  (Some e, h1) \<Rightarrow>
                    (Some (''failed to open '' @ dest @ '' for copy: '' @ err_text e), h1)
                | (None, h1) \<Rightarrow>
                    (case os_write dest (overwrite_start (file_or_empty h1 src) (file_or_empty h1 dest)) h1 of
                       (Some e, h2) \<Rightarrow> (Some (err_text e), h2)
                     | (None, h2) \<Rightarrow> (faults h2 (OpClose dest), h2)))))"

definition CopyFile :: "string option \<Rightarrow> string \<Rightarrow> string \<Rightarrow> host \<Rightarrow> string option \<times> host" where
  "CopyFile = CopyFileMode"

text \<open>
  A copy that reports success has copied the file exactly when the destination did not exist or
  was no longer than the source; otherwise the end of the old destination stays behind the copy.
\<close>

theorem CopyFile_result:
  assumes "CopyFile wd src dest h = (None, h')" "src \<noteq> dest"
  shows "\<exists>c. files h src = Some c
    \<and> files h' = (files h)(dest \<mapsto> c @ drop (length c) (file_or_empty h dest))"
proof -
  obtain c where c: "files h src = Some c" "faults h (OpRead src) = None"
    using assms(1) by (auto simp: CopyFile_def CopyFileMode_def os_read_def split: option.splits)
  have "files h' = (files h)(dest \<mapsto> c @ drop (length c) (file_or_empty h dest))"
    using assms c
    by (auto simp: CopyFile_def CopyFileMode_def os_read_def os_open_create_def os_write_def
        file_or_empty_def overwrite_start_def split: option.splits if_splits)
  then show ?thesis using c by blast
qed

definition copy_host :: host where
  "copy_host = \<lparr>env = Map.empty, files = [''/a'' \<mapsto> ''new'', ''/b'' \<mapsto> ''older text''],
     faults = (\<lambda>_. None), clock = 0, hostname = None,
     exec = (\<lambda>_ _. \<lparr>cmd_out = [], cmd_rc = 0, cmd_err = None\<rparr>), cmds = [], logs = []\<rparr>"

lemma CopyFile_result_witness:
  "files (snd (CopyFile None ''/a'' ''/b'' copy_host)) ''/b'' = Some ''newer text''"
proof -
  have "CopyFile None ''/a'' ''/b'' copy_host = (None, snd (CopyFile None ''/a'' ''/b'' copy_host))"
    by (simp add: prod_eq_iff) code_simp
  from CopyFile_result [OF this] show ?thesis by (auto simp: copy_host_def file_or_empty_def)
qed

section \<open>pkg/name\<close>

definition name_char :: "char \<Rightarrow> bool" where
  "name_char c \<longleftrightarrow>
     (let n = (of_char c :: nat)
      in 97 \<le> n \<and> n \<le> 122 \<or> 65 \<le> n \<and> n \<le> 90 \<or> 48 \<le> n \<and> n \<le> 57 \<or> c \<in> set ''._%/'')"

definition sanitizeQueueManagerName :: "string \<Rightarrow> string" where
  "sanitizeQueueManagerName = filter name_char"

definition GetQueueManagerName :: "host \<Rightarrow> (string, string) result" where
  "GetQueueManagerName h =
     (case env h ''MQ_QMGR_NAME'' of
        Some (c # cs) \<Rightarrow> Inr (c # cs)
      | _ \<Rightarrow>
          (case hostname h of
             None \<Rightarrow> Inl ''hostname unavailable''
           | Some n \<Rightarrow> Inr (sanitizeQueueManagerName n)))"

text \<open>
  The queue manager's name is the value of \<open>MQ_QMGR_NAME\<close> whenever that is set to a non-empty
  text; otherwise it is the host name without the characters that are not legal in a name (the host
  name itself when all are), and the function fails only when the host has no name.
\<close>

theorem GetQueueManagerName_cases:
  "GetQueueManagerName h =
     (if getenv h ''MQ_QMGR_NAME'' \<noteq> [] then Inr (getenv h ''MQ_QMGR_NAME'')
      else (case hostname h of
              None \<Rightarrow> Inl ''hostname unavailable''
            | Some n \<Rightarrow> Inr (sanitizeQueueManagerName n)))
   \<and> list_all name_char (sanitizeQueueManagerName n)
   \<and> subseq (sanitizeQueueManagerName n) n
   \<and> (list_all name_char n = (sanitizeQueueManagerName n = n))"
  by (auto simp: GetQueueManagerName_def getenv_def sanitizeQueueManagerName_def list_all_iff
      filter_id_conv split: option.splits list.splits)

section \<open>pkg/mqini\<close>

record QueueManager =
  Name :: string
  Prefix :: string
  Directory :: string
  DataPath :: string
  InstallationName :: string

definition no_queue_manager :: QueueManager where
  "no_queue_manager =
     \<lparr>Name = [], Prefix = [], Directory = [], DataPath = [], InstallationName = []\<rparr>"

text \<open>One line of a stanza. A known key without a value is an index panic, here \<open>None\<close>.\<close>

definition stanza_keys :: "string list" where
  "stanza_keys = [''Name'', ''Prefix'', ''Directory'', ''DataPath'', ''InstallationName'']"

definition stanza_line :: "QueueManager \<Rightarrow> string \<Rightarrow> QueueManager option" where
  "stanza_line qm line =
     (let t = split_on CHR ''='' (trim_space line) in
      if hd t \<in> set stanza_keys then
        (if length t < 2 then None
         else Some (if hd t = ''Name'' then qm\<lparr>Name := t ! 1\<rparr>
                    else if hd t = ''Prefix'' then qm\<lparr>Prefix := t ! 1\<rparr>
                    else if hd t = ''Directory'' then qm\<lparr>Directory := t ! 1\<rparr>
                    else if hd t = ''DataPath'' then qm\<lparr>DataPath := t ! 1\<rparr>
                    else qm\<lparr>InstallationName := t ! 1\<rparr>))
      else Some qm)"

fun stanza_lines :: "QueueManager \<Rightarrow> string list \<Rightarrow> QueueManager option" where
  "stanza_lines qm [] = Some qm"
| "stanza_lines qm (l # ls) =
     (case stanza_line qm l of None \<Rightarrow> None | Some qm' \<Rightarrow> stanza_lines qm' ls)"

text \<open>The queue manager, and whether the scanner stopped with an error; \<open>None\<close> is a panic.\<close>

definition getQueueManagerFromStanza :: "string \<Rightarrow> (QueueManager \<times> bool) option" where
  "getQueueManagerFromStanza stanza =
     map_option (\<lambda>qm. (qm, scan_err stanza)) (stanza_lines no_queue_manager (scan_lines stanza))"

datatype mqini_result = IniError string | IniPanic | IniOk QueueManager

definition GetQueueManager :: "string \<Rightarrow> host \<Rightarrow> mqini_result \<times> host" where
  "GetQueueManager nm h =
     (case os_stat ''/var/mqm/mqs.ini'' h of
        Some _ \<Rightarrow> (IniError ''dspmqinf should not be run before crtmqdir'', h)
      | None \<Rightarrow>
          (case run_cmd [''dspmqinf'', ''-o'', ''stanza'', nm] h of
             (r, h1) \<Rightarrow>
               (case cmd_err r of
                  Some e \<Rightarrow> (IniError e, h1)
                | None \<Rightarrow>
                    (case getQueueManagerFromStanza (cmd_out r) of
                       None \<Rightarrow> (IniPanic, h1)
                     | Some (qm, bad) \<Rightarrow>
                         (if bad then IniError ''bufio.Scanner: token too long'' else IniOk qm, h1)))))"

definition GetDataDirectory :: "QueueManager \<Rightarrow> string" where
  "GetDataDirectory qm =
     (if DataPath qm \<noteq> [] then DataPath qm else CleanPath [Prefix qm, ''qmgrs'', Directory qm])"

definition GetErrorLogDirectory :: "QueueManager \<Rightarrow> string" where
  "GetErrorLogDirectory qm = CleanPath [GetDataDirectory qm, ''errors'']"

text \<open>The stanza as \<open>dspmqinf\<close> documents it, for values that fit on their line.\<close>

definition stanza_of :: "QueueManager \<Rightarrow> string" where
  "stanza_of qm =
     join [newline]
       [''QueueManager:'', ''   Name='' @ Name qm, ''   Prefix='' @ Prefix qm,
        ''   Directory='' @ Directory qm, ''   DataPath='' @ DataPath qm,
        ''   InstallationName='' @ InstallationName qm, []]"

definition ini_value :: "string \<Rightarrow> bool" where
  "ini_value v \<longleftrightarrow> v \<noteq> [] \<and> ascii v \<and> length v < 60000 \<and>
     (\<forall>c \<in> set v. of_char c > (32 :: nat) \<and> c \<noteq> CHR ''='')"

definition ini_values :: "QueueManager \<Rightarrow> bool" where
  "ini_values qm \<longleftrightarrow> ini_value (Name qm) \<and> ini_value (Prefix qm) \<and> ini_value (Directory qm)
     \<and> ini_value (DataPath qm) \<and> ini_value (InstallationName qm)"

lemma ini_value_ends: "ini_value v \<Longrightarrow> v \<noteq> [] \<and> solid (last v)"
  unfolding ini_value_def ascii_def solid_def using last_in_set [of v] by blast

lemma ini_value_split: "ini_value v \<Longrightarrow> CHR ''='' \<notin> set v \<and> newline \<notin> set v \<and> last v \<noteq> CHR 0x0D"
  unfolding ini_value_def using last_in_set [of v] by fastforce

lemma key_facts:
  "k \<in> set stanza_keys \<Longrightarrow>
   k \<noteq> [] \<and> solid (hd k) \<and> CHR ''='' \<notin> set k \<and> newline \<notin> set k \<and> length k < 20"
  by (auto simp: stanza_keys_def solid_def)

lemma stanza_line_key:
  assumes "k \<in> set stanza_keys" "ini_value v"
  shows "split_on CHR ''='' (trim_space (''   '' @ k @ ''='' @ v)) = [k, v]"
proof -
  have "trim_space (''   '' @ k @ ''='' @ v) = k @ ''='' @ v"
    using key_facts [OF assms(1)] ini_value_ends [OF assms(2)]
    by (simp add: trim_space_blank trim_space_solid)
  then show ?thesis
    using key_facts [OF assms(1)] ini_value_split [OF assms(2)]
    by (simp add: split_on_append_sep split_on_no_sep)
qed

lemma stanza_first_line: "stanza_line qm ''QueueManager:'' = Some qm"
  by code_simp



text \<open>
  What the parser does with other values: a value is cut at its first equals sign, and a known
  key without an equals sign is an index panic.
\<close>

theorem stanza_value_limits:
  "getQueueManagerFromStanza ''DataPath=/mnt/a=b'' = Some (no_queue_manager\<lparr>DataPath := ''/mnt/a''\<rparr>, False)
   \<and> getQueueManagerFromStanza ''Name'' = None"
proof -
  have raw: "raw_lines ''DataPath=/mnt/a=b'' = [''DataPath=/mnt/a=b'']" "raw_lines ''Name'' = [''Name'']"
    by code_simp+
  have scan: "scan_lines ''DataPath=/mnt/a=b'' = [''DataPath=/mnt/a=b'']"
      "\<not> scan_err ''DataPath=/mnt/a=b''" "scan_lines ''Name'' = [''Name'']"
    by (simp_all add: short_lines raw drop_cr_def)
  have "stanza_line no_queue_manager ''DataPath=/mnt/a=b''
      = Some (no_queue_manager\<lparr>DataPath := ''/mnt/a''\<rparr>)"
      "stanza_line no_queue_manager ''Name'' = None"
    by code_simp+
  then show ?thesis
    using scan by (simp_all add: getQueueManagerFromStanza_def)
qed

end
