(* ===== verification/Ready.thy ===== *)
theory Ready
  imports Host
begin

text \<open>
  internal/ready: the two marker files through which runmqserver tells the probe programs that
  configuration is finished and since when a Native HA instance is ready to sync, and the parser
  of the output of \<open>dspmq\<close>.
\<close>

section \<open>Marker files\<close>

definition readyFile :: string where
  "readyFile = ''/run/runmqserver/ready''"

definition readyToSyncFile :: string where
  "readyToSyncFile = ''/run/runmqserver/ready-to-sync''"

lemma ready_files_distinct [simp]: "readyFile \<noteq> readyToSyncFile" "readyToSyncFile \<noteq> readyFile"
  by (simp_all add: readyFile_def readyToSyncFile_def)

definition fileExists :: "string \<Rightarrow> host \<Rightarrow> (io_error, bool) result" where
  "fileExists p h =
     (case os_stat p h of
        None \<Rightarrow> Inr True
      | Some NotExist \<Rightarrow> Inr False
      | Some e \<Rightarrow> Inl e)"

definition clearFile :: "string \<Rightarrow> host \<Rightarrow> io_error option \<times> host" where
  "clearFile p h =
     (case fileExists p h of
        Inl e \<Rightarrow> (Some e, h)
      | Inr True \<Rightarrow> os_remove p h
      | Inr False \<Rightarrow> (None, h))"

definition Clear :: "host \<Rightarrow> io_error option \<times> host" where
  "Clear h =
     (case clearFile readyFile h of
        (Some e, h1) \<Rightarrow> (Some e, h1)
      | (None, h1) \<Rightarrow> clearFile readyToSyncFile h1)"

definition Set :: "host \<Rightarrow> io_error option \<times> host" where
  "Set h = os_write readyFile ''1'' h"

definition Check :: "host \<Rightarrow> (io_error, bool) result" where
  "Check h = fileExists readyFile h"

definition SetReadyToSync :: "host \<Rightarrow> io_error option \<times> host" where
  "SetReadyToSync h =
     (case fileExists readyToSyncFile h of
        Inl e \<Rightarrow> (Some e, h)
      | Inr True \<Rightarrow> (None, h)
      | Inr False \<Rightarrow> os_write readyToSyncFile (itoa (clock h)) h)"

text \<open>
  \<open>GetReadyToSyncStartTime\<close> returns whether the file exists, the Unix time it holds (\<open>None\<close> for
  the zero \<open>time.Time\<close> of the other branches) and an error.
\<close>

datatype ready_error = ReadyIo io_error | ReadyParse string

definition GetReadyToSyncStartTime :: "host \<Rightarrow> bool \<times> int option \<times> ready_error option" where
  "GetReadyToSyncStartTime h =
     (case fileExists readyToSyncFile h of
        Inl e \<Rightarrow> (False, None, Some (ReadyIo e))
      | Inr False \<Rightarrow> (False, None, None)
      | Inr True \<Rightarrow>
          (case os_read readyToSyncFile h of
             Inl e \<Rightarrow> (True, None, Some (ReadyIo e))
           | Inr buf \<Rightarrow>
               (case parse_int64 buf of
                  None \<Rightarrow> (True, None, Some (ReadyParse buf))
                | Some t \<Rightarrow> (True, Some t, None))))"

section \<open>Queue manager status\<close>

datatype QMStatus = StatusUnknown | StatusActiveQM | StatusStandbyQM | StatusReplicaQM | StatusRecoveryQM

definition status_of_output :: "string \<Rightarrow> QMStatus" where
  "status_of_output out =
     (if contains out ''(RUNNING)'' then StatusActiveQM
      else if contains out ''(RUNNING AS STANDBY)'' then StatusStandbyQM
      else if contains out ''(REPLICA)'' then StatusStandbyQM
      else if contains out ''(RECOVERY GROUP LEADER)'' then StatusRecoveryQM
      else StatusUnknown)"

definition ReadyStatus :: "string \<Rightarrow> host \<Rightarrow> (QMStatus \<times> string option) \<times> host" where
  "ReadyStatus name h =
     (let (r, h1) = run_cmd [''dspmq'', ''-n'', ''-m'', name] h
      in (case cmd_err r of
            Some e \<Rightarrow> ((StatusUnknown, Some e), h1)
          | None \<Rightarrow> ((status_of_output (cmd_out r), None), h1)))"

definition ActiveQM :: "QMStatus \<Rightarrow> bool" where "ActiveQM s \<longleftrightarrow> s = StatusActiveQM"
definition StandbyQM :: "QMStatus \<Rightarrow> bool" where "StandbyQM s \<longleftrightarrow> s = StatusStandbyQM"
definition ReplicaQM :: "QMStatus \<Rightarrow> bool" where "ReplicaQM s \<longleftrightarrow> s = StatusReplicaQM"
definition RecoveryQM :: "QMStatus \<Rightarrow> bool" where "RecoveryQM s \<longleftrightarrow> s = StatusRecoveryQM"

section \<open>On a host without faults\<close>

lemma fileExists_healthy [simp]: "healthy_host h \<Longrightarrow> fileExists p h = Inr (files h p \<noteq> None)"
  by (simp add: fileExists_def)

lemma clearFile_healthy:
  "healthy_host h \<Longrightarrow>
     clearFile p h = (None, if files h p = None then h else snd (os_remove p h))"
  by (simp add: clearFile_def split: bool.splits)

lemma clearFile_files:
  "healthy_host h \<Longrightarrow> files (snd (clearFile p h)) = (files h)(p := None)"
  by (auto simp: clearFile_healthy fun_eq_iff)

lemma clearFile_healthy_host [simp]: "healthy_host (snd (clearFile p h)) = healthy_host h"
  by (auto simp: clearFile_def split: sum.splits bool.splits)

lemma Clear_healthy:
  assumes "healthy_host h"
  shows "fst (Clear h) = None"
    and "files (snd (Clear h)) = (files h)(readyFile := None, readyToSyncFile := None)"
    and "healthy_host (snd (Clear h))"
proof -
  let ?h1 = "snd (clearFile readyFile h)"
  have h1: "healthy_host ?h1" using assms by simp
  have eq: "Clear h = clearFile readyToSyncFile ?h1"
    using assms by (simp add: Clear_def clearFile_healthy)
  show "fst (Clear h) = None" using h1 by (simp add: eq clearFile_healthy)
  show "files (snd (Clear h)) = (files h)(readyFile := None, readyToSyncFile := None)"
    using h1 assms by (simp add: eq clearFile_files)
  show "healthy_host (snd (Clear h))" using h1 by (simp add: eq)
qed

lemma SetReadyToSync_healthy:
  "healthy_host h \<Longrightarrow>
     SetReadyToSync h = (None, host_markers.put_once readyToSyncFile (itoa (clock h)) h)"
  by (simp add: SetReadyToSync_def host_markers.put_once_def split: bool.splits)

lemma GetReadyToSyncStartTime_healthy:
  "healthy_host h \<Longrightarrow>
     GetReadyToSyncStartTime h =
       (case files h readyToSyncFile of
          None \<Rightarrow> (False, None, None)
        | Some buf \<Rightarrow>
            (case parse_int64 buf of
               None \<Rightarrow> (True, None, Some (ReadyParse buf))
             | Some t \<Rightarrow> (True, Some t, None)))"
  by (simp add: GetReadyToSyncStartTime_def split: option.splits bool.splits)

section \<open>Properties\<close>

text \<open>
  On a host without file errors, after \<open>Clear\<close> the ready check is negative and no
  ready-to-sync time is recorded, and after a later \<open>Set\<close> the check is positive while still no
  ready-to-sync time is recorded: the two markers are independent.
\<close>

theorem ready_clear_set:
  assumes "healthy_host h"
  shows "Check (snd (Clear h)) = Inr False
    \<and> GetReadyToSyncStartTime (snd (Clear h)) = (False, None, None)
    \<and> Check (snd (Set (snd (Clear h)))) = Inr True
    \<and> GetReadyToSyncStartTime (snd (Set (snd (Clear h)))) = (False, None, None)"
proof -
  note c = Clear_healthy [OF assms]
  have ok: "healthy_host (snd (Set (snd (Clear h))))"
    using c(3) unfolding Set_def by (rule host_markers.ok_put)
  have f: "files (snd (Set (snd (Clear h)))) = (files (snd (Clear h)))(readyFile \<mapsto> ''1'')"
    using c(3) unfolding Set_def by (rule host_markers.lookup_put)
  show ?thesis
    using c ok f by (simp add: Check_def GetReadyToSyncStartTime_healthy)
qed

definition example_host :: host where
  "example_host =
     \<lparr>env = Map.empty, files = [readyFile \<mapsto> ''1'', readyToSyncFile \<mapsto> ''17''],
      faults = \<lambda>_. None, clock = 1000, hostname = Some ''mq-0'',
      exec = \<lambda>_ _. \<lparr>cmd_out = ''QMNAME(QM1) STATUS(RUNNING)'', cmd_rc = 0, cmd_err = None\<rparr>,
      cmds = [], logs = []\<rparr>"

lemma example_host_healthy [simp]: "healthy_host example_host"
  by (simp add: example_host_def healthy_host_def)

theorem ready_clear_set_witness:
  "Check example_host = Inr True \<and> Check (snd (Clear example_host)) = Inr False"
  using ready_clear_set [OF example_host_healthy]
  by (simp add: Check_def) (simp add: example_host_def)

text \<open>
  The ready-to-sync time is recorded once: \<open>SetReadyToSync\<close> stores the current time if no
  time is recorded yet, it reads back as exactly that time, and any later call, however many and
  at whatever times, leaves it unchanged.
\<close>

theorem ready_to_sync_first_time_wins:
  assumes "healthy_host h" and "files h readyToSyncFile = None"
    and "0 \<le> clock h" and "clock h < 2 ^ 63"
  shows "GetReadyToSyncStartTime (snd (SetReadyToSync h)) = (True, Some (clock h), None)
    \<and> GetReadyToSyncStartTime (snd (SetReadyToSync ((snd (SetReadyToSync h))\<lparr>clock := later\<rparr>)))
        = (True, Some (clock h), None)"
proof -
  let ?h1 = "snd (SetReadyToSync h)"
  have h1: "?h1 = snd (os_write readyToSyncFile (itoa (clock h)) h)"
    using assms by (simp add: SetReadyToSync_healthy host_markers.put_once_def)
  have ok: "healthy_host ?h1" unfolding h1 by (rule host_markers.ok_put) (rule assms)
  have f: "files ?h1 readyToSyncFile = Some (itoa (clock h))"
    unfolding h1 by (rule host_markers.put_present) (rule assms)
  let ?h2 = "?h1\<lparr>clock := later\<rparr>"
  have ok2: "healthy_host ?h2" using ok by (simp add: healthy_host_def)
  have f2: "files ?h2 readyToSyncFile = Some (itoa (clock h))" using f by simp
  have "snd (SetReadyToSync ?h2) = ?h2"
    using ok2 host_markers.put_once_keeps [OF f2] by (simp add: SetReadyToSync_healthy)
  moreover have "parse_int64 (itoa (clock h)) = Some (clock h)"
    using assms by (intro parse_itoa) auto
  ultimately show ?thesis
    using ok ok2 f f2 by (simp add: GetReadyToSyncStartTime_healthy)
qed

theorem ready_to_sync_first_time_wins_witness:
  "GetReadyToSyncStartTime (snd (SetReadyToSync (snd (Clear example_host)))) = (True, Some 1000, None)"
proof -
  have c: "clock (snd (Clear example_host)) = 1000"
    by (simp add: Clear_def clearFile_healthy example_host_def healthy_host_def)
  show ?thesis
    using ready_to_sync_first_time_wins [of "snd (Clear example_host)" 2000]
      Clear_healthy [OF example_host_healthy] c by simp
qed

text \<open>
  \<open>Status\<close> never answers that the queue manager runs as a replica: output that reports
  \<open>(REPLICA)\<close> is classified as standby, so \<open>StatusReplicaQM\<close> is unreachable.
\<close>

theorem ready_status_never_replica:
  "fst (fst (ReadyStatus name h)) \<noteq> StatusReplicaQM \<and> \<not> ReplicaQM (status_of_output out)"
  by (auto simp: ReadyStatus_def status_of_output_def ReplicaQM_def Let_def split: option.splits
      prod.splits)

end
