(* ===== verification/Probe_State.thy ===== *)
theory Probe_State
  imports Host
begin

text \<open>
  internal/probes/probestate.go: one execution of a liveness or startup probe, the messages that
  describe its outcome, and the two updates the probe programs send over the probe sockets. Times
  are nanoseconds since the Unix epoch. A message is sent only to a socket that exists; sending is
  best effort, so what is sent is returned as a list and never changes the result.
\<close>

section \<open>Types and constants\<close>

type_synonym time = int

abbreviation (input) ProbePassed :: string where "ProbePassed \<equiv> ''PASSED''"
abbreviation (input) ProbeFailed :: string where "ProbeFailed \<equiv> ''FAILED''"
abbreviation (input) ProbeIncomplete :: string where "ProbeIncomplete \<equiv> ''INCOMPLETE''"

abbreviation (input) LivenessProbe :: string where "LivenessProbe \<equiv> ''LIVENESS''"
abbreviation (input) StartupProbe :: string where "StartupProbe \<equiv> ''STARTUP''"

abbreviation (input) INFO :: int where "INFO \<equiv> 0"
abbreviation (input) ERROR :: int where "ERROR \<equiv> 1"

definition LivenessProbeSockPath :: string where
  "LivenessProbeSockPath = ''/run/liveness-probe.sock''"

definition StartupProbeSockPath :: string where
  "StartupProbeSockPath = ''/run/startup-probe.sock''"

record ProbeLoggingExecution =
  ProbeType :: string
  StartTime :: "time option"
  EndTime :: "time option"
  Status :: string
  Duration :: "int option"
  LogMessage :: string
  LogLevel :: int
  AttemptCount :: int

text \<open>The zero value of the struct.\<close>

definition zero_exec :: ProbeLoggingExecution where
  "zero_exec =
     \<lparr>ProbeType = [], StartTime = None, EndTime = None, Status = [], Duration = None,
      LogMessage = [], LogLevel = 0, AttemptCount = 0\<rparr>"

record LivenessProbeLoggingState =
  CurrentRun :: "ProbeLoggingExecution option"
  PreviousRuns :: "ProbeLoggingExecution list"

record StartupProbeLoggingState =
  StartupCurrentRun :: "ProbeLoggingExecution option"

record ProbeLoggingState =
  LivenessState :: "LivenessProbeLoggingState option"
  StartupState :: "StartupProbeLoggingState option"

definition NewProbeState :: ProbeLoggingState where
  "NewProbeState =
     \<lparr>LivenessState = Some \<lparr>CurrentRun = None, PreviousRuns = [zero_exec, zero_exec]\<rparr>,
      StartupState = Some \<lparr>StartupCurrentRun = None\<rparr>\<rparr>"

definition IsProbeLoggingEnabled :: "string \<Rightarrow> host \<Rightarrow> bool" where
  "IsProbeLoggingEnabled probeType h =
     (if probeType = LivenessProbe then os_stat LivenessProbeSockPath h = None
      else if probeType = StartupProbe then os_stat StartupProbeSockPath h = None
      else False)"

fun getProbeStatus :: "string \<Rightarrow> string" where
  "getProbeStatus ps =
     (if ps = ProbeIncomplete then ''Incomplete''
      else if ps = ProbePassed then ''Passed''
      else if ps = ProbeFailed then ''Failed''
      else ''Unknown'')"

section \<open>Sending\<close>

type_synonym sent = "(string \<times> ProbeLoggingExecution) list"

text \<open>\<open>reach p\<close> says that the socket at \<open>p\<close> accepts the connection and the write.\<close>

definition SendProbeLoggingExecution ::
    "(string \<Rightarrow> bool) \<Rightarrow> ProbeLoggingExecution \<Rightarrow> string \<Rightarrow> sent" where
  "SendProbeLoggingExecution reach pe path = (if reach path then [(path, pe)] else [])"

definition InitializeProbeLoggingExecution ::
    "(string \<Rightarrow> bool) \<Rightarrow> string \<Rightarrow> time \<Rightarrow> string \<Rightarrow> ProbeLoggingExecution \<times> sent" where
  "InitializeProbeLoggingExecution reach probeType probeStartTime probeStatus =
     (let pe = zero_exec\<lparr>ProbeType := probeType, StartTime := Some probeStartTime, Status := probeStatus\<rparr>
      in (pe,
          if probeType = LivenessProbe then SendProbeLoggingExecution reach pe LivenessProbeSockPath
          else if probeType = StartupProbe then SendProbeLoggingExecution reach pe StartupProbeSockPath
          else []))"

section \<open>Messages\<close>

definition buildLivenessProbeOutputMessage :: "string \<Rightarrow> string" where
  "buildLivenessProbeOutputMessage out =
     (let trimmed = trim_space out
      in if trimmed = [] then [] else ''Output: '' @ join '' '' (str_fields trimmed))"

definition buildLivenessProbeFailureMessage :: "string \<Rightarrow> string \<Rightarrow> string" where
  "buildLivenessProbeFailureMessage reason details =
     (if details = [] then ''Liveness Probe Failed: '' @ reason
      else ''Liveness Probe Failed: '' @ reason @ '', '' @ details)"

definition buildLivenessProbeSuccessMessage :: "string \<Rightarrow> string" where
  "buildLivenessProbeSuccessMessage details =
     (if details = [] then ''Liveness Probe Passed'' else ''Liveness Probe Passed: '' @ details)"

definition buildStartupProbeFailureMessage :: "string \<Rightarrow> string" where
  "buildStartupProbeFailureMessage reason = ''Startup Probe Failed: '' @ reason"

definition buildStartupProbeSuccessMessage :: "string \<Rightarrow> string" where
  "buildStartupProbeSuccessMessage reason = ''Startup Probe Passed: '' @ reason"

section \<open>Finishing a probe\<close>

text \<open>
  \<open>time.Time.Sub\<close> saturates at the range of \<open>time.Duration\<close> (64 bits of nanoseconds), and
  \<open>Milliseconds\<close> divides by one million.
\<close>

definition time_sub :: "time \<Rightarrow> time \<Rightarrow> int" where
  "time_sub a b = max (- (2 ^ 63)) (min (2 ^ 63 - 1) (a - b))"

definition milliseconds :: "int \<Rightarrow> int" where
  "milliseconds d = quot d 1000000"

definition logLivenessProbeMessageHelper ::
    "(string \<Rightarrow> bool) \<Rightarrow> ProbeLoggingExecution \<Rightarrow> time \<Rightarrow> string \<Rightarrow> int \<Rightarrow> string \<Rightarrow> int
       \<Rightarrow> ProbeLoggingExecution \<times> sent" where
  "logLivenessProbeMessageHelper reach pe probeEndTime status duration message level =
     (let pe1 = pe\<lparr>EndTime := Some probeEndTime, Status := status, Duration := Some duration,
                   LogMessage := message, LogLevel := level\<rparr>
      in (pe1, SendProbeLoggingExecution reach pe1 LivenessProbeSockPath))"

text \<open>\<open>None\<close> is the panic of dereferencing a nil \<open>StartTime\<close>.\<close>

definition LogLivenessProbeMessage ::
    "(string \<Rightarrow> bool) \<Rightarrow> ProbeLoggingExecution \<Rightarrow> time \<Rightarrow> bool \<Rightarrow> string \<Rightarrow> string option
       \<Rightarrow> (ProbeLoggingExecution \<times> sent) option" where
  "LogLivenessProbeMessage reach pe probeEndTime healthy out err =
     (case StartTime pe of
        None \<Rightarrow> None
      | Some st \<Rightarrow>
          let duration = milliseconds (time_sub probeEndTime st);
              probeDetails = buildLivenessProbeOutputMessage out
          in Some
              (case err of
                 Some e \<Rightarrow>
                   logLivenessProbeMessageHelper reach pe probeEndTime ProbeFailed duration
                     (buildLivenessProbeFailureMessage e probeDetails) ERROR
               | None \<Rightarrow>
                   if \<not> healthy then
                     logLivenessProbeMessageHelper reach pe probeEndTime ProbeFailed duration
                       (buildLivenessProbeFailureMessage ''QueueManager is not healthy'' probeDetails) ERROR
                   else
                     logLivenessProbeMessageHelper reach pe probeEndTime ProbePassed duration
                       (buildLivenessProbeSuccessMessage probeDetails) INFO))"

definition logStartupProbeMessageHelper ::
    "(string \<Rightarrow> bool) \<Rightarrow> ProbeLoggingExecution \<Rightarrow> string \<Rightarrow> string \<Rightarrow> int
       \<Rightarrow> ProbeLoggingExecution \<times> sent" where
  "logStartupProbeMessageHelper reach pe status message level =
     (let pe1 = pe\<lparr>Status := status, LogMessage := message, LogLevel := level\<rparr>
      in (pe1, SendProbeLoggingExecution reach pe1 StartupProbeSockPath))"

definition LogStartupProbeMessage ::
    "(string \<Rightarrow> bool) \<Rightarrow> ProbeLoggingExecution \<Rightarrow> bool \<Rightarrow> string option
       \<Rightarrow> ProbeLoggingExecution \<times> sent" where
  "LogStartupProbeMessage reach pe started err =
     (case err of
        Some e \<Rightarrow>
          logStartupProbeMessageHelper reach pe ProbeFailed (buildStartupProbeFailureMessage e) ERROR
      | None \<Rightarrow>
          if \<not> started then
            logStartupProbeMessageHelper reach pe ProbeFailed
              (buildStartupProbeFailureMessage ''QueueManager is not started'') ERROR
          else
            logStartupProbeMessageHelper reach pe ProbePassed
              (buildStartupProbeSuccessMessage ''QueueManager started successfully'') INFO)"

lemmas probe_message_defs =
  LogLivenessProbeMessage_def logLivenessProbeMessageHelper_def LogStartupProbeMessage_def
  logStartupProbeMessageHelper_def InitializeProbeLoggingExecution_def SendProbeLoggingExecution_def

section \<open>Lemmas\<close>

lemma probe_status_distinct [simp]:
  "ProbePassed \<noteq> ProbeFailed" "ProbePassed \<noteq> ProbeIncomplete" "ProbeFailed \<noteq> ProbeIncomplete"
  by simp_all

lemma output_message_one_line: "newline \<notin> set (buildLivenessProbeOutputMessage out)"
proof -
  have "newline \<notin> set (join '' '' (str_fields (trim_space out)))"
    using set_join [of "'' ''" "str_fields (trim_space out)"] str_fields_no_newline by fastforce
  then show ?thesis
    by (simp add: buildLivenessProbeOutputMessage_def Let_def)
qed

lemma milliseconds_nonneg: "0 \<le> d \<Longrightarrow> 0 \<le> milliseconds d"
  by (simp add: milliseconds_def quot_nonneg pos_imp_zdiv_nonneg_iff)

lemma milliseconds_sub:
  "b \<le> a \<Longrightarrow> a - b < 2 ^ 63 \<Longrightarrow> milliseconds (time_sub a b) = (a - b) div 1000000"
  by (simp add: milliseconds_def time_sub_def quot_nonneg max_def)

lemma liveness_update_fields:
  assumes "StartTime pe = Some st"
    and "LogLivenessProbeMessage reach pe te healthy out err = Some (pe', snt)"
  shows "Status pe' = (if err = None \<and> healthy then ProbePassed else ProbeFailed)"
    and "LogLevel pe' = (if err = None \<and> healthy then INFO else ERROR)"
    and "Duration pe' = Some (milliseconds (time_sub te st))"
    and "EndTime pe' = Some te" and "StartTime pe' = Some st"
    and "ProbeType pe' = ProbeType pe" and "AttemptCount pe' = AttemptCount pe"
    and "snt = (if reach LivenessProbeSockPath then [(LivenessProbeSockPath, pe')] else [])"
  using assms by (auto simp: probe_message_defs Let_def split: option.splits if_splits)

lemma liveness_message_one_line:
  assumes "StartTime pe = Some st"
    and "LogLivenessProbeMessage reach pe te healthy out err = Some (pe', snt)"
    and "\<And>e. err = Some e \<Longrightarrow> newline \<notin> set e"
  shows "newline \<notin> set (LogMessage pe')"
  using assms output_message_one_line [of out]
  by (auto simp: probe_message_defs Let_def buildLivenessProbeFailureMessage_def
      buildLivenessProbeSuccessMessage_def split: option.splits if_splits)

lemma startup_update_fields:
  assumes "LogStartupProbeMessage reach pe started err = (pe', snt)"
  shows "Status pe' = (if err = None \<and> started then ProbePassed else ProbeFailed)"
    and "LogLevel pe' = (if err = None \<and> started then INFO else ERROR)"
    and "StartTime pe' = StartTime pe" and "ProbeType pe' = ProbeType pe"
    and "snt = (if reach StartupProbeSockPath then [(StartupProbeSockPath, pe')] else [])"
  using assms by (auto simp: probe_message_defs Let_def split: option.splits if_splits)

end
