(* ===== verification/Probe_Socket.thy ===== *)
theory Probe_Socket
  imports Probe_State
begin

text \<open>
  internal/probes/probesocket.go: the listener of runmqserver that receives the updates of the
  probe programs, keeps the current run and two previous runs of the liveness probe and the
  latest state of the startup probe, and logs outcomes without repeating itself. Decoding a line
  of JSON is a parameter: it fails, or yields the JSON null, or an execution.
\<close>

section \<open>State\<close>

record ProbeLoggingSocket =
  lastLog :: "string \<rightharpoonup> string"
  sockets :: "string list"
  probeLoggingState :: ProbeLoggingState
  emitted :: "(log_level \<times> string) list"

definition NewProbeLoggingSocket :: "ProbeLoggingState \<Rightarrow> ProbeLoggingSocket" where
  "NewProbeLoggingSocket probeState =
     \<lparr>lastLog = Map.empty, sockets = [LivenessProbeSockPath, StartupProbeSockPath],
      probeLoggingState = probeState, emitted = []\<rparr>"

definition getLogLevel :: "int \<Rightarrow> string" where
  "getLogLevel l = (if l = ERROR then ''ERROR'' else if l = INFO then ''INFO'' else ''INFO'')"

definition getProbeType :: "string \<Rightarrow> string" where
  "getProbeType p =
     (if p = LivenessProbe then ''LIVENESS'' else if p = StartupProbe then ''STARTUP'' else [])"

text \<open>Indexing a Go map of strings gives the empty text for an absent key.\<close>

definition last_on :: "ProbeLoggingSocket \<Rightarrow> string \<Rightarrow> string" where
  "last_on ps path = (case lastLog ps path of None \<Rightarrow> [] | Some m \<Rightarrow> m)"

section \<open>Deduplicated logging\<close>

definition emit :: "log_level \<Rightarrow> string \<Rightarrow> ProbeLoggingSocket \<Rightarrow> ProbeLoggingSocket" where
  "emit l m ps = ps\<lparr>emitted := emitted ps @ [(l, m)]\<rparr>"

definition startupProbeDedupLogHelper ::
    "string \<Rightarrow> string \<Rightarrow> string \<Rightarrow> ProbeLoggingSocket \<Rightarrow> ProbeLoggingSocket" where
  "startupProbeDedupLogHelper logLevel path logMessage ps =
     (if logLevel = getLogLevel ERROR then ps
      else if last_on ps path = logMessage then ps
      else emit InfoL logMessage (ps\<lparr>lastLog := (lastLog ps)(path \<mapsto> logMessage)\<rparr>))"

definition livenessProbeDedupLogHelper ::
    "string \<Rightarrow> string \<Rightarrow> string \<Rightarrow> ProbeLoggingSocket \<Rightarrow> ProbeLoggingSocket" where
  "livenessProbeDedupLogHelper logLevel path logMessage ps =
     (if logLevel = getLogLevel INFO \<and> last_on ps path = logMessage then ps
      else emit (if logLevel = getLogLevel ERROR then ErrorL else InfoL) logMessage
             (ps\<lparr>lastLog := (lastLog ps)(path \<mapsto> logMessage)\<rparr>))"

definition dedupLog ::
    "string \<Rightarrow> string \<Rightarrow> string \<Rightarrow> string \<Rightarrow> ProbeLoggingSocket \<Rightarrow> ProbeLoggingSocket" where
  "dedupLog path logLevel logMessage probeType ps =
     (if probeType = getProbeType StartupProbe then
        startupProbeDedupLogHelper logLevel path logMessage ps
      else if probeType = getProbeType LivenessProbe then
        livenessProbeDedupLogHelper logLevel path logMessage ps
      else ps)"

section \<open>Liveness events\<close>

definition set_liveness :: "LivenessProbeLoggingState \<Rightarrow> ProbeLoggingSocket \<Rightarrow> ProbeLoggingSocket" where
  "set_liveness st ps =
     ps\<lparr>probeLoggingState := (probeLoggingState ps)\<lparr>LivenessState := Some st\<rparr>\<rparr>"

text \<open>
  An unfinished run that is moved to the history gets the time elapsed so far as its duration.
  The event is a pointer, so it may be nil; \<open>now\<close> is the time of \<open>time.Since\<close>.
\<close>

definition freeze_run :: "time \<Rightarrow> ProbeLoggingExecution \<Rightarrow> ProbeLoggingExecution" where
  "freeze_run now r =
     (case StartTime r of
        None \<Rightarrow> r
      | Some st \<Rightarrow>
          if Status r = ProbeIncomplete \<and> Duration r = None
          then r\<lparr>Duration := Some (milliseconds (time_sub now st))\<rparr> else r)"

definition finish_run :: "ProbeLoggingExecution \<Rightarrow> ProbeLoggingExecution \<Rightarrow> ProbeLoggingExecution" where
  "finish_run r e =
     r\<lparr>EndTime := EndTime e, Status := Status e, Duration := Duration e,
       LogMessage := LogMessage e, LogLevel := LogLevel e\<rparr>"

definition handleLivenessProbe ::
    "time \<Rightarrow> ProbeLoggingExecution option \<Rightarrow> string \<Rightarrow> ProbeLoggingSocket \<Rightarrow> ProbeLoggingSocket" where
  "handleLivenessProbe now pe path ps =
     (case pe of
        None \<Rightarrow> ps
      | Some e \<Rightarrow>
          (case LivenessState (probeLoggingState ps) of
             None \<Rightarrow> ps
           | Some st \<Rightarrow>
               if Status e = ProbeIncomplete then
                 (let st1 =
                    (case CurrentRun st of
                       None \<Rightarrow> st
                     | Some cur \<Rightarrow>
                         (let cur1 = freeze_run now cur;
                              prev1 = (PreviousRuns st)[1 := PreviousRuns st ! 0];
                              prev2 = prev1[0 := cur1]
                          in st\<lparr>PreviousRuns := prev2\<rparr>))
                  in set_liveness (st1\<lparr>CurrentRun := Some e\<rparr>) ps)
               else if Status e = ProbeFailed \<or> Status e = ProbePassed then
                 (let cur = (case CurrentRun st of None \<Rightarrow> e | Some r \<Rightarrow> finish_run r e)
                  in dedupLog path (getLogLevel (LogLevel cur)) (LogMessage cur)
                       (getProbeType (ProbeType cur))
                       (set_liveness (st\<lparr>CurrentRun := Some cur\<rparr>) ps))
               else ps))"

section \<open>Startup events\<close>

definition set_startup :: "StartupProbeLoggingState \<Rightarrow> ProbeLoggingSocket \<Rightarrow> ProbeLoggingSocket" where
  "set_startup st ps =
     ps\<lparr>probeLoggingState := (probeLoggingState ps)\<lparr>StartupState := Some st\<rparr>\<rparr>"

definition handleStartupProbe ::
    "ProbeLoggingExecution option \<Rightarrow> string \<Rightarrow> ProbeLoggingSocket \<Rightarrow> ProbeLoggingSocket" where
  "handleStartupProbe pe path ps =
     (case pe of
        None \<Rightarrow> ps
      | Some e \<Rightarrow>
          (case StartupState (probeLoggingState ps) of
             None \<Rightarrow> ps
           | Some st \<Rightarrow>
               if Status e = ProbeIncomplete then
                 (let attemptCount =
                    (case StartupCurrentRun st of
                       None \<Rightarrow> 1
                     | Some cur \<Rightarrow> wrap64 (AttemptCount cur + 1))
                  in set_startup (st\<lparr>StartupCurrentRun := Some (e\<lparr>AttemptCount := attemptCount\<rparr>)\<rparr>) ps)
               else if Status e = ProbeFailed \<or> Status e = ProbePassed then
                 (let e1 =
                    (case StartupCurrentRun st of
                       None \<Rightarrow> e
                     | Some cur \<Rightarrow> e\<lparr>AttemptCount := AttemptCount cur\<rparr>)
                  in dedupLog path (getLogLevel (LogLevel e1)) (LogMessage e1)
                       (getProbeType (ProbeType e1))
                       (set_startup (st\<lparr>StartupCurrentRun := Some e1\<rparr>) ps))
               else ps))"

section \<open>Connections\<close>

datatype json_result = Malformed | JsonNull | Decoded ProbeLoggingExecution

datatype 's outcome = Ran 's | NilPanic 's

text \<open>
  The loop over the lines of one connection, each with the time it is handled. The decoded
  pointer is dereferenced for its type before the handlers' own nil checks, so a line that decodes
  to null ends in a panic.
\<close>

fun handleConnection ::
    "(string \<Rightarrow> json_result) \<Rightarrow> string \<Rightarrow> (time \<times> string) list \<Rightarrow> ProbeLoggingSocket
       \<Rightarrow> ProbeLoggingSocket outcome" where
  "handleConnection unmarshal path [] ps = Ran ps"
| "handleConnection unmarshal path ((now, logLine) # rest) ps =
     (case unmarshal logLine of
        Malformed \<Rightarrow> Ran ps
      | JsonNull \<Rightarrow> NilPanic ps
      | Decoded e \<Rightarrow>
          handleConnection unmarshal path rest
            (if ProbeType e = LivenessProbe then handleLivenessProbe now (Some e) path ps
             else if ProbeType e = StartupProbe then handleStartupProbe (Some e) path ps
             else ps))"

fun_cases handle_connection_ran: "handleConnection unmarshal path ((now, logLine) # rest) ps = Ran ps'"

section \<open>Frame facts\<close>

lemma dedupLog_state [simp]: "probeLoggingState (dedupLog path l m t ps) = probeLoggingState ps"
  by (simp add: dedupLog_def startupProbeDedupLogHelper_def livenessProbeDedupLogHelper_def emit_def)

lemma set_liveness_simps [simp]:
  "LivenessState (probeLoggingState (set_liveness st ps)) = Some st"
  "StartupState (probeLoggingState (set_liveness st ps)) = StartupState (probeLoggingState ps)"
  "lastLog (set_liveness st ps) = lastLog ps" "emitted (set_liveness st ps) = emitted ps"
  by (simp_all add: set_liveness_def)

lemma set_startup_simps [simp]:
  "StartupState (probeLoggingState (set_startup st ps)) = Some st"
  "LivenessState (probeLoggingState (set_startup st ps)) = LivenessState (probeLoggingState ps)"
  "lastLog (set_startup st ps) = lastLog ps" "emitted (set_startup st ps) = emitted ps"
  by (simp_all add: set_startup_def)

lemma last_on_set [simp]:
  "last_on (set_liveness lst ps) = last_on ps" "last_on (set_startup sst ps) = last_on ps"
  by (simp_all add: last_on_def fun_eq_iff)

lemma getLogLevel_simps [simp]:
  "getLogLevel 1 = ''ERROR''" "getLogLevel 0 = ''INFO''"
  by (simp_all add: getLogLevel_def)

lemma getProbeType_simps [simp]:
  "getProbeType LivenessProbe = ''LIVENESS''" "getProbeType StartupProbe = ''STARTUP''"
  by (simp_all add: getProbeType_def)

lemma handleLivenessProbe_startup [simp]:
  "StartupState (probeLoggingState (handleLivenessProbe now pe path ps))
     = StartupState (probeLoggingState ps)"
  by (simp add: handleLivenessProbe_def Let_def split: option.splits)

lemma handleStartupProbe_liveness [simp]:
  "LivenessState (probeLoggingState (handleStartupProbe pe path ps))
     = LivenessState (probeLoggingState ps)"
  by (simp add: handleStartupProbe_def Let_def split: option.splits)

section \<open>Liveness history\<close>

text \<open>
  The specification: the unbounded list of all runs, newest first. The listener's state is the
  newest run and the two before it, with zero values where there are fewer.
\<close>

fun history_step :: "ProbeLoggingExecution list \<Rightarrow> time \<times> ProbeLoggingExecution
    \<Rightarrow> ProbeLoggingExecution list" where
  "history_step rs (now, e) =
     (if Status e = ProbeIncomplete then
        (case rs of [] \<Rightarrow> [e] | r # old \<Rightarrow> e # freeze_run now r # old)
      else if Status e = ProbeFailed \<or> Status e = ProbePassed then
        (case rs of [] \<Rightarrow> [e] | r # old \<Rightarrow> finish_run r e # old)
      else rs)"

definition history_view :: "ProbeLoggingExecution list \<Rightarrow> LivenessProbeLoggingState" where
  "history_view rs =
     \<lparr>CurrentRun = (case rs of [] \<Rightarrow> None | r # _ \<Rightarrow> Some r),
      PreviousRuns = take 2 (tl rs @ [zero_exec, zero_exec])\<rparr>"

definition liveness_step :: "string \<Rightarrow> ProbeLoggingSocket \<Rightarrow> time \<times> ProbeLoggingExecution
    \<Rightarrow> ProbeLoggingSocket" where
  "liveness_step path ps ev = handleLivenessProbe (fst ev) (Some (snd ev)) path ps"

lemma history_view_step:
  assumes "LivenessState (probeLoggingState ps) = Some (history_view rs)"
  shows "LivenessState (probeLoggingState (liveness_step path ps ev))
           = Some (history_view (history_step rs ev))"
  using assms
  by (cases ev; cases rs; cases "tl rs"; cases "tl (tl rs)")
     (simp_all add: liveness_step_def handleLivenessProbe_def history_view_def Let_def
       split: option.splits)

lemma history_view_start [simp]:
  "LivenessState (probeLoggingState (NewProbeLoggingSocket NewProbeState)) = Some (history_view [])"
  by (simp add: NewProbeLoggingSocket_def NewProbeState_def history_view_def)

text \<open>
  The pair of the unbounded history and the listener is a handler whose invariant is that the
  listener shows the history; every event keeps it.
\<close>

definition shows_history :: "ProbeLoggingExecution list \<times> ProbeLoggingSocket \<Rightarrow> bool" where
  "shows_history p \<longleftrightarrow> LivenessState (probeLoggingState (snd p)) = Some (history_view (fst p))"

definition both_step :: "string \<Rightarrow> ProbeLoggingExecution list \<times> ProbeLoggingSocket
    \<Rightarrow> time \<times> ProbeLoggingExecution \<Rightarrow> ProbeLoggingExecution list \<times> ProbeLoggingSocket" where
  "both_step path p ev = (history_step (fst p) ev, liveness_step path (snd p) ev)"

interpretation liveness_history: event_handler "both_step path"
  "([], NewProbeLoggingSocket NewProbeState)" shows_history for path
  by unfold_locales (simp_all add: shows_history_def both_step_def history_view_step)

interpretation history_part: refined_handler "both_step path"
  "([], NewProbeLoggingSocket NewProbeState)" shows_history history_step fst for path
  by unfold_locales (simp add: both_step_def)

interpretation listener_part: refined_handler "both_step path"
  "([], NewProbeLoggingSocket NewProbeState)" shows_history "liveness_step path" snd for path
  by unfold_locales (simp add: both_step_def)

section \<open>Startup attempts\<close>

definition startup_step :: "string \<Rightarrow> ProbeLoggingSocket \<Rightarrow> ProbeLoggingExecution \<Rightarrow> ProbeLoggingSocket" where
  "startup_step path ps e =
     (if ProbeType e = StartupProbe then handleStartupProbe (Some e) path ps else ps)"

definition attempts :: "ProbeLoggingSocket \<Rightarrow> int" where
  "attempts ps =
     (case StartupState (probeLoggingState ps) of
        None \<Rightarrow> 0
      | Some st \<Rightarrow> (case StartupCurrentRun st of None \<Rightarrow> 0 | Some r \<Rightarrow> AttemptCount r))"

definition started_attempts :: "ProbeLoggingExecution list \<Rightarrow> nat" where
  "started_attempts es =
     length (filter (\<lambda>e. ProbeType e = StartupProbe \<and> Status e = ProbeIncomplete) es)"

lemma attempts_dedupLog [simp]: "attempts (dedupLog path l m t ps) = attempts ps"
  by (simp add: attempts_def)

lemma startup_step_present:
  "StartupState (probeLoggingState ps) \<noteq> None \<Longrightarrow>
     StartupState (probeLoggingState (startup_step path ps e)) \<noteq> None"
  by (auto simp: startup_step_def handleStartupProbe_def Let_def split: option.splits)

lemma attempts_step:
  assumes "StartupState (probeLoggingState ps) \<noteq> None" and "AttemptCount e = 0"
  shows "attempts (startup_step path ps e) =
           (if ProbeType e = StartupProbe \<and> Status e = ProbeIncomplete
            then wrap64 (attempts ps + 1) else attempts ps)"
  using assms
  by (auto simp: startup_step_def handleStartupProbe_def Let_def attempts_def wrap64_def
      split: option.splits)

lemma attempts_foldl:
  assumes "StartupState (probeLoggingState ps) \<noteq> None" and "\<forall>e \<in> set es. AttemptCount e = 0"
    and "attempts ps = int k" and "k + started_attempts es < 2 ^ 63"
  shows "attempts (foldl (startup_step path) ps es) = int (k + started_attempts es)"
  using assms
proof (induction es arbitrary: ps k)
  case Nil
  then show ?case by (simp add: started_attempts_def)
next
  case (Cons e es)
  let ?k = "if ProbeType e = StartupProbe \<and> Status e = ProbeIncomplete then Suc k else k"
  have split: "k + started_attempts (e # es) = ?k + started_attempts es"
    by (simp add: started_attempts_def)
  have "attempts (startup_step path ps e) = int ?k"
  proof (cases "ProbeType e = StartupProbe \<and> Status e = ProbeIncomplete")
    case True
    then have "k + 1 < 2 ^ 63" using Cons.prems(4) by (simp add: started_attempts_def)
    then have "wrap64 (int k + 1) = int k + 1" by (intro wrap64_id) auto
    with True Cons.prems show ?thesis by (simp add: attempts_step)
  next
    case False
    with Cons.prems show ?thesis by (auto simp add: attempts_step)
  qed
  moreover have "StartupState (probeLoggingState (startup_step path ps e)) \<noteq> None"
    by (rule startup_step_present) (rule Cons.prems)
  ultimately have "attempts (foldl (startup_step path) (startup_step path ps e) es)
      = int (?k + started_attempts es)"
    using Cons.prems(2,4) split by (intro Cons.IH) auto
  then show ?case using split by simp
qed

section \<open>What is logged\<close>

text \<open>
  Startup: only INFO lines, and no two adjacent ones are equal. The invariant ties the last line
  to the entry of the map for the socket.
\<close>

definition startup_log_inv :: "string \<Rightarrow> ProbeLoggingSocket \<Rightarrow> bool" where
  "startup_log_inv path ps \<longleftrightarrow>
     distinct_adj (map snd (emitted ps)) \<and> (\<forall>x \<in> set (emitted ps). fst x = InfoL)
     \<and> (emitted ps \<noteq> [] \<longrightarrow> last_on ps path = snd (last (emitted ps)))"

lemma last_on_update [simp]: "last_on (ps\<lparr>lastLog := (lastLog ps)(path \<mapsto> m)\<rparr>) path = m"
  by (simp add: last_on_def)

lemma emit_simps [simp]:
  "emitted (emit l m ps) = emitted ps @ [(l, m)]" "last_on (emit l m ps) = last_on ps"
  "probeLoggingState (emit l m ps) = probeLoggingState ps"
  by (simp_all add: emit_def last_on_def fun_eq_iff)

lemma startup_helper_inv:
  "startup_log_inv path ps \<Longrightarrow> startup_log_inv path (startupProbeDedupLogHelper l path m ps)"
  by (auto simp: startup_log_inv_def startupProbeDedupLogHelper_def distinct_adj_append_iff
      last_map)

lemma startup_log_inv_set [simp]: "startup_log_inv path (set_startup st ps) = startup_log_inv path ps"
  by (simp add: startup_log_inv_def)

lemma startup_step_log_inv [inv_intros]:
  assumes "startup_log_inv path ps"
  shows "startup_log_inv path (startup_step path ps e)"
  using assms
  by (auto simp: startup_step_def handleStartupProbe_def Let_def dedupLog_def
      intro!: startup_helper_inv split: option.splits)

interpretation startup_log: event_handler "startup_step path"
  "NewProbeLoggingSocket NewProbeState" "startup_log_inv path" for path
proof unfold_locales
  show "startup_log_inv path (NewProbeLoggingSocket NewProbeState)"
    by (simp add: startup_log_inv_def NewProbeLoggingSocket_def)
qed (rule startup_step_log_inv)

text \<open>
  Liveness: an INFO line never repeats the line before it, and every failed run is logged. The
  current run is always a liveness run, since the connection handler dispatches on the type.
\<close>

definition fresh_line :: "log_level \<times> string \<Rightarrow> log_level \<times> string \<Rightarrow> bool" where
  "fresh_line a b \<longleftrightarrow> \<not> (fst b = InfoL \<and> snd a = snd b)"

definition typed_liveness_step :: "string \<Rightarrow> ProbeLoggingSocket \<Rightarrow> time \<times> ProbeLoggingExecution
    \<Rightarrow> ProbeLoggingSocket" where
  "typed_liveness_step path ps ev =
     (if ProbeType (snd ev) = LivenessProbe then liveness_step path ps ev else ps)"

definition liveness_typed :: "ProbeLoggingSocket \<Rightarrow> bool" where
  "liveness_typed ps =
     (case LivenessState (probeLoggingState ps) of
        None \<Rightarrow> False
      | Some st \<Rightarrow> (case CurrentRun st of None \<Rightarrow> True | Some r \<Rightarrow> ProbeType r = LivenessProbe))"

definition liveness_log_inv :: "string \<Rightarrow> ProbeLoggingSocket \<Rightarrow> bool" where
  "liveness_log_inv path ps \<longleftrightarrow>
     liveness_typed ps \<and> successively fresh_line (emitted ps)
     \<and> (emitted ps \<noteq> [] \<longrightarrow> last_on ps path = snd (last (emitted ps)))"

lemma finish_run_simps [simp]:
  "ProbeType (finish_run r e) = ProbeType r" "LogLevel (finish_run r e) = LogLevel e"
  "LogMessage (finish_run r e) = LogMessage e" "Status (finish_run r e) = Status e"
  "StartTime (finish_run r e) = StartTime r" "Duration (finish_run r e) = Duration e"
  by (simp_all add: finish_run_def)

lemma liveness_typed_frame [simp]:
  "liveness_typed (emit l m ps) = liveness_typed ps"
  "liveness_typed (ps\<lparr>lastLog := ll\<rparr>) = liveness_typed ps"
  by (simp_all add: liveness_typed_def)

lemma liveness_helper_inv:
  "liveness_log_inv path ps \<Longrightarrow> liveness_log_inv path (livenessProbeDedupLogHelper (getLogLevel n) path m ps)"
  by (auto simp: liveness_log_inv_def livenessProbeDedupLogHelper_def successively_append_iff
      fresh_line_def getLogLevel_def)

lemma liveness_log_inv_set:
  "liveness_log_inv path ps \<Longrightarrow>
     (\<And>r. CurrentRun st = Some r \<Longrightarrow> ProbeType r = LivenessProbe) \<Longrightarrow>
     liveness_log_inv path (set_liveness st ps)"
  by (auto simp: liveness_log_inv_def liveness_typed_def split: option.splits)

lemma finished_type:
  "liveness_typed ps \<Longrightarrow> LivenessState (probeLoggingState ps) = Some st \<Longrightarrow>
     ProbeType e = LivenessProbe \<Longrightarrow>
     ProbeType (case CurrentRun st of None \<Rightarrow> e | Some r \<Rightarrow> finish_run r e) = LivenessProbe"
  by (simp add: liveness_typed_def split: option.splits)

lemma typed_liveness_step_inv [inv_intros]:
  assumes inv: "liveness_log_inv path ps"
  shows "liveness_log_inv path (typed_liveness_step path ps ev)"
proof (cases "ProbeType (snd ev) = LivenessProbe")
  case True
  have typed: "liveness_typed ps" using inv by (simp add: liveness_log_inv_def)
  then obtain st where st: "LivenessState (probeLoggingState ps) = Some st"
    by (auto simp: liveness_typed_def split: option.splits)
  note ft = finished_type [OF typed st True]
  show ?thesis
    using True inv
    by (auto simp: typed_liveness_step_def liveness_step_def handleLivenessProbe_def st Let_def
        dedupLog_def ft intro!: liveness_helper_inv liveness_log_inv_set)
next
  case False
  with inv show ?thesis by (simp add: typed_liveness_step_def)
qed

interpretation liveness_log: event_handler "typed_liveness_step path"
  "NewProbeLoggingSocket NewProbeState" "liveness_log_inv path" for path
proof unfold_locales
  show "liveness_log_inv path (NewProbeLoggingSocket NewProbeState)"
    by (simp add: liveness_log_inv_def liveness_typed_def NewProbeLoggingSocket_def NewProbeState_def)
qed (rule typed_liveness_step_inv)

definition failed_runs :: "(time \<times> ProbeLoggingExecution) list \<Rightarrow> nat" where
  "failed_runs evs =
     length (filter (\<lambda>(_, e). ProbeType e = LivenessProbe \<and> LogLevel e = ERROR
                       \<and> (Status e = ProbeFailed \<or> Status e = ProbePassed)) evs)"

definition error_lines :: "ProbeLoggingSocket \<Rightarrow> nat" where
  "error_lines ps = length (filter (\<lambda>x. fst x = ErrorL) (emitted ps))"

lemma error_lines_step:
  assumes inv: "liveness_log_inv path ps"
  shows "error_lines (typed_liveness_step path ps ev) = error_lines ps + failed_runs [ev]"
proof (cases "ProbeType (snd ev) = LivenessProbe")
  case True
  have typed: "liveness_typed ps" using inv by (simp add: liveness_log_inv_def)
  then obtain st where st: "LivenessState (probeLoggingState ps) = Some st"
    by (auto simp: liveness_typed_def split: option.splits)
  define cur where
    "cur = (case CurrentRun st of None \<Rightarrow> snd ev | Some r \<Rightarrow> finish_run r (snd ev))"
  have ft: "ProbeType cur = LivenessProbe"
    unfolding cur_def by (rule finished_type [OF typed st True])
  have lv: "LogLevel cur = LogLevel (snd ev)"
    by (simp add: cur_def split: option.splits)
  show ?thesis
    using True
    by (auto simp: typed_liveness_step_def liveness_step_def handleLivenessProbe_def st Let_def
         dedupLog_def cur_def [symmetric] ft lv livenessProbeDedupLogHelper_def error_lines_def
         failed_runs_def getLogLevel_def split_beta)
next
  case False
  then show ?thesis
    by (cases ev) (simp add: typed_liveness_step_def failed_runs_def)
qed

lemma error_lines_foldl:
  "liveness_log_inv path ps \<Longrightarrow>
     error_lines (foldl (typed_liveness_step path) ps evs) = error_lines ps + failed_runs evs"
proof (induction evs arbitrary: ps)
  case Nil
  then show ?case by (simp add: failed_runs_def)
next
  case (Cons ev evs)
  have "failed_runs (ev # evs) = failed_runs [ev] + failed_runs evs"
    by (simp add: failed_runs_def)
  then show ?case
    using Cons by (simp add: typed_liveness_step_inv error_lines_step)
qed

section \<open>Properties\<close>

text \<open>
  C9. The listener keeps a faithful history: after any sequence of liveness events, at whatever
  times, its current run and two previous runs are the three newest entries of the unbounded
  history, where an unfinished run is archived with the time it had taken so far and a finished
  event completes the current run.
\<close>

theorem liveness_history_refined:
  "LivenessState (probeLoggingState
       (foldl (liveness_step path) (NewProbeLoggingSocket NewProbeState) evs))
     = Some (history_view (foldl history_step [] evs))"
  using liveness_history.invar_run [of path evs] history_part.abs_run [of path evs]
    listener_part.abs_run [of path evs]
  by (simp add: shows_history_def)

text \<open>
  The attempt count of the startup probe is the number of attempts that have started (events
  with status INCOMPLETE), whatever outcomes arrive in between, as long as it fits in an int.
\<close>

theorem startup_attempts_counted:
  assumes "\<forall>e \<in> set es. AttemptCount e = 0" and "started_attempts es < 2 ^ 63"
  shows "attempts (foldl (startup_step path) (NewProbeLoggingSocket NewProbeState) es)
           = int (started_attempts es)"
  using assms attempts_foldl [of "NewProbeLoggingSocket NewProbeState" es 0 path]
  by (simp add: attempts_def NewProbeLoggingSocket_def NewProbeState_def)

definition startup_event :: "string \<Rightarrow> ProbeLoggingExecution" where
  "startup_event status = zero_exec\<lparr>ProbeType := StartupProbe, StartTime := Some 5, Status := status\<rparr>"

theorem startup_attempts_counted_witness:
  "attempts (foldl (startup_step StartupProbeSockPath) (NewProbeLoggingSocket NewProbeState)
     [startup_event ProbeIncomplete, startup_event ProbeFailed, startup_event ProbeIncomplete,
      startup_event ProbePassed]) = 2"
  using startup_attempts_counted
    [of "[startup_event ProbeIncomplete, startup_event ProbeFailed, startup_event ProbeIncomplete,
      startup_event ProbePassed]" StartupProbeSockPath]
  by (simp add: startup_event_def started_attempts_def zero_exec_def)

text \<open>
  Startup outcomes are logged only at INFO level and never twice in a row: over any sequence
  of startup events on a socket, no failure is logged and adjacent logged lines differ.
\<close>

theorem startup_log_no_repeat:
  "distinct_adj (map snd (emitted
       (foldl (startup_step path) (NewProbeLoggingSocket NewProbeState) es)))
   \<and> fst ` set (emitted (foldl (startup_step path) (NewProbeLoggingSocket NewProbeState) es)) \<subseteq> {InfoL}"
  using startup_log.invar_run [of path es] by (auto simp: startup_log_inv_def)


text \<open>
  The connection handler ends in a nil dereference exactly when a line that decodes to the
  JSON null is reached, that is, before any line that does not decode: the nil checks of the two
  handlers come too late.
\<close>

theorem connection_panics_iff_null:
  "(\<exists>ps'. handleConnection unmarshal path lines ps = NilPanic ps')
     \<longleftrightarrow> JsonNull \<in> set (takeWhile (\<lambda>r. r \<noteq> Malformed) (map (\<lambda>(_, l). unmarshal l) lines))"
  by (induction unmarshal path lines ps rule: handleConnection.induct)
     (auto split: json_result.splits)

end
