(* ===== verification/Probe_Programs.thy ===== *)
theory Probe_Programs
  imports Probe_Socket Ready Paths
begin

text \<open>
  The three probe programs (cmd/chkmqhealthy, cmd/chkmqready, cmd/chkmqstarted) and the summary of
  the probes' results (internal/probes/probeutils.go). The host's clock counts seconds of Unix
  time; the times with which a probe reports its start and its end are arguments. The text the
  programs print is not part of the model; their exit codes and what they send are.
\<close>

section \<open>cmd/chkmqhealthy\<close>

definition healthy_strings :: "string list" where
  "healthy_strings =
     [''(RUNNING)'', ''(RUNNING AS STANDBY)'', ''(RECOVERY GROUP LEADER)'', ''(STARTING)'', ''(REPLICA)'']"

definition matches_any :: "string \<Rightarrow> string list \<Rightarrow> bool" where
  "matches_any out ss \<longleftrightarrow> list_ex (\<lambda>s. contains out s) ss"

text \<open>Whether the queue manager is healthy, the output, and an error.\<close>

definition queueManagerHealthy :: "host \<Rightarrow> (bool \<times> string \<times> string option) \<times> host" where
  "queueManagerHealthy h =
     (case GetQueueManagerName h of
        Inl e \<Rightarrow> ((False, [], Some e), h)
      | Inr qm \<Rightarrow>
          (case run_cmd [''dspmq'', ''-n'', ''-m'', qm] h of
             (r, h1) \<Rightarrow>
               (case cmd_err r of
                  Some e \<Rightarrow> ((False, [], Some e), h1)
                | None \<Rightarrow> ((matches_any (cmd_out r) healthy_strings, cmd_out r, None), h1))))"

definition exit_code :: "bool \<Rightarrow> string option \<Rightarrow> int" where
  "exit_code good err = (if err \<noteq> None then 2 else if \<not> good then 1 else 0)"

text \<open>
  The exit code, what was sent to the probe sockets, and the host. A panic would end the program
  with code 2.
\<close>

definition chkmqhealthy ::
    "(string \<Rightarrow> bool) \<Rightarrow> time \<Rightarrow> time \<Rightarrow> host \<Rightarrow> int \<times> sent \<times> host" where
  "chkmqhealthy reach probeStartTime probeEndTime h =
     (if IsProbeLoggingEnabled LivenessProbe h then
        (case InitializeProbeLoggingExecution reach LivenessProbe probeStartTime ProbeIncomplete of
           (pe, sent1) \<Rightarrow>
             (case queueManagerHealthy h of
                ((healthy, out, err), h1) \<Rightarrow>
                  (case LogLivenessProbeMessage reach pe probeEndTime healthy out err of
                     None \<Rightarrow> (2, sent1, h1)
                   | Some (pe1, sent2) \<Rightarrow> (exit_code healthy err, sent1 @ sent2, h1))))
      else
        (case queueManagerHealthy h of
           ((healthy, out, err), h1) \<Rightarrow> (exit_code healthy err, [], h1)))"

section \<open>cmd/chkmqready\<close>

text \<open>\<open>dial\<close> says whether the address accepts a connection, and whether closing it fails.\<close>

definition checkPort :: "(string \<Rightarrow> bool \<times> string option) \<Rightarrow> string \<Rightarrow> bool \<times> string option" where
  "checkPort dial address =
     (case dial address of
        (False, e) \<Rightarrow> (False, Some (case e of None \<Rightarrow> ''connection refused'' | Some t \<Rightarrow> t))
      | (True, e) \<Rightarrow> (True, e))"

definition chkmqready :: "(string \<Rightarrow> bool \<times> string option) \<Rightarrow> host \<Rightarrow> int \<times> host" where
  "chkmqready dial h =
     (case Check h of
        Inl _ \<Rightarrow> (1, h)
      | Inr False \<Rightarrow> (1, h)
      | Inr True \<Rightarrow>
          (case GetQueueManagerName h of
             Inl _ \<Rightarrow> (1, h)
           | Inr qm \<Rightarrow>
               (case ReadyStatus qm h of
                  ((status, Some _), h1) \<Rightarrow> (1, h1)
                | ((status, None), h1) \<Rightarrow>
                    ((case status of
                        StatusActiveQM \<Rightarrow> if fst (checkPort dial ''127.0.0.1:1414'') then 0 else 1
                      | StatusRecoveryQM \<Rightarrow> 0
                      | StatusStandbyQM \<Rightarrow> 10
                      | StatusReplicaQM \<Rightarrow> 20
                      | StatusUnknown \<Rightarrow> 1), h1))))"

section \<open>cmd/chkmqstarted\<close>

text \<open>Ready to sync, in sync, and an error.\<close>

definition isInSyncWithReplicas ::
    "string \<Rightarrow> string list \<Rightarrow> host \<Rightarrow> (bool \<times> bool \<times> string option) \<times> host" where
  "isInSyncWithReplicas qm readyStrings h =
     (case run_cmd [''dspmq'', ''-n'', ''-o'', ''nativeha'', ''-m'', qm] h of
        (r, h1) \<Rightarrow>
          (case cmd_err r of
             Some e \<Rightarrow> ((False, False, Some e), h1)
           | None \<Rightarrow>
               if contains (cmd_out r) ''INSYNC(YES)'' then ((True, True, None), h1)
               else ((matches_any (cmd_out r) readyStrings, False, None), h1)))"

fun ready_error_text :: "ready_error \<Rightarrow> string" where
  "ready_error_text (ReadyIo e) = err_text e"
| "ready_error_text (ReadyParse s) = ''parsing '' @ s @ '': invalid syntax''"

text \<open>\<open>strconv.ParseInt\<close> of an override that is not empty, and the default of 5 seconds.\<close>

definition in_sync_timeout :: "host \<Rightarrow> (string, int) result" where
  "in_sync_timeout h =
     (let customTimeout = getenv h ''MQ_NATIVE_HA_IN_SYNC_TIMEOUT''
      in if customTimeout = [] then Inr 5
         else (case parse_int64 customTimeout of
                 None \<Rightarrow> Inl (''parsing '' @ customTimeout @ '': invalid syntax'')
               | Some t \<Rightarrow> Inr t))"

text \<open>The zero time that comes without a ready-to-sync file is never looked at.\<close>

definition hasInSyncTimePeriodExpired :: "host \<Rightarrow> (string, bool) result" where
  "hasInSyncTimePeriodExpired h =
     (case in_sync_timeout h of
        Inl e \<Rightarrow> Inl e
      | Inr timeout \<Rightarrow>
          (case GetReadyToSyncStartTime h of
             (isReady, st, Some e) \<Rightarrow> Inl (ready_error_text e)
           | (isReady, None, None) \<Rightarrow> Inr False
           | (isReady, Some st, None) \<Rightarrow> Inr (isReady \<and> timeout \<le> wrap64 (clock h - st))))"

definition queueManagerStarted :: "host \<Rightarrow> (bool \<times> string option) \<times> host" where
  "queueManagerStarted h =
     (case GetQueueManagerName h of
        Inl e \<Rightarrow> ((False, Some e), h)
      | Inr qm \<Rightarrow>
          if getenv h ''MQ_NATIVE_HA'' = ''true'' then
            (case isInSyncWithReplicas qm healthy_strings h of
               ((ready, inSync, Some e), h1) \<Rightarrow> ((False, Some e), h1)
             | ((ready, True, None), h1) \<Rightarrow> ((True, None), h1)
             | ((False, False, None), h1) \<Rightarrow> ((False, None), h1)
             | ((True, False, None), h1) \<Rightarrow>
                 (case SetReadyToSync h1 of
                    (Some e, h2) \<Rightarrow> ((False, Some (err_text e)), h2)
                  | (None, h2) \<Rightarrow>
                      (case hasInSyncTimePeriodExpired h2 of
                         Inl e \<Rightarrow> ((False, Some e), h2)
                       | Inr expired \<Rightarrow> ((expired, None), h2))))
          else
            (case run_cmd [''dspmq'', ''-n'', ''-m'', qm] h of
               (r, h1) \<Rightarrow>
                 (case cmd_err r of
                    Some e \<Rightarrow> ((False, Some e), h1)
                  | None \<Rightarrow> ((matches_any (cmd_out r) healthy_strings, None), h1))))"

definition chkmqstarted :: "(string \<Rightarrow> bool) \<Rightarrow> time \<Rightarrow> host \<Rightarrow> int \<times> sent \<times> host" where
  "chkmqstarted reach probeStartTime h =
     (let enabled = IsProbeLoggingEnabled StartupProbe h;
          (pe, sent1) = InitializeProbeLoggingExecution reach StartupProbe probeStartTime ProbeIncomplete
      in (case queueManagerStarted h of
            ((started, err), h1) \<Rightarrow>
              (exit_code started err,
               if enabled then sent1 @ snd (LogStartupProbeMessage reach pe started err) else [], h1)))"

section \<open>Properties of the programs\<close>

text \<open>
  Probe logging never influences the liveness probe: the exit code and the host are those of the
  health check alone, whatever sockets exist and whether they can be reached.
\<close>

theorem chkmqhealthy_exit:
  "(let (code, _, h') = chkmqhealthy reach t0 t1 h; ((healthy, _, err), h1) = queueManagerHealthy h
    in code = exit_code healthy err \<and> h' = h1)"
  by (auto simp: chkmqhealthy_def InitializeProbeLoggingExecution_def LogLivenessProbeMessage_def
      zero_exec_def Let_def split: prod.splits option.splits)

text \<open>
  What the liveness probe reports: with a reachable socket it sends exactly two messages, the
  first that the probe started, the second with the outcome, which is PASSED exactly when the exit
  code is 0, with the duration of the probe in milliseconds.
\<close>

theorem chkmqhealthy_sends:
  assumes "IsProbeLoggingEnabled LivenessProbe h" "reach LivenessProbeSockPath"
    and "t0 \<le> t1" "t1 - t0 < 2 ^ 63"
  shows "\<exists>pe1 pe2. fst (snd (chkmqhealthy reach t0 t1 h))
          = [(LivenessProbeSockPath, pe1), (LivenessProbeSockPath, pe2)]
      \<and> Status pe1 = ProbeIncomplete \<and> StartTime pe1 = Some t0 \<and> ProbeType pe1 = LivenessProbe
      \<and> ProbeType pe2 = LivenessProbe
      \<and> Status pe2 = (if fst (chkmqhealthy reach t0 t1 h) = 0 then ProbePassed else ProbeFailed)
      \<and> Duration pe2 = Some ((t1 - t0) div 1000000)"
proof -
  define pe1 where "pe1 = zero_exec\<lparr>ProbeType := LivenessProbe, StartTime := Some t0, Status := ProbeIncomplete\<rparr>"
  obtain healthy out err h1 where q: "queueManagerHealthy h = ((healthy, out, err), h1)"
    by (metis prod_cases3 surj_pair)
  have st: "StartTime pe1 = Some t0" "ProbeType pe1 = LivenessProbe" "Status pe1 = ProbeIncomplete"
    by (simp_all add: pe1_def)
  have "LogLivenessProbeMessage reach pe1 t1 healthy out err \<noteq> None"
    using st by (simp add: LogLivenessProbeMessage_def Let_def)
  then obtain pe2 s2 where l: "LogLivenessProbeMessage reach pe1 t1 healthy out err = Some (pe2, s2)"
    by auto
  note f = liveness_update_fields [OF st(1) l]
  have run: "chkmqhealthy reach t0 t1 h
      = (exit_code healthy err, [(LivenessProbeSockPath, pe1), (LivenessProbeSockPath, pe2)], h1)"
    using assms q l f(8)
    by (simp add: chkmqhealthy_def InitializeProbeLoggingExecution_def SendProbeLoggingExecution_def
        Let_def flip: pe1_def)
  have "exit_code healthy err = 0 \<longleftrightarrow> err = None \<and> healthy" by (simp add: exit_code_def)
  then show ?thesis using run f st milliseconds_sub [OF assms(3,4)] by auto
qed

lemma chkmqhealthy_sends_witness:
  "map (Duration \<circ> snd) (fst (snd (chkmqhealthy (\<lambda>_. True) 5 3000005
     (example_host\<lparr>files := [LivenessProbeSockPath \<mapsto> []]\<rparr>)))) \<noteq> []"
proof -
  let ?h = "example_host\<lparr>files := [LivenessProbeSockPath \<mapsto> []]\<rparr>"
  have "IsProbeLoggingEnabled LivenessProbe ?h"
    by (simp add: IsProbeLoggingEnabled_def example_host_def os_stat_def)
  from chkmqhealthy_sends [OF this, of "\<lambda>_. True" 5 3000005] show ?thesis by auto
qed

text \<open>
  \<open>chkmqready\<close> exits with 0 only if configuration has finished, and then exactly if the queue
  manager leads a recovery group or is active with its listener accepting connections; it exits with
  10 for standby instances and replicas alike, and its exit code for replicas is unreachable.
\<close>

theorem chkmqready_exit:
  "fst (chkmqready dial h) \<noteq> 20
   \<and> (fst (chkmqready dial h) = 0 \<longleftrightarrow>
       Check h = Inr True
       \<and> (case GetQueueManagerName h of
            Inl _ \<Rightarrow> False
          | Inr qm \<Rightarrow>
              (case fst (ReadyStatus qm h) of
                 (status, err) \<Rightarrow>
                   err = None \<and> (status = StatusRecoveryQM
                     \<or> status = StatusActiveQM \<and> fst (dial ''127.0.0.1:1414'')))))"
proof -
  have "status_of_output out \<noteq> StatusReplicaQM" for out
    by (simp add: status_of_output_def)
  then show ?thesis
    by (auto simp: chkmqready_def checkPort_def ReadyStatus_def Let_def
        split: sum.splits bool.splits option.splits prod.splits QMStatus.splits)
qed

section \<open>Native HA start-up\<close>

text \<open>An instance whose queue manager is up but never in sync: what \<open>dspmq\<close> says at every call.\<close>

definition up_not_in_sync :: "host \<Rightarrow> bool" where
  "up_not_in_sync h \<longleftrightarrow>
     healthy_host h \<and> getenv h ''MQ_NATIVE_HA'' = ''true'' \<and> is_ok (GetQueueManagerName h)
     \<and> (\<forall>past a. cmd_err (exec h past a) = None \<and> \<not> contains (cmd_out (exec h past a)) ''INSYNC(YES)''
          \<and> matches_any (cmd_out (exec h past a)) healthy_strings)"

lemma environment_frame [simp]:
  "getenv (h\<lparr>files := f\<rparr>) = getenv h" "getenv (h\<lparr>cmds := c\<rparr>) = getenv h"
  "getenv (h\<lparr>clock := t\<rparr>) = getenv h"
  "GetQueueManagerName (h\<lparr>files := f\<rparr>) = GetQueueManagerName h"
  "GetQueueManagerName (h\<lparr>cmds := c\<rparr>) = GetQueueManagerName h"
  "GetQueueManagerName (h\<lparr>clock := t\<rparr>) = GetQueueManagerName h"
  by (simp_all add: getenv_def GetQueueManagerName_def fun_eq_iff split: option.splits list.splits)

lemma in_sync_timeout_frame [simp]:
  "in_sync_timeout (h\<lparr>files := f\<rparr>) = in_sync_timeout h"
  "in_sync_timeout (h\<lparr>cmds := c\<rparr>) = in_sync_timeout h"
  "in_sync_timeout (h\<lparr>clock := t\<rparr>) = in_sync_timeout h"
  by (simp_all add: in_sync_timeout_def Let_def)

lemma up_not_in_sync_frame [simp]:
  "up_not_in_sync (h\<lparr>files := f\<rparr>) = up_not_in_sync h"
  "up_not_in_sync (h\<lparr>cmds := c\<rparr>) = up_not_in_sync h"
  "up_not_in_sync (h\<lparr>clock := t\<rparr>) = up_not_in_sync h"
  by (simp_all add: up_not_in_sync_def)

text \<open>One run of the check: it records the time if none is recorded, and compares.\<close>

lemma started_up_not_in_sync:
  assumes "up_not_in_sync h" "in_sync_timeout h = Inr timeout"
    and "files h readyToSyncFile = Some (itoa st) \<or> files h readyToSyncFile = None \<and> st = clock h"
    and "0 \<le> st" "st \<le> clock h" "clock h < 2 ^ 63"
  shows "\<exists>c. queueManagerStarted h
      = ((timeout \<le> clock h - st, None),
         h\<lparr>files := (files h)(readyToSyncFile \<mapsto> itoa st), cmds := c\<rparr>)"
proof -
  obtain qm where qm: "GetQueueManagerName h = Inr qm"
    using assms(1) by (auto simp: up_not_in_sync_def is_ok_iff)
  let ?cmd = "[''dspmq'', ''-n'', ''-o'', ''nativeha'', ''-m'', qm]"
  let ?h1 = "h\<lparr>cmds := cmds h @ [?cmd]\<rparr>"
  let ?h2 = "?h1\<lparr>files := (files h)(readyToSyncFile \<mapsto> itoa st)\<rparr>"
  have sync: "isInSyncWithReplicas qm healthy_strings h = ((True, False, None), ?h1)"
    using assms(1) by (simp add: isInSyncWithReplicas_def run_cmd_def up_not_in_sync_def)
  have ok: "healthy_host ?h1" "healthy_host ?h2" using assms(1) by (simp_all add: up_not_in_sync_def)
  have set: "SetReadyToSync ?h1 = (None, ?h2)"
    using assms(3) ok(1) by (auto simp: SetReadyToSync_healthy host_markers.put_once_def fun_upd_idem)
  have "parse_int64 (itoa st) = Some st" using assms(4-6) by (intro parse_itoa) auto
  then have get: "GetReadyToSyncStartTime ?h2 = (True, Some st, None)"
    using ok(2) by (simp add: GetReadyToSyncStartTime_healthy)
  have "wrap64 (clock h - st) = clock h - st" using assms(4-6) by (intro wrap64_id) auto
  then have "hasInSyncTimePeriodExpired ?h2 = Inr (timeout \<le> clock h - st)"
    using get assms(2) by (simp add: hasInSyncTimePeriodExpired_def)
  then show ?thesis
    using assms(1) qm sync set
    by (intro exI [of _ "cmds h @ [?cmd]"]) (simp add: queueManagerStarted_def up_not_in_sync_def)
qed

text \<open>
  C36. A Native HA instance does not block start-up for ever: if its queue manager is up but never in
  sync, the start-up probe, called at any later time, exits with 0 exactly when the timeout has
  passed since its first call, and with 1 before.
\<close>

theorem chkmqstarted_gives_up_waiting:
  assumes "up_not_in_sync h" "in_sync_timeout h = Inr timeout"
    and "files h readyToSyncFile = None" "0 \<le> clock h" "clock h \<le> later" "later < 2 ^ 63"
  shows "fst (chkmqstarted reach t1 ((snd (snd (chkmqstarted reach t0 h)))\<lparr>clock := later\<rparr>))
       = (if timeout \<le> later - clock h then 0 else 1)"
proof -
  obtain c where 1: "queueManagerStarted h = ((timeout \<le> 0, None),
      h\<lparr>files := (files h)(readyToSyncFile \<mapsto> itoa (clock h)), cmds := c\<rparr>)"
    using started_up_not_in_sync [OF assms(1,2), of "clock h"] assms by auto
  define g where "g = h\<lparr>files := (files h)(readyToSyncFile \<mapsto> itoa (clock h)), cmds := c, clock := later\<rparr>"
  have g: "(snd (snd (chkmqstarted reach t0 h)))\<lparr>clock := later\<rparr> = g"
    using 1 by (simp add: chkmqstarted_def g_def Let_def split: prod.splits)
  have "up_not_in_sync g" "in_sync_timeout g = Inr timeout"
    using assms(1,2) by (simp_all add: g_def)
  then obtain c' where "queueManagerStarted g = ((timeout \<le> later - clock h, None),
      g\<lparr>files := (files g)(readyToSyncFile \<mapsto> itoa (clock h)), cmds := c'\<rparr>)"
    using started_up_not_in_sync [of g timeout "clock h"] assms by (auto simp: g_def)
  then show ?thesis
    unfolding g by (simp add: chkmqstarted_def exit_code_def Let_def split: prod.splits)
qed

definition replica_host :: host where
  "replica_host = example_host\<lparr>files := Map.empty, env := [''MQ_NATIVE_HA'' \<mapsto> ''true'']\<rparr>"

lemma chkmqstarted_gives_up_waiting_witness:
  "fst (chkmqstarted (\<lambda>_. True) 7 ((snd (snd (chkmqstarted (\<lambda>_. True) 3 replica_host)))\<lparr>clock := 1004\<rparr>)) = 1
   \<and> fst (chkmqstarted (\<lambda>_. True) 7 ((snd (snd (chkmqstarted (\<lambda>_. True) 3 replica_host)))\<lparr>clock := 1005\<rparr>)) = 0"
proof -
  have 1: "up_not_in_sync replica_host"
    unfolding up_not_in_sync_def
    by (intro conjI allI; (simp add: replica_host_def example_host_def healthy_host_def getenv_def)?)
       (code_simp+)
  have 2: "in_sync_timeout replica_host = Inr 5"
    by (simp add: in_sync_timeout_def replica_host_def getenv_def)
  have 3: "clock replica_host = 1000" "files replica_host readyToSyncFile = None"
    by (simp_all add: replica_host_def example_host_def)
  show ?thesis
    using chkmqstarted_gives_up_waiting [OF 1 2 3(2), of 1004 "\<lambda>_. True" 7 3] chkmqstarted_gives_up_waiting [OF 1 2 3(2), of 1005 "\<lambda>_. True" 7 3]
    by (simp add: 3)
qed

end
