(* ===== verification/Probe_Summary.thy ===== *)
theory Probe_Summary
  imports Probe_Programs
begin

text \<open>
  internal/probes/probeutils.go: the summary of the probes' results that is logged at the end of
  runmqserver; and the liveness probe from end to end, from the runs of chkmqhealthy over the
  listener's history to the summary. The format of a time is a parameter.
\<close>

section \<open>Formatting\<close>

definition timePtrToString :: "(time \<Rightarrow> string) \<Rightarrow> time option \<Rightarrow> string" where
  "timePtrToString rfc3339 t = (case t of None \<Rightarrow> ''N/A'' | Some u \<Rightarrow> rfc3339 u)"

definition int64PtrToString :: "int option \<Rightarrow> string" where
  "int64PtrToString i = (case i of None \<Rightarrow> ''N/A'' | Some n \<Rightarrow> itoa n)"

definition formatDurationForSummary :: "time \<Rightarrow> int option \<Rightarrow> time option \<Rightarrow> string \<Rightarrow> string" where
  "formatDurationForSummary now duration startTime status =
     (case duration of
        Some d \<Rightarrow> itoa d @ ''ms''
      | None \<Rightarrow>
          if status = ProbeIncomplete then
            (case startTime of
               None \<Rightarrow> ''N/A''
             | Some st \<Rightarrow> itoa (milliseconds (time_sub now st)) @ ''ms'')
          else ''N/A'')"

definition formatProbeSummary ::
    "(time \<Rightarrow> string) \<Rightarrow> time \<Rightarrow> string \<Rightarrow> ProbeLoggingExecution option \<Rightarrow> string \<Rightarrow> string" where
  "formatProbeSummary rfc3339 now pre pe probeType =
     (case pe of
        None \<Rightarrow> []
      | Some e \<Rightarrow>
          let status = getProbeStatus (Status e);
              started = timePtrToString rfc3339 (StartTime e);
              duration = formatDurationForSummary now (Duration e) (StartTime e) (Status e);
              details = trim_space (LogMessage e)
          in if Status e = ProbeIncomplete \<and> probeType = StartupProbe then
               pre @ '': '' @ status @ '' (Attempts='' @ itoa (AttemptCount e) @ '')''
             else if Status e = ProbeIncomplete \<and> probeType = LivenessProbe then
               pre @ '': '' @ status @ '' (Started='' @ started @ '' Duration='' @ duration @ '')''
             else if probeType = StartupProbe then
               pre @ '': '' @ status @ '' (Attempts='' @ itoa (AttemptCount e)
                 @ '' Details='' @ details @ '')''
             else
               pre @ '': '' @ status @ '' (Started='' @ started
                 @ '' Completed='' @ timePtrToString rfc3339 (EndTime e)
                 @ '' Duration='' @ duration @ '' Details='' @ details @ '')'')"

section \<open>The summary\<close>

definition previous_lines ::
    "(time \<Rightarrow> string) \<Rightarrow> time \<Rightarrow> ProbeLoggingExecution list \<Rightarrow> string list" where
  "previous_lines rfc3339 now runs =
     concat (map (\<lambda>(i, e). if StartTime e \<noteq> None
                   then [formatProbeSummary rfc3339 now (''Previous Run '' @ itoa (int i + 1)) (Some e) LivenessProbe]
                   else [])
              (enumerate 0 runs))"

definition liveness_note :: string where
  "liveness_note = ''Note: Duration measures chkmqhealthy execution time and excludes Kubernetes probe scheduling overhead''"

definition WriteProbeSummary :: "(time \<Rightarrow> string) \<Rightarrow> time \<Rightarrow> ProbeLoggingState option \<Rightarrow> string list" where
  "WriteProbeSummary rfc3339 now state =
     (case state of
        None \<Rightarrow> []
      | Some st \<Rightarrow>
          (case Option.bind (LivenessState st) CurrentRun of
             Some cur \<Rightarrow>
               [''----- Start Liveness Probe Summary -----'',
                formatProbeSummary rfc3339 now ''Last Run'' (Some cur) LivenessProbe]
               @ previous_lines rfc3339 now (PreviousRuns (the (LivenessState st)))
               @ [liveness_note, ''----- End Liveness Probe Summary -----'']
           | None \<Rightarrow>
               (case Option.bind (StartupState st) StartupCurrentRun of
                  Some cur \<Rightarrow>
                    [''----- Start Startup Probe Summary -----'',
                     formatProbeSummary rfc3339 now ''Last State'' (Some cur) StartupProbe,
                     ''----- End Startup Probe Summary -----'']
                | None \<Rightarrow> [])))"

text \<open>
  The summary of a liveness history: the newest run and up to two runs before it, in this order
  and numbered, each exactly once, and nothing for the places of runs that never happened.
\<close>

theorem summary_of_history:
  assumes "LivenessState st = Some (history_view (r # rs))" "list_all (\<lambda>e. StartTime e \<noteq> None) rs"
  shows "WriteProbeSummary rfc3339 now (Some st)
    = [''----- Start Liveness Probe Summary -----'']
      @ map (\<lambda>(pre, e). formatProbeSummary rfc3339 now pre (Some e) LivenessProbe)
          (zip [''Last Run'', ''Previous Run 1'', ''Previous Run 2''] (r # rs))
      @ [liveness_note, ''----- End Liveness Probe Summary -----'']"
proof -
  have zero: "StartTime zero_exec = None" by (simp add: zero_exec_def)
  have dig: "itoa 1 = ''1''" "itoa 2 = ''2''" by code_simp+
  show ?thesis
    using assms
    by (cases rs; cases "tl rs")
       (auto simp: WriteProbeSummary_def history_view_def previous_lines_def zero dig)
qed

lemma summary_of_history_witness:
  "length (WriteProbeSummary itoa 9 (Some \<lparr>LivenessState = Some (history_view [zero_exec]),
                                          StartupState = None\<rparr>)) = 4"
proof -
  have "LivenessState \<lparr>LivenessState = Some (history_view [zero_exec]), StartupState = None\<rparr>
      = Some (history_view [zero_exec])"
    "list_all (\<lambda>e. StartTime e \<noteq> None) ([] :: ProbeLoggingExecution list)" by simp_all
  from summary_of_history [OF this, of itoa 9] show ?thesis by simp
qed

section \<open>From the probe to the history\<close>

type_synonym probe_run = "time \<times> time \<times> host"

text \<open>The messages of one run of the liveness probe as events of the listener.\<close>

definition run_events :: "(string \<Rightarrow> bool) \<Rightarrow> (time \<Rightarrow> time) \<Rightarrow> probe_run \<Rightarrow> (time \<times> ProbeLoggingExecution) list" where
  "run_events reach arrival p =
     (case p of (t0, t1, h) \<Rightarrow>
        map (\<lambda>(path, e). (arrival t1, e)) (fst (snd (chkmqhealthy reach t0 t1 h))))"

definition run_result :: "(string \<Rightarrow> bool) \<Rightarrow> probe_run \<Rightarrow> ProbeLoggingExecution" where
  "run_result reach p =
     (case p of (t0, t1, h) \<Rightarrow> snd (last (fst (snd (chkmqhealthy reach t0 t1 h)))))"

definition reporting :: "(string \<Rightarrow> bool) \<Rightarrow> probe_run \<Rightarrow> bool" where
  "reporting reach p \<longleftrightarrow>
     (case p of (t0, t1, h) \<Rightarrow> IsProbeLoggingEnabled LivenessProbe h \<and> reach LivenessProbeSockPath)"

lemma run_two_messages:
  assumes "reporting reach (t0, t1, h)"
  shows "\<exists>pe1 pe2. run_events reach arrival (t0, t1, h) = [(arrival t1, pe1), (arrival t1, pe2)]
    \<and> run_result reach (t0, t1, h) = pe2 \<and> Status pe1 = ProbeIncomplete
    \<and> Status pe2 = (if fst (chkmqhealthy reach t0 t1 h) = 0 then ProbePassed else ProbeFailed)
    \<and> finish_run pe1 pe2 = pe2 \<and> StartTime pe2 = Some t0"
proof -
  define pe1 where "pe1 = zero_exec\<lparr>ProbeType := LivenessProbe, StartTime := Some t0, Status := ProbeIncomplete\<rparr>"
  obtain healthy out err h1 where q: "queueManagerHealthy h = ((healthy, out, err), h1)"
    by (metis prod_cases3 surj_pair)
  have st: "StartTime pe1 = Some t0" "Status pe1 = ProbeIncomplete" by (simp_all add: pe1_def)
  have "LogLivenessProbeMessage reach pe1 t1 healthy out err \<noteq> None"
    using st by (simp add: LogLivenessProbeMessage_def Let_def)
  then obtain pe2 s2 where l: "LogLivenessProbeMessage reach pe1 t1 healthy out err = Some (pe2, s2)"
    by auto
  note f = liveness_update_fields [OF st(1) l]
  have run: "chkmqhealthy reach t0 t1 h
      = (exit_code healthy err, [(LivenessProbeSockPath, pe1), (LivenessProbeSockPath, pe2)], h1)"
    using assms q l f(8)
    by (simp add: reporting_def chkmqhealthy_def InitializeProbeLoggingExecution_def
        SendProbeLoggingExecution_def Let_def flip: pe1_def)
  have "exit_code healthy err = 0 \<longleftrightarrow> err = None \<and> healthy" by (simp add: exit_code_def)
  moreover have "finish_run pe1 pe2 = pe2"
    using l st(1) by (auto simp: finish_run_def LogLivenessProbeMessage_def Let_def
        logLivenessProbeMessageHelper_def split: option.splits if_splits)
  ultimately show ?thesis using run f st by (auto simp: run_events_def run_result_def)
qed

lemma history_of_run:
  assumes "reporting reach p" "list_all (\<lambda>r. Status r \<noteq> ProbeIncomplete) rs"
  shows "foldl history_step rs (run_events reach arrival p) = run_result reach p # rs
    \<and> Status (run_result reach p) \<noteq> ProbeIncomplete"
proof -
  obtain t0 t1 h where p: "p = (t0, t1, h)" by (cases p) auto
  obtain pe1 pe2 where m: "run_events reach arrival p = [(arrival t1, pe1), (arrival t1, pe2)]"
    "run_result reach p = pe2" "Status pe1 = ProbeIncomplete"
    "Status pe2 = (if fst (chkmqhealthy reach t0 t1 h) = 0 then ProbePassed else ProbeFailed)"
    "finish_run pe1 pe2 = pe2"
    using run_two_messages [of reach t0 t1 h arrival] assms(1) p by blast
  have "freeze_run now r = r" if "Status r \<noteq> ProbeIncomplete" for now r
    using that by (simp add: freeze_run_def split: option.splits)
  then show ?thesis using m assms(2) by (cases rs) auto
qed

lemma history_of_runs:
  assumes "list_all (reporting reach) ps"
  shows "foldl history_step [] (concat (map (run_events reach arrival) ps)) = rev (map (run_result reach) ps)
    \<and> list_all (\<lambda>r. Status r \<noteq> ProbeIncomplete) (map (run_result reach) ps)"
  using assms
proof (induction ps rule: rev_induct)
  case (snoc p ps)
  then show ?case using history_of_run [of reach p "rev (map (run_result reach) ps)" arrival]
    by (simp add: list_all_iff)
qed simp

text \<open>
  C10. The liveness probe from end to end: after any number of runs of \<open>chkmqhealthy\<close> whose messages
  reach the listener, the listener's history shows the outcomes of the last three runs, newest
  first; a run that exited with 0 is shown as PASSED and any other as FAILED.
\<close>

theorem liveness_end_to_end:
  assumes "list_all (reporting reach) ps"
  shows "LivenessState (probeLoggingState
            (foldl (liveness_step path) (NewProbeLoggingSocket NewProbeState)
               (concat (map (run_events reach arrival) ps))))
         = Some (history_view (rev (map (run_result reach) ps)))
    \<and> list_all (\<lambda>(t0, t1, h). Status (run_result reach (t0, t1, h))
         = (if fst (chkmqhealthy reach t0 t1 h) = 0 then ProbePassed else ProbeFailed)) ps"
proof
  let ?evs = "concat (map (run_events reach arrival) ps)"
  have "shows_history (foldl (both_step path) ([], NewProbeLoggingSocket NewProbeState) ?evs)"
    by (rule liveness_history.invar_run)
  then show "LivenessState (probeLoggingState
            (foldl (liveness_step path) (NewProbeLoggingSocket NewProbeState) ?evs))
         = Some (history_view (rev (map (run_result reach) ps)))"
    using history_part.abs_run [of path ?evs] listener_part.abs_run [of path ?evs] history_of_runs [OF assms]
    by (simp add: shows_history_def)
  show "list_all (\<lambda>(t0, t1, h). Status (run_result reach (t0, t1, h))
         = (if fst (chkmqhealthy reach t0 t1 h) = 0 then ProbePassed else ProbeFailed)) ps"
    using assms run_two_messages unfolding list_all_iff by fastforce
qed

lemma liveness_end_to_end_witness:
  "LivenessState (probeLoggingState
      (foldl (liveness_step LivenessProbeSockPath) (NewProbeLoggingSocket NewProbeState)
         (concat (map (run_events (\<lambda>_. True) (\<lambda>t. t))
            [(1, 2, example_host\<lparr>files := [LivenessProbeSockPath \<mapsto> []]\<rparr>)]))))
   = Some (history_view [run_result (\<lambda>_. True) (1, 2, example_host\<lparr>files := [LivenessProbeSockPath \<mapsto> []]\<rparr>)])"
proof -
  have "list_all (reporting (\<lambda>_. True)) [(1, 2, example_host\<lparr>files := [LivenessProbeSockPath \<mapsto> []]\<rparr>)]"
    by (simp add: reporting_def IsProbeLoggingEnabled_def os_stat_def example_host_def)
  from liveness_end_to_end [OF this] show ?thesis by simp
qed

end
