(* ===== verification/Probe_Listener.thy ===== *)
theory Probe_Listener
  imports Probe_Socket
begin

text \<open>
  internal/probes/probesocket.go: the listeners of the probe sockets, from \<open>Start\<close> to \<open>Wait\<close>. \<open>Start\<close> makes one socket
  after the other and starts a goroutine for each; what the goroutines, the ones that close the sockets, and the clients do
  is a step relation, whose labels say who acts. What a line does to the state of the probes is \<open>handleConnection\<close> of
  Probe_Socket.
\<close>

section \<open>State\<close>

datatype sock_op = SockRemove string | SockListen string | SockChmod string | SockClose string

type_synonym sock_faults = "sock_op \<Rightarrow> string option"

text \<open>A goroutine waits for a connection, or reads the lines of one, or has returned.\<close>

datatype place = Accepting | Serving | Returned

record listener =
  socketPath :: string
  isOpen :: bool
  closer :: bool
  place :: place

text \<open>
  The nodes of the file system at the paths of sockets, with their permissions; the goroutines that were started, and the
  count of the wait group.
\<close>

record probe_run =
  sock :: ProbeLoggingSocket
  nodes :: "string \<rightharpoonup> nat"
  listeners :: "listener list"
  wg :: nat
  ctxDone :: bool
  panicked :: bool

section \<open>Start\<close>

definition private_mode :: nat where
  "private_mode = 6 * 64"

text \<open>
  Closing a listener unlinks its path, also when the close itself fails. The mode that a socket is created with depends on
  the umask of the process.
\<close>

definition initSocket :: "sock_faults \<Rightarrow> nat \<Rightarrow> string \<Rightarrow> (string \<rightharpoonup> nat) \<Rightarrow> string option \<times> (string \<rightharpoonup> nat)" where
  "initSocket sf created p ns =
     (case sf (SockListen p) of
        Some e \<Rightarrow> (Some e, ns)
      | None \<Rightarrow>
          if ns p \<noteq> None then (Some ''bind: address already in use'', ns)
          else
            (case sf (SockChmod p) of
               Some e \<Rightarrow>
                 (case sf (SockClose p) of
                    Some e2 \<Rightarrow> (Some e2, ns(p := None))
                  | None \<Rightarrow> (Some e, ns(p := None)))
             | None \<Rightarrow> (None, ns(p \<mapsto> private_mode))))"

definition new_listener :: "string \<Rightarrow> listener" where
  "new_listener p = \<lparr>socketPath = p, isOpen = True, closer = True, place = Accepting\<rparr>"

text \<open>One round of the loop of \<open>Start\<close>; an absent path is no error for the removal.\<close>

definition start_one :: "sock_faults \<Rightarrow> nat \<Rightarrow> string \<Rightarrow> probe_run \<Rightarrow> string option \<times> probe_run" where
  "start_one sf created p r =
     (case sf (SockRemove p) of
        Some e \<Rightarrow> (Some e, r)
      | None \<Rightarrow>
          (case initSocket sf created p ((nodes r)(p := None)) of
             (Some e, ns) \<Rightarrow> (Some e, r\<lparr>nodes := ns\<rparr>)
           | (None, ns) \<Rightarrow>
               (None, r\<lparr>nodes := ns, listeners := listeners r @ [new_listener p], wg := Suc (wg r)\<rparr>)))"

fun start_each :: "sock_faults \<Rightarrow> nat \<Rightarrow> string list \<Rightarrow> probe_run \<Rightarrow> string option \<times> probe_run" where
  "start_each sf created [] r = (None, r)"
| "start_each sf created (p # paths) r =
     (case start_one sf created p r of
        (Some e, r1) \<Rightarrow> (Some e, r1)
      | (None, r1) \<Rightarrow> start_each sf created paths r1)"

definition Start :: "sock_faults \<Rightarrow> nat \<Rightarrow> probe_run \<Rightarrow> string option \<times> probe_run" where
  "Start sf created r = start_each sf created (sockets (sock r)) r"

definition new_run :: "ProbeLoggingSocket \<Rightarrow> (string \<rightharpoonup> nat) \<Rightarrow> probe_run" where
  "new_run ps ns = \<lparr>sock = ps, nodes = ns, listeners = [], wg = 0, ctxDone = False, panicked = False\<rparr>"

section \<open>The goroutines\<close>

definition close_socket :: "nat \<Rightarrow> probe_run \<Rightarrow> probe_run" where
  "close_socket i r =
     (let l = listeners r ! i
      in if isOpen l
         then r\<lparr>nodes := (nodes r)(socketPath l := None), listeners := (listeners r)[i := l\<lparr>isOpen := False\<rparr>]\<rparr>
         else r)"

definition move_to :: "nat \<Rightarrow> place \<Rightarrow> probe_run \<Rightarrow> probe_run" where
  "move_to i p r = r\<lparr>listeners := (listeners r)[i := (listeners r ! i)\<lparr>place := p\<rparr>]\<rparr>"

text \<open>The return of \<open>listen\<close>: the socket is closed, and the goroutine leaves the wait group.\<close>

definition listen_returns :: "nat \<Rightarrow> probe_run \<Rightarrow> probe_run" where
  "listen_returns i r = (let r1 = close_socket i (move_to i Returned r) in r1\<lparr>wg := wg r1 - 1\<rparr>)"

text \<open>One line of a connection; a line that does not decode ends the connection.\<close>

definition serve_line :: "(string \<Rightarrow> json_result) \<Rightarrow> nat \<Rightarrow> time \<Rightarrow> string \<Rightarrow> probe_run \<Rightarrow> probe_run" where
  "serve_line unmarshal i now logLine r =
     (case handleConnection unmarshal (socketPath (listeners r ! i)) [(now, logLine)] (sock r) of
        NilPanic ps \<Rightarrow> r\<lparr>sock := ps, panicked := True\<rparr>
      | Ran ps \<Rightarrow>
          if unmarshal logLine = Malformed then move_to i Accepting (r\<lparr>sock := ps\<rparr>) else r\<lparr>sock := ps\<rparr>)"

datatype actor = Program | Client nat

text \<open>
  A panic ends the process. \<open>Accept\<close> fails when the socket is closed, and may fail for other reasons; the goroutine then
  returns if the context was cancelled, and otherwise tries again.
\<close>

inductive probe_step :: "(string \<Rightarrow> json_result) \<Rightarrow> actor \<Rightarrow> probe_run \<Rightarrow> probe_run \<Rightarrow> bool" for unmarshal where
  cancels: "\<not> panicked r \<Longrightarrow> probe_step unmarshal Program r (r\<lparr>ctxDone := True\<rparr>)"
| closes_socket:
    "\<not> panicked r \<Longrightarrow> i < length (listeners r) \<Longrightarrow> ctxDone r \<Longrightarrow> closer (listeners r ! i) \<Longrightarrow>
     probe_step unmarshal Program r
       (close_socket i (r\<lparr>listeners := (listeners r)[i := (listeners r ! i)\<lparr>closer := False\<rparr>]\<rparr>))"
| accept_fails:
    "\<not> panicked r \<Longrightarrow> i < length (listeners r) \<Longrightarrow> place (listeners r ! i) = Accepting \<Longrightarrow>
     probe_step unmarshal Program r (if ctxDone r then listen_returns i r else r)"
| client_connects:
    "\<not> panicked r \<Longrightarrow> i < length (listeners r) \<Longrightarrow> place (listeners r ! i) = Accepting \<Longrightarrow> isOpen (listeners r ! i) \<Longrightarrow>
     probe_step unmarshal (Client i) r (move_to i Serving r)"
| client_sends:
    "\<not> panicked r \<Longrightarrow> i < length (listeners r) \<Longrightarrow> place (listeners r ! i) = Serving \<Longrightarrow>
     probe_step unmarshal (Client i) r (serve_line unmarshal i now logLine r)"
| client_leaves:
    "\<not> panicked r \<Longrightarrow> i < length (listeners r) \<Longrightarrow> place (listeners r ! i) = Serving \<Longrightarrow>
     probe_step unmarshal (Client i) r (move_to i Accepting r)"

text \<open>\<open>Wait\<close> returns when the count of the wait group is zero.\<close>

definition Wait_returns :: "probe_run \<Rightarrow> bool" where
  "Wait_returns r \<longleftrightarrow> wg r = 0"

inductive probe_steps :: "(string \<Rightarrow> json_result) \<Rightarrow> actor list \<Rightarrow> probe_run \<Rightarrow> probe_run \<Rightarrow> bool" for unmarshal where
  none: "probe_steps unmarshal [] r r"
| step: "probe_step unmarshal a r r1 \<Longrightarrow> probe_steps unmarshal acts r1 r2 \<Longrightarrow> probe_steps unmarshal (a # acts) r r2"

inductive_cases probe_stepE: "probe_step unmarshal a r r'"
inductive_simps probe_steps_Nil [simp]: "probe_steps unmarshal [] r r'"
inductive_simps probe_steps_Cons: "probe_steps unmarshal (a # acts) r r'"


section \<open>The invariant\<close>

text \<open>
  The wait group counts the goroutines that have not returned. Before the context is cancelled every listener is open; a
  socket is at its path, for its owner alone, exactly while its listener is open.
\<close>

definition running :: "probe_run \<Rightarrow> nat set" where
  "running r = {i. i < length (listeners r) \<and> place (listeners r ! i) \<noteq> Returned}"

definition listener_ok :: "probe_run \<Rightarrow> listener \<Rightarrow> bool" where
  "listener_ok r l \<longleftrightarrow>
     (place l = Returned \<or> \<not> closer l \<longrightarrow> \<not> isOpen l \<and> ctxDone r)
     \<and> (\<not> isOpen l \<longrightarrow> ctxDone r)
     \<and> nodes r (socketPath l) = (if isOpen l then Some private_mode else None)"

definition probe_ok :: "probe_run \<Rightarrow> bool" where
  "probe_ok r \<longleftrightarrow>
     distinct (map socketPath (listeners r)) \<and> wg r = card (running r)
     \<and> (\<forall>i < length (listeners r). listener_ok r (listeners r ! i))"

lemma finite_running [simp]: "finite (running r)"
  by (simp add: running_def)

lemma distinct_paths:
  "probe_ok r \<Longrightarrow> i < length (listeners r) \<Longrightarrow> j < length (listeners r) \<Longrightarrow> i \<noteq> j \<Longrightarrow>
     socketPath (listeners r ! i) \<noteq> socketPath (listeners r ! j)"
  by (auto simp: probe_ok_def distinct_conv_nth)

lemma map_update_same:
  "i < length xs \<Longrightarrow> f y = f (xs ! i) \<Longrightarrow> map f (xs[i := y]) = map f xs"
  by (simp add: map_update list_update_same_conv)

lemma running_frame [simp]:
  "running (r\<lparr>nodes := ns\<rparr>) = running r" "running (r\<lparr>sock := ps\<rparr>) = running r"
  "running (r\<lparr>ctxDone := b\<rparr>) = running r" "running (r\<lparr>panicked := b\<rparr>) = running r"
  "running (r\<lparr>wg := n\<rparr>) = running r"
  by (simp_all add: running_def)

lemma probe_ok_frame [simp]:
  "probe_ok (r\<lparr>sock := ps\<rparr>) = probe_ok r" "probe_ok (r\<lparr>panicked := b\<rparr>) = probe_ok r"
  by (simp_all add: probe_ok_def listener_ok_def)

lemma running_update:
  "i < length (listeners r) \<Longrightarrow>
     running (r\<lparr>listeners := (listeners r)[i := l]\<rparr>)
       = (if place l = Returned then running r - {i} else insert i (running r))"
  by (auto simp: running_def nth_list_update split: if_splits)

text \<open>A change of one listener that keeps its path, and of the node at this path alone.\<close>

lemma probe_ok_update:
  assumes ok: "probe_ok r" and i: "i < length (listeners r)" and p: "socketPath l = socketPath (listeners r ! i)"
    and ns: "\<And>q. q \<noteq> socketPath l \<Longrightarrow> ns q = nodes r q"
    and l: "listener_ok (r\<lparr>nodes := ns\<rparr>) l"
    and n: "n = card (if place l = Returned then running r - {i} else insert i (running r))"
  shows "probe_ok (r\<lparr>nodes := ns, listeners := (listeners r)[i := l], wg := n\<rparr>)"
proof -
  have "listener_ok (r\<lparr>nodes := ns, listeners := (listeners r)[i := l], wg := n\<rparr>) ((listeners r)[i := l] ! j)"
    if j: "j < length (listeners r)" for j
  proof (cases "j = i")
    case True
    with l i show ?thesis by (simp add: listener_ok_def)
  next
    case False
    then have "socketPath (listeners r ! j) \<noteq> socketPath l" using distinct_paths [OF ok j i] p by simp
    moreover have "listener_ok r (listeners r ! j)" using ok j by (simp add: probe_ok_def)
    ultimately show ?thesis using False ns by (simp add: listener_ok_def)
  qed
  moreover have "distinct (map socketPath ((listeners r)[i := l]))"
    using ok i p by (simp add: probe_ok_def map_update_same)
  moreover have "running (r\<lparr>nodes := ns, listeners := (listeners r)[i := l], wg := n\<rparr>)
      = (if place l = Returned then running r - {i} else insert i (running r))"
    using running_update [OF i, of l] by (simp add: running_def)
  ultimately show ?thesis using n by (simp add: probe_ok_def)
qed

lemma place_running:
  assumes "probe_ok r" "i < length (listeners r)" "place (listeners r ! i) \<noteq> Returned"
  shows "card (insert i (running r)) = wg r" "card (running r - {i}) = wg r - 1"
  using assms by (auto simp: probe_ok_def running_def card_Diff_singleton insert_absorb)

lemma update_same: "r\<lparr>nodes := nodes r, listeners := ls, wg := wg r\<rparr> = r\<lparr>listeners := ls\<rparr>"
  by simp

text \<open>The same for a change that does not touch the place of the goroutine.\<close>

lemma probe_ok_keep:
  assumes ok: "probe_ok r" and i: "i < length (listeners r)" and p: "socketPath l = socketPath (listeners r ! i)"
    and ns: "\<And>q. q \<noteq> socketPath l \<Longrightarrow> ns q = nodes r q" and l: "listener_ok (r\<lparr>nodes := ns\<rparr>) l"
    and pl: "place l = place (listeners r ! i)"
  shows "probe_ok (r\<lparr>nodes := ns, listeners := (listeners r)[i := l]\<rparr>)"
proof -
  have "wg r = card (if place l = Returned then running r - {i} else insert i (running r))"
  proof (cases "place l = Returned")
    case True
    then have "running r - {i} = running r" using pl by (auto simp: running_def)
    with True ok show ?thesis by (simp add: probe_ok_def)
  next
    case False
    with place_running(1) [OF ok i] pl show ?thesis by simp
  qed
  from probe_ok_update [OF ok i p ns l this] show ?thesis by simp
qed

lemma listener_at: "probe_ok r \<Longrightarrow> i < length (listeners r) \<Longrightarrow> listener_ok r (listeners r ! i)"
  by (simp add: probe_ok_def)

lemma probe_ok_move:
  assumes "probe_ok r" "i < length (listeners r)" "place (listeners r ! i) \<noteq> Returned" "p \<noteq> Returned"
  shows "probe_ok (move_to i p r)"
  using probe_ok_update [OF assms(1,2), of "(listeners r ! i)\<lparr>place := p\<rparr>" "nodes r" "wg r"]
    place_running [OF assms(1-3)] listener_at [OF assms(1,2)] assms(3,4)
  by (simp add: move_to_def listener_ok_def)

lemma probe_ok_close:
  assumes "probe_ok r" "i < length (listeners r)" "ctxDone r"
  shows "probe_ok (close_socket i r)"
  using probe_ok_keep [OF assms(1,2), of "(listeners r ! i)\<lparr>isOpen := False\<rparr>"
      "(nodes r)(socketPath (listeners r ! i) := None)"] listener_at [OF assms(1,2)] assms
  by (simp add: close_socket_def Let_def listener_ok_def)

lemma probe_ok_closer:
  assumes "probe_ok r" "i < length (listeners r)" "ctxDone r"
  shows "probe_ok (close_socket i (r\<lparr>listeners := (listeners r)[i := (listeners r ! i)\<lparr>closer := False\<rparr>]\<rparr>))"
  using probe_ok_keep [OF assms(1,2), of "(listeners r ! i)\<lparr>closer := False, isOpen := False\<rparr>"
      "(nodes r)(socketPath (listeners r ! i) := None)"]
    probe_ok_keep [OF assms(1,2), of "(listeners r ! i)\<lparr>closer := False\<rparr>" "nodes r"]
    listener_at [OF assms(1,2)] assms
  by (auto simp: close_socket_def Let_def listener_ok_def)

lemma probe_ok_return:
  assumes "probe_ok r" "i < length (listeners r)" "ctxDone r" "place (listeners r ! i) \<noteq> Returned"
  shows "probe_ok (listen_returns i r)"
  using probe_ok_update [OF assms(1,2), of "(listeners r ! i)\<lparr>place := Returned, isOpen := False\<rparr>"
      "(nodes r)(socketPath (listeners r ! i) := None)" "wg r - 1"]
    probe_ok_update [OF assms(1,2), of "(listeners r ! i)\<lparr>place := Returned\<rparr>" "nodes r" "wg r - 1"]
    listener_at [OF assms(1,2)] place_running [OF assms(1,2,4)] assms(2,3)
  by (simp add: listen_returns_def move_to_def close_socket_def Let_def listener_ok_def)

lemma probe_ok_serve:
  "probe_ok r \<Longrightarrow> i < length (listeners r) \<Longrightarrow> place (listeners r ! i) = Serving \<Longrightarrow>
     probe_ok (serve_line unmarshal i now logLine r)"
  by (auto simp: serve_line_def intro!: probe_ok_move split: outcome.splits)

lemma probe_ok_cancel: "probe_ok r \<Longrightarrow> probe_ok (r\<lparr>ctxDone := True\<rparr>)"
  by (simp add: probe_ok_def listener_ok_def)

lemma probe_step_ok: "probe_step unmarshal a r r' \<Longrightarrow> probe_ok r \<Longrightarrow> probe_ok r'"
  by (induction rule: probe_step.induct)
     (simp_all add: probe_ok_cancel probe_ok_closer probe_ok_return probe_ok_move probe_ok_serve)

lemma probe_steps_ok: "probe_steps unmarshal acts r r' \<Longrightarrow> probe_ok r \<Longrightarrow> probe_ok r'"
  by (induction rule: probe_steps.induct) (simp_all add: probe_step_ok)

section \<open>What \<open>Start\<close> leaves\<close>

lemma initSocket_nodes:
  "initSocket sf created p (ns(p := None)) = (e, ns') \<Longrightarrow>
     ns' = ns(p := if e = None then Some private_mode else None)"
  by (auto simp: initSocket_def split: option.splits)

lemma start_one_ok:
  assumes ok: "probe_ok r" and p: "p \<notin> socketPath ` set (listeners r)" and s: "start_one sf created p r = (e, r')"
  shows "probe_ok r'"
proof -
  consider "r' = r" | "e \<noteq> None" "r' = r\<lparr>nodes := (nodes r)(p := None)\<rparr>"
    | "e = None" "r' = r\<lparr>nodes := (nodes r)(p \<mapsto> private_mode), listeners := listeners r @ [new_listener p], wg := Suc (wg r)\<rparr>"
    using s by (auto simp: start_one_def dest!: initSocket_nodes split: option.splits prod.splits)
  moreover have np: "\<And>i. i < length (listeners r) \<Longrightarrow> socketPath (listeners r ! i) \<noteq> p"
    using p by auto
  ultimately show ?thesis
  proof cases
    case 1
    with ok show ?thesis by simp
  next
    case 2
    with ok np show ?thesis by (simp add: probe_ok_def listener_ok_def)
  next
    case 3
    have "running r' = insert (length (listeners r)) (running r)"
      using 3 by (auto simp: running_def nth_append new_listener_def)
    moreover have "length (listeners r) \<notin> running r" by (simp add: running_def)
    ultimately show ?thesis
      using 3 ok np p
      by (auto simp: probe_ok_def listener_ok_def nth_append new_listener_def less_Suc_eq)
  qed
qed

lemma start_each_ok:
  "start_each sf created paths r = (e, r') \<Longrightarrow> probe_ok r \<Longrightarrow> distinct paths \<Longrightarrow>
     set paths \<inter> socketPath ` set (listeners r) = {} \<Longrightarrow> probe_ok r'"
proof (induction sf created paths r rule: start_each.induct)
  case (1 sf created r)
  then show ?case by simp
next
  case (2 sf created p paths r)
  obtain e1 r1 where one: "start_one sf created p r = (e1, r1)" by fastforce
  have ok1: "probe_ok r1" using start_one_ok [OF 2(3) _ one] 2(5) by auto
  show ?case
  proof (cases e1)
    case None
    have "set (listeners r1) = insert (new_listener p) (set (listeners r))"
      using one None by (auto simp: start_one_def split: option.splits prod.splits)
    with 2 None one ok1 show ?thesis by (auto simp: new_listener_def)
  next
    case (Some x)
    with 2 one ok1 show ?thesis by simp
  qed
qed

text \<open>The sockets that were made are those of the first listeners; without an error they are all there.\<close>

lemma start_one_listeners:
  "start_one sf created p r = (e, r') \<Longrightarrow>
     sock r' = sock r \<and> ctxDone r' = ctxDone r \<and> panicked r' = panicked r
     \<and> listeners r' = listeners r @ (if e = None then [new_listener p] else [])"
  by (cases "sf (SockRemove p)") (auto simp: start_one_def dest: sym split: option.splits prod.splits)

lemma start_each_listeners:
  "start_each sf created paths r = (e, r') \<Longrightarrow>
     sock r' = sock r \<and> ctxDone r' = ctxDone r \<and> panicked r' = panicked r
     \<and> (\<exists>k \<le> length paths. listeners r' = listeners r @ map new_listener (take k paths)
          \<and> (e = None \<longleftrightarrow> k = length paths))"
proof (induction sf created paths r rule: start_each.induct)
  case (1 sf created r)
  then show ?case by simp
next
  case (2 sf created p paths r)
  obtain e1 r1 where one: "start_one sf created p r = (e1, r1)" by fastforce
  note l1 = start_one_listeners [OF one]
  show ?case
  proof (cases e1)
    case None
    then have "start_each sf created paths r1 = (e, r')" using 2(2) one by simp
    from 2(1) [OF one [symmetric] None this] obtain k where k: "k \<le> length paths"
      "listeners r' = listeners r1 @ map new_listener (take k paths)" "e = None \<longleftrightarrow> k = length paths"
      "sock r' = sock r1 \<and> ctxDone r' = ctxDone r1 \<and> panicked r' = panicked r1" by blast
    then show ?thesis using l1 None by (intro conjI exI [of _ "Suc k"]) auto
  next
    case (Some x)
    with 2(2) one l1 show ?thesis by (intro conjI exI [of _ 0]) auto
  qed
qed

section \<open>Connections\<close>

text \<open>
  A client that sends all its lines and then leaves has the effect of \<open>handleConnection\<close>, and the listener waits for the
  next one.
\<close>

lemma move_to_simps [simp]:
  "sock (move_to i p r) = sock r" "ctxDone (move_to i p r) = ctxDone r" "panicked (move_to i p r) = panicked r"
  "nodes (move_to i p r) = nodes r" "wg (move_to i p r) = wg r" "length (listeners (move_to i p r)) = length (listeners r)"
  "i < length (listeners r) \<Longrightarrow> listeners (move_to i p r) ! i = (listeners r ! i)\<lparr>place := p\<rparr>"
  "j \<noteq> i \<Longrightarrow> listeners (move_to i p r) ! j = listeners r ! j"
  by (simp_all add: move_to_def)

lemma close_socket_simps [simp]:
  "sock (close_socket i r) = sock r" "ctxDone (close_socket i r) = ctxDone r" "panicked (close_socket i r) = panicked r"
  "wg (close_socket i r) = wg r" "length (listeners (close_socket i r)) = length (listeners r)"
  "j \<noteq> i \<Longrightarrow> listeners (close_socket i r) ! j = listeners r ! j"
  "i < length (listeners r) \<Longrightarrow> place (listeners (close_socket i r) ! i) = place (listeners r ! i)"
  by (simp_all add: close_socket_def Let_def)

lemma client_session:
  "handleConnection unmarshal path ls (sock r) = Ran ps \<Longrightarrow> \<not> panicked r \<Longrightarrow> i < length (listeners r) \<Longrightarrow>
     place (listeners r ! i) = Serving \<Longrightarrow> socketPath (listeners r ! i) = path \<Longrightarrow>
     \<exists>n r'. probe_steps unmarshal (replicate n (Client i)) r r' \<and> sock r' = ps \<and> place (listeners r' ! i) = Accepting"
proof (induction unmarshal path ls "sock r" arbitrary: r rule: handleConnection.induct)
  case (1 unmarshal path)
  then have "probe_step unmarshal (Client i) r (move_to i Accepting r)" by (auto intro: client_leaves)
  with 1 show ?case
    by (intro exI [of _ "Suc 0"] exI [of _ "move_to i Accepting r"]) (auto intro: probe_steps.intros)
next
  case (2 unmarshal path now logLine rest)
  let ?r1 = "serve_line unmarshal i now logLine r"
  have sends: "probe_step unmarshal (Client i) r ?r1" using 2 by (auto intro: client_sends)
  show ?case
  proof (cases "unmarshal logLine")
    case Malformed
    then have ps: "ps = sock r" using 2(2) by simp
    have "?r1 = move_to i Accepting r" using Malformed by (simp add: serve_line_def)
    with sends ps 2 show ?thesis
      by (intro exI [of _ "Suc 0"] exI [of _ "move_to i Accepting r"]) (auto intro: probe_steps.intros)
  next
    case JsonNull
    with 2(2) show ?thesis by simp
  next
    case (Decoded e)
    define ps1 where "ps1 = (if ProbeType e = LivenessProbe then handleLivenessProbe now (Some e) path (sock r)
             else if ProbeType e = StartupProbe then handleStartupProbe (Some e) path (sock r) else sock r)"
    have r1: "?r1 = r\<lparr>sock := ps1\<rparr>" using Decoded 2(6) by (simp add: serve_line_def ps1_def)
    have "handleConnection unmarshal path rest (sock ?r1) = Ran ps" using 2(2) Decoded r1 by (simp add: ps1_def)
    with 2(1) [OF Decoded, of ?r1] 2(3-6) r1 obtain n r'
      where "probe_steps unmarshal (replicate n (Client i)) ?r1 r'" "sock r' = ps" "place (listeners r' ! i) = Accepting"
      by (auto simp: ps1_def)
    with sends show ?thesis by (intro exI [of _ "Suc n"] exI [of _ r']) (auto intro: probe_steps.intros)
  qed
qed

section \<open>The end\<close>

text \<open>A connection is ended by its client alone.\<close>

lemma serve_line_other:
  "j \<noteq> i \<Longrightarrow> listeners (serve_line unmarshal i now logLine r) ! j = listeners r ! j"
  "length (listeners (serve_line unmarshal i now logLine r)) = length (listeners r)"
  by (simp_all add: serve_line_def split: outcome.splits)

lemma listen_returns_other:
  "j \<noteq> i \<Longrightarrow> listeners (listen_returns i r) ! j = listeners r ! j"
  "length (listeners (listen_returns i r)) = length (listeners r)"
  "ctxDone (listen_returns i r) = ctxDone r" "panicked (listen_returns i r) = panicked r"
  "i < length (listeners r) \<Longrightarrow> place (listeners (listen_returns i r) ! i) = Returned"
  by (simp_all add: listen_returns_def Let_def)

lemma serving_kept:
  assumes "probe_step unmarshal a r r'" "a \<noteq> Client i" "i < length (listeners r)" "place (listeners r ! i) = Serving"
  shows "i < length (listeners r') \<and> place (listeners r' ! i) = Serving"
  using assms
proof cases
  case (closes_socket j)
  then show ?thesis using assms by (cases "j = i") simp_all
next
  case (accept_fails j)
  then show ?thesis using assms by (cases "j = i") (simp_all add: listen_returns_other)
next
  case (client_sends j logLine now)
  then show ?thesis using assms by (simp add: serve_line_other)
qed (use assms in auto)

lemma serving_kept_steps:
  "probe_steps unmarshal acts r r' \<Longrightarrow> Client i \<notin> set acts \<Longrightarrow> i < length (listeners r) \<Longrightarrow>
     place (listeners r ! i) = Serving \<Longrightarrow> i < length (listeners r') \<and> place (listeners r' ! i) = Serving"
proof (induction rule: probe_steps.induct)
  case (step a r r1 acts r2)
  then show ?case using serving_kept [OF step(1)] by auto
qed simp

lemma serving_holds_group:
  "probe_ok r \<Longrightarrow> i < length (listeners r) \<Longrightarrow> place (listeners r ! i) = Serving \<Longrightarrow> wg r > 0"
  by (auto simp: probe_ok_def running_def card_gt_0_iff)

text \<open>Once cancelled, the goroutines without a connection return one after the other.\<close>

definition idle :: "probe_run \<Rightarrow> bool" where
  "idle r \<longleftrightarrow> (\<forall>i < length (listeners r). place (listeners r ! i) \<noteq> Serving)"

lemma idle_returns:
  assumes "probe_ok r" "ctxDone r" "\<not> panicked r" "idle r"
  shows "\<exists>n r'. probe_steps unmarshal (replicate n Program) r r' \<and> wg r' = 0"
  using assms
proof (induction "wg r" arbitrary: r)
  case 0
  then show ?case by (intro exI [of _ 0] exI [of _ r]) simp
next
  case (Suc k)
  then obtain i where i: "i < length (listeners r)" "place (listeners r ! i) \<noteq> Returned"
    by (auto simp: probe_ok_def running_def) (metis (mono_tags, lifting) Collect_empty_eq Zero_not_Suc card.empty)
  then have acc: "place (listeners r ! i) = Accepting" using Suc.prems(4) by (cases "place (listeners r ! i)") (auto simp: idle_def)
  let ?r = "listen_returns i r"
  have "probe_step unmarshal Program r ?r" using probe_step.accept_fails [OF Suc.prems(3) i(1) acc] Suc.prems(2) by simp
  moreover have "k = wg ?r" using Suc.hyps(2) by (simp add: listen_returns_def Let_def)
  moreover have "idle ?r" unfolding idle_def
  proof (intro allI impI)
    fix j assume "j < length (listeners ?r)"
    then show "place (listeners ?r ! j) \<noteq> Serving" using Suc.prems(4) i
      by (cases "j = i") (simp_all add: listen_returns_other idle_def)
  qed
  ultimately show ?case
    using Suc.hyps(1) [of ?r] probe_ok_return [OF Suc.prems(1) i(1) Suc.prems(2) i(2)] Suc.prems(2,3)
    by (auto simp: listen_returns_other) (metis probe_steps.step replicate_Suc)
qed

text \<open>When the wait group is empty, no socket is left.\<close>

lemma empty_group_no_sockets:
  "probe_ok r \<Longrightarrow> wg r = 0 \<Longrightarrow> i < length (listeners r) \<Longrightarrow> nodes r (socketPath (listeners r ! i)) = None"
  by (auto simp: probe_ok_def listener_ok_def running_def)

section \<open>Properties\<close>

definition probe_reachable :: "(string \<Rightarrow> json_result) \<Rightarrow> (string \<rightharpoonup> nat) \<Rightarrow> probe_run \<Rightarrow> bool" where
  "probe_reachable unmarshal ns r \<longleftrightarrow>
     (\<exists>sf created acts. probe_steps unmarshal acts
        (snd (Start sf created (new_run (NewProbeLoggingSocket NewProbeState) ns))) r)"

lemma probe_ok_new: "probe_ok (new_run ps ns)"
  by (simp add: probe_ok_def new_run_def running_def)

lemma sockets_distinct: "distinct (sockets (NewProbeLoggingSocket st))"
  by (simp add: NewProbeLoggingSocket_def LivenessProbeSockPath_def StartupProbeSockPath_def)

lemma Start_ok: "probe_ok (snd (Start sf created (new_run (NewProbeLoggingSocket st) ns)))"
proof -
  obtain e r where "start_each sf created (sockets (NewProbeLoggingSocket st)) (new_run (NewProbeLoggingSocket st) ns) = (e, r)"
    by fastforce
  moreover from start_each_ok [OF this probe_ok_new sockets_distinct] have "probe_ok r" by (simp add: new_run_def)
  ultimately show ?thesis by (simp add: Start_def new_run_def)
qed

lemma probe_reachable_ok: "probe_reachable unmarshal ns r \<Longrightarrow> probe_ok r"
  by (auto simp: probe_reachable_def intro: probe_steps_ok Start_ok)

lemma running_new: "listeners r = map new_listener ps \<Longrightarrow> running r = {i. i < length ps}"
  by (auto simp: running_def new_listener_def)

text \<open>
  The start of the probe listeners is not all or nothing: it runs a listener for each of the first sockets, in the order of
  the list, up to the one that fails, and reports an error exactly when one is missing; the listeners of the sockets before
  keep running, and every socket that has a listener is open to its owner alone.
\<close>

theorem Start_outcome:
  "case Start sf created (new_run (NewProbeLoggingSocket st) ns) of (e, r) \<Rightarrow>
     \<exists>k. listeners r = map new_listener (take k [LivenessProbeSockPath, StartupProbeSockPath])
       \<and> (e = None \<longleftrightarrow> k = 2) \<and> k \<le> 2 \<and> wg r = k
       \<and> nodes r ` set (take k [LivenessProbeSockPath, StartupProbeSockPath]) \<subseteq> {Some private_mode}"
proof -
  let ?paths = "[LivenessProbeSockPath, StartupProbeSockPath]"
  obtain e r where s: "Start sf created (new_run (NewProbeLoggingSocket st) ns) = (e, r)" by fastforce
  have ok: "probe_ok r" using Start_ok [of sf created st ns] s by simp
  have "start_each sf created ?paths (new_run (NewProbeLoggingSocket st) ns) = (e, r)"
    using s by (simp add: Start_def new_run_def NewProbeLoggingSocket_def)
  from start_each_listeners [OF this] obtain k where k0: "k \<le> length ?paths" "e = None \<longleftrightarrow> k = length ?paths"
    "listeners r = map new_listener (take k ?paths)"
    by (metis append_Nil probe_run.select_convs(3) new_run_def)
  have "length ?paths = 2" by simp
  note k = k0(1,2) [unfolded this] k0(3)
  have "length (take k ?paths) = k" using k(1) by simp
  with running_new [OF k(3)] have "running r = {i. i < k}" by (simp only:)
  then have "wg r = k" using ok by (simp add: probe_ok_def)
  moreover have "nodes r p = Some private_mode" if "p \<in> set (take k ?paths)" for p
  proof -
    from that obtain i where i: "i < length (take k ?paths)" "p = take k ?paths ! i" by (metis in_set_conv_nth)
    with listener_at [OF ok, of i] k(3) show ?thesis by (simp add: listener_ok_def new_listener_def)
  qed
  ultimately show ?thesis using s k by auto
qed



end
