(* ===== verification/Log_Rotation.thy ===== *)
theory Log_Rotation
  imports Paths
begin

text \<open>
  pkg/logrotation: a log kept as numbered instances of a file, the first being the one that is
  written; and internal/metrics/audit.go, whose handlers write to it through the interface
  \<open>logHandler\<close>. The format of the file names is modelled by the function it denotes, from the
  number of an instance to its name. What the code prints on standard error is logged on the host.
\<close>

record RotatingLogger =
  baseDirectory :: string
  filenameFormat :: "nat \<Rightarrow> string"
  maxFileBytes :: int
  logFilesCount :: nat

definition NewRotatingLogger :: "string \<Rightarrow> (nat \<Rightarrow> string) \<Rightarrow> int \<Rightarrow> nat \<Rightarrow> RotatingLogger" where
  "NewRotatingLogger base fmt limit n =
     \<lparr>baseDirectory = base, filenameFormat = fmt, maxFileBytes = limit, logFilesCount = n\<rparr>"

definition instanceFileName :: "RotatingLogger \<Rightarrow> nat \<Rightarrow> string" where
  "instanceFileName r i = path_join [baseDirectory r, filenameFormat r i]"

definition errOutput :: "string \<Rightarrow> host \<Rightarrow> host" where
  "errOutput m h = say ErrorL m h"

text \<open>Closing a file only matters for what it reports.\<close>

definition os_close :: "string \<Rightarrow> host \<Rightarrow> io_error option" where
  "os_close p h = map_option IoErr (faults h (OpClose p))"

section \<open>Creating the files\<close>

fun create_from :: "RotatingLogger \<Rightarrow> nat list \<Rightarrow> host \<Rightarrow> io_error option \<times> host" where
  "create_from r [] h = (None, h)"
| "create_from r (i # is) h =
     (case os_open_create (instanceFileName r i) h of
        (Some e, h1) \<Rightarrow> (Some e, h1)
      | (None, h1) \<Rightarrow>
          (case os_close (instanceFileName r i) h1 of
             Some e \<Rightarrow> (Some e, h1)
           | None \<Rightarrow> create_from r is h1))"

definition Init :: "RotatingLogger \<Rightarrow> host \<Rightarrow> io_error option \<times> host" where
  "Init r h = create_from r [1..<logFilesCount r + 1] h"

section \<open>Rotation\<close>

text \<open>The renaming loop, from instance \<open>i\<close> down to 2.\<close>

fun rename_down :: "RotatingLogger \<Rightarrow> nat \<Rightarrow> host \<Rightarrow> string option \<times> host" where
  "rename_down r i h =
     (if i < 2 then (None, h)
      else
        (case os_rename (instanceFileName r (i - 1)) (instanceFileName r i) h of
           (Some (IoErr e), h1) \<Rightarrow> (Some (''error moving '' @ CHR 0x27 # instanceFileName r (i - 1) @ CHR 0x27 # '' to '' @ CHR 0x27
               # instanceFileName r i @ CHR 0x27 # '': '' @ e), h1)
         | (_, h1) \<Rightarrow> rename_down r (i - 1) h1))"

declare rename_down.simps [simp del]

definition performLogRotation :: "RotatingLogger \<Rightarrow> host \<Rightarrow> string option \<times> host" where
  "performLogRotation r h =
     (case os_remove (instanceFileName r (logFilesCount r)) h of
        (Some (IoErr e), h1) \<Rightarrow> (Some (''error deleting '' @ CHR 0x27 # instanceFileName r (logFilesCount r) @ CHR 0x27 # '': '' @ e), h1)
      | (_, h1) \<Rightarrow>
          (case rename_down r (logFilesCount r) h1 of
             (Some e, h2) \<Rightarrow> (Some e, h2)
           | (None, h2) \<Rightarrow>
               (case os_write (instanceFileName r 1) [] h2 of
                  (Some e, h3) \<Rightarrow> (Some (''error creating log file ('' @ CHR 0x27 # instanceFileName r 1 @ CHR 0x27 # ''): '' @ err_text e), h3)
                | (None, h3) \<Rightarrow> (None, h3))))"

section \<open>The last line\<close>

text \<open>The backwards loop over what is before the current position, nearest first.\<close>

fun last_line_back :: "string \<Rightarrow> string \<Rightarrow> string" where
  "last_line_back [] lineCharsBackwards = lineCharsBackwards"
| "last_line_back (c # cs) lineCharsBackwards =
     (if c = newline \<or> c = CHR 0x0D
      then (if lineCharsBackwards \<noteq> [] then lineCharsBackwards
            else last_line_back cs lineCharsBackwards)
      else last_line_back cs (lineCharsBackwards @ [c]))"

definition last_line :: "string \<Rightarrow> string" where
  "last_line content = rev (last_line_back (rev content) [])"

definition getLogLastLine :: "string \<Rightarrow> host \<Rightarrow> (io_error, string) result" where
  "getLogLastLine p h = map_sum id last_line (os_read p h)"

definition cleaned :: "string \<Rightarrow> string" where
  "cleaned s = replace_char newline '' '' (trim_space s)"

definition checkIfMessageShouldBeAppended ::
    "string \<Rightarrow> string \<Rightarrow> bool \<Rightarrow> host \<Rightarrow> (io_error, bool) result" where
  "checkIfMessageShouldBeAppended p currentLogLine deduplicateLine h =
     (if \<not> deduplicateLine then Inr True
      else map_sum id (\<lambda>lastLogLine. cleaned currentLogLine \<noteq> cleaned lastLogLine) (getLogLastLine p h))"

definition checkIfLogFileSizeExceeded ::
    "RotatingLogger \<Rightarrow> nat \<Rightarrow> string \<Rightarrow> host \<Rightarrow> (io_error, bool) result" where
  "checkIfLogFileSizeExceeded r messageLineLength p h =
     (case os_stat p h of
        Some e \<Rightarrow> Inl e
      | None \<Rightarrow>
          Inr (maxFileBytes r \<le> int (length (file_or_empty h p)) + int messageLineLength))"

section \<open>Append\<close>

text \<open>
  The deferred functions close the file that the variable holds when \<open>Append\<close> returns: after a
  rotation both of them close the new file, so the second one always reports an error (or both do,
  when the new file could not be opened).
\<close>

definition deferred_close :: "string \<Rightarrow> host \<Rightarrow> host" where
  "deferred_close p h =
     (case os_close p h of
        None \<Rightarrow> h
      | Some e \<Rightarrow> errOutput (''Error: '' @ err_text e @ '', Failed to close log file: '' @ p) h)"

definition failed_close :: "string \<Rightarrow> string \<Rightarrow> host \<Rightarrow> host" where
  "failed_close e p h = errOutput (''Error: '' @ e @ '', Failed to close log file: '' @ p) h"

definition already_closed :: "string \<Rightarrow> string" where
  "already_closed p = ''close '' @ p @ '': file already closed''"

definition write_line :: "string \<Rightarrow> string \<Rightarrow> host \<Rightarrow> host" where
  "write_line p line h =
     (case os_append p line h of
        (None, h1) \<Rightarrow> h1
      | (Some e, h1) \<Rightarrow> errOutput (''Failed to write to log file: '' @ err_text e) h1)"

definition log_opt :: "string \<Rightarrow> string option \<Rightarrow> host \<Rightarrow> host" where
  "log_opt m e h = (case e of None \<Rightarrow> h | Some t \<Rightarrow> errOutput (m @ t) h)"

definition append_rotating :: "RotatingLogger \<Rightarrow> string \<Rightarrow> host \<Rightarrow> host" where
  "append_rotating r line h =
     (let p = instanceFileName r 1;
          h1 = deferred_close p h
      in (case performLogRotation r h1 of
            (e, h2) \<Rightarrow>
              let h3 = log_opt ''Failed to perform log-rotation: '' e h2
              in (case os_open_create p h3 of
                    (Some e, h4) \<Rightarrow>
                      failed_close ''invalid argument'' p (errOutput (''Failed to open log file: '' @ err_text e) h4)
                  | (None, h4) \<Rightarrow> failed_close (already_closed p) p (deferred_close p (write_line p line h4)))))"

definition Append :: "RotatingLogger \<Rightarrow> string \<Rightarrow> bool \<Rightarrow> host \<Rightarrow> host" where
  "Append r message deduplicateLine h =
     (let line = trim_space message @ [newline];
          p = instanceFileName r 1
      in (case os_open_create p h of
            (Some e, h1) \<Rightarrow> errOutput (''Failed to open log file: '' @ err_text e) h1
          | (None, h1) \<Rightarrow>
              (case checkIfMessageShouldBeAppended p line deduplicateLine h1 of
                 Inl e \<Rightarrow>
                   deferred_close p
                     (errOutput (''Failed to validate the currentLog and the lastLog line ''
                                 @ err_text e) h1)
               | Inr False \<Rightarrow> deferred_close p h1
               | Inr True \<Rightarrow>
                   (case checkIfLogFileSizeExceeded r (length line) p h1 of
                      Inl e \<Rightarrow>
                        deferred_close p (errOutput (''Failed to validate log file size: '' @ err_text e) h1)
                    | Inr False \<Rightarrow> deferred_close p (write_line p line h1)
                    | Inr True \<Rightarrow> append_rotating r line h1))))"

section \<open>Rotation on a host without faults\<close>

definition rot_ok :: "RotatingLogger \<Rightarrow> host \<Rightarrow> bool" where
  "rot_ok r h \<longleftrightarrow>
     healthy_host h \<and> 1 \<le> logFilesCount r \<and> inj_on (instanceFileName r) {1..logFilesCount r}"

lemma instance_eq:
  "rot_ok r h \<Longrightarrow> i \<in> {1..logFilesCount r} \<Longrightarrow> j \<in> {1..logFilesCount r} \<Longrightarrow>
   instanceFileName r i = instanceFileName r j \<longleftrightarrow> i = j"
  by (auto simp: rot_ok_def inj_on_eq_iff)

lemma instance_ne:
  "rot_ok r h \<Longrightarrow> i \<in> {1..logFilesCount r} \<Longrightarrow> j \<in> {1..logFilesCount r} \<Longrightarrow> i \<noteq> j \<Longrightarrow>
   instanceFileName r i \<noteq> instanceFileName r j"
  using instance_eq by blast

lemma rot_ok_files [simp]: "rot_ok r (h\<lparr>files := f\<rparr>) = rot_ok r h"
  "rot_ok r (h\<lparr>logs := l\<rparr>) = rot_ok r h"
  by (simp_all add: rot_ok_def)

lemma healthy_rename:
  assumes "healthy_host h" "files h q = None" "p \<noteq> q"
  shows "os_rename p q h = (case files h p of None \<Rightarrow> (Some NotExist, h)
           | Some c \<Rightarrow> (None, h\<lparr>files := (files h)(p := None, q := files h p)\<rparr>))"
  using assms by (auto simp: os_rename_def split: option.splits)

lemma rename_down_files:
  assumes "rot_ok r h" "1 \<le> i" "i \<le> logFilesCount r" "files h (instanceFileName r i) = None"
  shows "\<exists>f. rename_down r i h = (None, h\<lparr>files := f\<rparr>)
    \<and> (\<forall>j \<in> {1..i}. f (instanceFileName r j) =
          (if j = 1 then None else files h (instanceFileName r (j - 1))))
    \<and> (\<forall>p. p \<notin> instanceFileName r ` {1..i} \<longrightarrow> f p = files h p)"
  using assms
proof (induction i arbitrary: h)
  case (Suc i)
  let ?n = "instanceFileName r"
  show ?case
  proof (cases "Suc i < 2")
    case True
    then show ?thesis using Suc.prems
      by (intro exI [of _ "files h"]) (auto simp: rename_down.simps [of r "Suc 0"])
  next
    case False
    have ne: "?n i \<noteq> ?n (Suc i)" using instance_eq [OF Suc.prems(1)] Suc.prems False by simp
    define h1 where "h1 = h\<lparr>files := (files h)(?n i := None, ?n (Suc i) := files h (?n i))\<rparr>"
    have ok: "rot_ok r h1" using Suc.prems(1) by (simp add: h1_def)
    have step: "rename_down r (Suc i) h = rename_down r i h1"
    proof (cases "files h (?n i)")
      case None
      then have "h1 = h" using Suc.prems(4) by (simp add: h1_def fun_upd_idem)
      then show ?thesis using healthy_rename [OF _ Suc.prems(4) ne] Suc.prems(1) None False
        by (simp add: rename_down.simps [of r "Suc i"] rot_ok_def)
    next
      case (Some c)
      then show ?thesis using healthy_rename [OF _ Suc.prems(4) ne] Suc.prems(1) False
        by (simp add: rename_down.simps [of r "Suc i"] rot_ok_def h1_def)
    qed
    have "files h1 (?n i) = None" using ne by (simp add: h1_def)
    then obtain f where f: "rename_down r i h1 = (None, h1\<lparr>files := f\<rparr>)"
      "\<forall>j \<in> {1..i}. f (?n j) = (if j = 1 then None else files h1 (?n (j - 1)))"
      "\<forall>p. p \<notin> ?n ` {1..i} \<longrightarrow> f p = files h1 p"
      using Suc.IH [OF ok] Suc.prems False by auto
    have out: "?n (Suc i) \<notin> ?n ` {1..i}"
      using instance_eq [OF Suc.prems(1)] Suc.prems(3) by force
    have "f (?n j) = (if j = 1 then None else files h (?n (j - 1)))" if j: "j \<in> {1..Suc i}" for j
    proof (cases "j = Suc i")
      case True
      then show ?thesis using f(3) out False by (simp add: h1_def)
    next
      case False
      have "?n (j - 1) \<noteq> ?n i \<and> ?n (j - 1) \<noteq> ?n (Suc i)" if "j \<noteq> 1"
        by (intro conjI instance_ne [OF Suc.prems(1)]) (use False Suc.prems(3) j that in auto)
      then show ?thesis using f(2) j False by (auto simp: h1_def)
    qed
    moreover have "f p = files h p" if "p \<notin> ?n ` {1..Suc i}" for p
      using f(3) that False by (auto simp: h1_def atLeastAtMostSuc_conv)
    ultimately show ?thesis using step f(1) by (intro exI [of _ f]) (simp add: h1_def)
  qed
qed simp

lemma rotation_files:
  assumes "rot_ok r h"
  shows "\<exists>f. performLogRotation r h = (None, h\<lparr>files := f\<rparr>)
    \<and> f (instanceFileName r 1) = Some []
    \<and> (\<forall>j \<in> {2..logFilesCount r}. f (instanceFileName r j) = files h (instanceFileName r (j - 1)))
    \<and> (\<forall>p. p \<notin> instanceFileName r ` {1..logFilesCount r} \<longrightarrow> f p = files h p)"
proof -
  let ?n = "instanceFileName r" and ?c = "logFilesCount r"
  have c: "1 \<le> ?c" "healthy_host h" using assms by (simp_all add: rot_ok_def)
  define h1 where "h1 = h\<lparr>files := (files h)(?n ?c := None)\<rparr>"
  obtain e where rm: "os_remove (?n ?c) h = (e, h1)" "e = None \<or> e = Some NotExist"
    using c by (cases "files h (?n ?c) = None") (auto simp: h1_def fun_upd_idem)
  have ok1: "rot_ok r h1" using assms by (simp add: h1_def)
  obtain f where f: "rename_down r ?c h1 = (None, h1\<lparr>files := f\<rparr>)"
    "\<forall>j \<in> {1..?c}. f (?n j) = (if j = 1 then None else files h1 (?n (j - 1)))"
    "\<forall>p. p \<notin> ?n ` {1..?c} \<longrightarrow> f p = files h1 p"
    using rename_down_files [OF ok1 c(1)] by (auto simp: h1_def)
  let ?f = "f(?n 1 \<mapsto> [])"
  have "performLogRotation r h = (None, h\<lparr>files := ?f\<rparr>)"
    using rm f(1) c(2) by (auto simp: performLogRotation_def h1_def)
  moreover have "?f (?n j) = files h (?n (j - 1))" if "j \<in> {2..?c}" for j
  proof -
    have "?n j \<noteq> ?n 1" "?n (j - 1) \<noteq> ?n ?c"
      by (rule instance_ne [OF assms]; use that in auto)+
    then show ?thesis using that f(2) by (auto simp: h1_def)
  qed
  moreover have "?f p = files h p" if "p \<notin> ?n ` {1..?c}" for p
    using that f(3) c by (auto simp: h1_def)
  ultimately show ?thesis by (intro exI [of _ ?f]) auto
qed

text \<open>What a reader sees who reads the instances from the oldest to the newest.\<close>

definition log_stream :: "RotatingLogger \<Rightarrow> host \<Rightarrow> string" where
  "log_stream r h = concat (map (\<lambda>i. file_or_empty h (instanceFileName r i)) (rev [1..<logFilesCount r + 1]))"

definition entry :: "string \<Rightarrow> string" where
  "entry message = trim_space message @ [newline]"

lemma rotation_stream:
  assumes "rot_ok r h" "performLogRotation r h = (None, h')"
  shows "log_stream r h = file_or_empty h (instanceFileName r (logFilesCount r)) @ log_stream r h'"
proof -
  let ?n = "instanceFileName r" and ?c = "logFilesCount r"
  obtain f where f: "h' = h\<lparr>files := f\<rparr>" "f (?n 1) = Some []"
    "\<forall>j \<in> {2..?c}. f (?n j) = files h (?n (j - 1))"
    using rotation_files [OF assms(1)] assms(2) by auto
  have c: "1 \<le> ?c" using assms(1) by (simp add: rot_ok_def)
  have up: "[2..<?c + 1] = map Suc [1..<?c]" by (simp add: map_Suc_upt numeral_2_eq_2)
  have "log_stream r h' = concat (map (\<lambda>i. file_or_empty h' (?n i)) (rev [2..<?c + 1]))"
    using c f(1,2) upt_conv_Cons [of 1 "?c + 1"]
    by (simp add: log_stream_def file_or_empty_def numeral_2_eq_2)
  also have "map (\<lambda>i. file_or_empty h' (?n i)) (rev [2..<?c + 1])
      = map (\<lambda>i. file_or_empty h (?n i)) (rev [1..<?c])"
    unfolding up using f(1,3) by (auto simp: rev_map file_or_empty_def)
  finally show ?thesis using c by (simp add: log_stream_def)
qed

section \<open>Appending on a host without faults\<close>

declare One_nat_def [simp del]

lemma healthy_open_append [simp]:
  assumes "healthy_host h"
  shows "os_open_create p h = (None, h\<lparr>files := (files h)(p \<mapsto> file_or_empty h p)\<rparr>)"
    and "os_append p c h = (None, h\<lparr>files := (files h)(p \<mapsto> file_or_empty h p @ c)\<rparr>)"
    and "os_close p h = None"
  using assms
  by (auto simp: os_open_create_def os_append_def os_close_def file_or_empty_def fun_upd_idem
      split: option.splits)

lemma file_or_empty_upd [simp]:
  "file_or_empty (h\<lparr>files := f(p \<mapsto> c)\<rparr>) q = (if q = p then c else file_or_empty (h\<lparr>files := f\<rparr>) q)"
  by (simp add: file_or_empty_def)

lemma file_or_empty_logs [simp]: "file_or_empty (errOutput m h) p = file_or_empty h p"
  by (simp add: errOutput_def say_def file_or_empty_def)

text \<open>The three ways an append can go.\<close>

definition duplicate :: "RotatingLogger \<Rightarrow> string \<Rightarrow> bool \<Rightarrow> host \<Rightarrow> bool" where
  "duplicate r message dedup h \<longleftrightarrow>
     dedup \<and> cleaned (entry message) = cleaned (last_line (file_or_empty h (instanceFileName r 1)))"

definition too_big :: "RotatingLogger \<Rightarrow> string \<Rightarrow> host \<Rightarrow> bool" where
  "too_big r message h \<longleftrightarrow>
     maxFileBytes r \<le> int (length (file_or_empty h (instanceFileName r 1))) + int (length (entry message))"

lemma Append_cases:
  fixes r h message
  defines "p \<equiv> instanceFileName r 1"
  defines "h1 \<equiv> h\<lparr>files := (files h)(p \<mapsto> file_or_empty h p)\<rparr>"
  assumes "rot_ok r h"
  shows "duplicate r message dedup h \<Longrightarrow> Append r message dedup h = h1"
    and "\<not> duplicate r message dedup h \<Longrightarrow> \<not> too_big r message h \<Longrightarrow>
         Append r message dedup h = h\<lparr>files := (files h)(p \<mapsto> file_or_empty h p @ entry message)\<rparr>"
    and "\<not> duplicate r message dedup h \<Longrightarrow> too_big r message h \<Longrightarrow>
         Append r message dedup h = append_rotating r (entry message) h1"
proof -
  have h: "healthy_host h" using assms(3) by (simp add: rot_ok_def)
  have h1: "healthy_host h1" "files h1 p = Some (file_or_empty h p)"
    "file_or_empty h1 p = file_or_empty h p"
    using h by (simp_all add: h1_def)
  have check: "checkIfMessageShouldBeAppended p (entry message) dedup h1 = Inr (\<not> duplicate r message dedup h)"
    using h1 by (simp add: checkIfMessageShouldBeAppended_def getLogLastLine_def duplicate_def p_def)
  have size: "checkIfLogFileSizeExceeded r (length (entry message)) p h1 = Inr (too_big r message h)"
    using h1 by (simp add: checkIfLogFileSizeExceeded_def too_big_def p_def)
  have app: "Append r message dedup h =
     (if duplicate r message dedup h then h1
      else if too_big r message h then append_rotating r (entry message) h1
      else write_line p (entry message) h1)"
    using h h1(1) check size
    by (auto simp: Append_def Let_def deferred_close_def write_line_def
        simp flip: entry_def p_def h1_def)
  have "write_line p (entry message) h1 = h\<lparr>files := (files h)(p \<mapsto> file_or_empty h p @ entry message)\<rparr>"
    using h1 by (simp add: write_line_def) (simp add: h1_def)
  with app show "duplicate r message dedup h \<Longrightarrow> Append r message dedup h = h1"
    and "\<not> duplicate r message dedup h \<Longrightarrow> \<not> too_big r message h \<Longrightarrow>
         Append r message dedup h = h\<lparr>files := (files h)(p \<mapsto> file_or_empty h p @ entry message)\<rparr>"
    and "\<not> duplicate r message dedup h \<Longrightarrow> too_big r message h \<Longrightarrow>
         Append r message dedup h = append_rotating r (entry message) h1"
    by simp_all
qed

lemma append_rotating_files:
  assumes "rot_ok r h"
  shows "\<exists>f. performLogRotation r h = (None, h\<lparr>files := f\<rparr>)
    \<and> f (instanceFileName r 1) = Some []
    \<and> append_rotating r line h
       = failed_close (already_closed (instanceFileName r 1)) (instanceFileName r 1) (h\<lparr>files := f(instanceFileName r 1 \<mapsto> line)\<rparr>)"
proof -
  have h: "healthy_host h" using assms by (simp add: rot_ok_def)
  obtain f where f: "performLogRotation r h = (None, h\<lparr>files := f\<rparr>)"
    "f (instanceFileName r 1) = Some []"
    using rotation_files [OF assms] by blast
  have "file_or_empty (h\<lparr>files := f\<rparr>) (instanceFileName r 1) = []"
    using f(2) by (simp add: file_or_empty_def)
  then show ?thesis using f h
    by (intro exI [of _ f])
       (simp add: append_rotating_def log_opt_def write_line_def deferred_close_def Let_def)
qed

text \<open>The older instances, and the first one at the end.\<close>

definition older :: "RotatingLogger \<Rightarrow> host \<Rightarrow> string" where
  "older r h = concat (map (\<lambda>i. file_or_empty h (instanceFileName r i)) (rev [2..<logFilesCount r + 1]))"

lemma log_stream_older:
  "rot_ok r h \<Longrightarrow> log_stream r h = older r h @ file_or_empty h (instanceFileName r 1)"
  using upt_conv_Cons [of 1 "logFilesCount r + 1"]
  by (simp add: log_stream_def older_def rot_ok_def numeral_2_eq_2)

lemma older_first_upd:
  "rot_ok r h \<Longrightarrow> older r (h\<lparr>files := f(instanceFileName r 1 \<mapsto> c)\<rparr>) = older r (h\<lparr>files := f\<rparr>)"
proof -
  assume ok: "rot_ok r h"
  have "instanceFileName r i \<noteq> instanceFileName r 1" if "i \<in> set (rev [2..<logFilesCount r + 1])" for i
    by (rule instance_ne [OF ok]) (use that in auto)
  then show ?thesis unfolding older_def
    by (intro arg_cong [where f = concat] map_cong refl) simp
qed

lemma log_stream_first_upd:
  assumes "rot_ok r h"
  shows "log_stream r (h\<lparr>files := f(instanceFileName r 1 \<mapsto> c)\<rparr>) = older r (h\<lparr>files := f\<rparr>) @ c"
  using log_stream_older [of r "h\<lparr>files := f(instanceFileName r 1 \<mapsto> c)\<rparr>"] older_first_upd [OF assms] assms
  by simp

lemma rot_ok_failed_close [simp]: "rot_ok r (failed_close e p h) = rot_ok r h"
  by (simp add: failed_close_def errOutput_def say_def)

lemma log_stream_failed_close [simp]: "log_stream r (failed_close e p h) = log_stream r h"
  by (simp add: failed_close_def log_stream_def)

lemma append_extends:
  assumes "rot_ok r h" "\<not> duplicate r message dedup h"
  shows "log_stream r h @ entry message
       = (if too_big r message h then file_or_empty h (instanceFileName r (logFilesCount r)) else [])
         @ log_stream r (Append r message dedup h)"
proof -
  let ?p = "instanceFileName r 1"
  let ?h1 = "h\<lparr>files := (files h)(?p \<mapsto> file_or_empty h ?p)\<rparr>"
  have old: "older r h = older r (h\<lparr>files := files h\<rparr>)" by simp
  show ?thesis
  proof (cases "too_big r message h")
    case False
    then have "log_stream r (Append r message dedup h) = older r h @ file_or_empty h ?p @ entry message"
      using Append_cases(2) [OF assms(1,2) False] log_stream_first_upd [OF assms(1)] by simp
    then show ?thesis using False log_stream_older [OF assms(1)] by simp
  next
    case True
    have ok1: "rot_ok r ?h1" using assms(1) by simp
    obtain f where f: "performLogRotation r ?h1 = (None, ?h1\<lparr>files := f\<rparr>)"
      and f1: "f ?p = Some []" and f2: "append_rotating r (entry message) ?h1
       = failed_close (already_closed ?p) ?p (?h1\<lparr>files := f(?p \<mapsto> entry message)\<rparr>)"
      using append_rotating_files [OF ok1] by blast
    have empty: "file_or_empty (?h1\<lparr>files := f\<rparr>) ?p = []"
      using f1 by (simp add: file_or_empty_def)
    have "log_stream r (Append r message dedup h) = older r (?h1\<lparr>files := f\<rparr>) @ entry message"
      using Append_cases(3) [OF assms(1,2) True] f2 log_stream_first_upd [OF ok1] by simp
    also have "older r (?h1\<lparr>files := f\<rparr>) = log_stream r (?h1\<lparr>files := f\<rparr>)"
      using log_stream_older [of r "?h1\<lparr>files := f\<rparr>"] empty assms(1) by simp
    finally have 1: "log_stream r (Append r message dedup h) = log_stream r (?h1\<lparr>files := f\<rparr>) @ entry message" .
    have 2: "log_stream r ?h1 = log_stream r h"
      using log_stream_first_upd [OF assms(1), of "files h"] log_stream_older [OF assms(1)] by simp
    have 3: "file_or_empty ?h1 (instanceFileName r (logFilesCount r))
        = file_or_empty h (instanceFileName r (logFilesCount r))" by simp
    show ?thesis using True 1 2 3 rotation_stream [OF ok1 f] by simp
  qed
qed

section \<open>The invariant of the log\<close>

definition bounded_file :: "RotatingLogger \<Rightarrow> string \<Rightarrow> bool" where
  "bounded_file r c \<longleftrightarrow> c = [] \<or> int (length c) < maxFileBytes r \<or> (\<exists>m. c = entry m)"

definition whole_lines :: "string \<Rightarrow> bool" where
  "whole_lines c \<longleftrightarrow> c = [] \<or> last c = newline"

definition log_inv :: "RotatingLogger \<Rightarrow> host \<Rightarrow> bool" where
  "log_inv r h \<longleftrightarrow> rot_ok r h \<and>
     (\<forall>i \<in> {1..logFilesCount r}.
        bounded_file r (file_or_empty h (instanceFileName r i))
        \<and> whole_lines (file_or_empty h (instanceFileName r i)))"

lemma whole_entry [simp]: "whole_lines (entry m)" "whole_lines (c @ entry m)"
  by (simp_all add: whole_lines_def entry_def)

text \<open>
  A property of the contents of a file that holds of every instance is kept by an append, if it holds of the empty file and
  of the entry, and of what fits the limit when the entry is added.
\<close>

definition all_files :: "(string \<Rightarrow> bool) \<Rightarrow> RotatingLogger \<Rightarrow> host \<Rightarrow> bool" where
  "all_files P r h \<longleftrightarrow> rot_ok r h \<and> (\<forall>i \<in> {1..logFilesCount r}. P (file_or_empty h (instanceFileName r i)))"

lemma all_files_first:
  assumes "all_files P r h" "P c"
  shows "all_files P r (h\<lparr>files := (files h)(instanceFileName r 1 \<mapsto> c)\<rparr>)"
proof -
  have "file_or_empty (h\<lparr>files := (files h)(instanceFileName r 1 \<mapsto> c)\<rparr>) p
      = (if p = instanceFileName r 1 then c else file_or_empty h p)" for p
    by (simp add: file_or_empty_def)
  with assms show ?thesis by (simp add: all_files_def)
qed

lemma all_files_rotation:
  assumes all: "all_files P r h" and "P []" and rot: "performLogRotation r h = (None, h')"
  shows "all_files P r h'"
proof -
  let ?n = "instanceFileName r"
  have ok: "rot_ok r h" using all by (simp add: all_files_def)
  obtain f where f: "h' = h\<lparr>files := f\<rparr>" "f (?n 1) = Some []"
    "\<forall>j \<in> {2..logFilesCount r}. f (?n j) = files h (?n (j - 1))"
    using rotation_files [OF ok] rot by auto
  have "P (file_or_empty h' (?n j))" if j: "j \<in> {1..logFilesCount r}" for j
  proof (cases "j = 1")
    case True
    with f assms(2) show ?thesis by (simp add: file_or_empty_def)
  next
    case False
    then have "j \<in> {2..logFilesCount r}" "j - 1 \<in> {1..logFilesCount r}" using j by auto
    moreover from this have "file_or_empty h' (?n j) = file_or_empty h (?n (j - 1))"
      using f by (simp add: file_or_empty_def)
    ultimately show ?thesis using all by (simp add: all_files_def)
  qed
  moreover have "rot_ok r h'" using ok f(1) by simp
  ultimately show ?thesis by (simp add: all_files_def)
qed

lemma all_files_Append:
  assumes all: "all_files P r h" and P: "P []" "P (entry message)"
    and grow: "\<And>c. P c \<Longrightarrow> int (length c) + int (length (entry message)) < maxFileBytes r \<Longrightarrow> P (c @ entry message)"
  shows "all_files P r (Append r message dedup h)"
proof -
  let ?n = "instanceFileName r"
  let ?h1 = "h\<lparr>files := (files h)(?n 1 \<mapsto> file_or_empty h (?n 1))\<rparr>"
  have ok: "rot_ok r h" "1 \<in> {1..logFilesCount r}" using all by (auto simp: all_files_def rot_ok_def)
  then have first: "P (file_or_empty h (?n 1))" using all by (simp add: all_files_def)
  then have all1: "all_files P r ?h1" using all by (intro all_files_first)
  consider "duplicate r message dedup h" | "\<not> duplicate r message dedup h" "\<not> too_big r message h"
    | "\<not> duplicate r message dedup h" "too_big r message h" by blast
  then show ?thesis
  proof cases
    case 1
    with all1 Append_cases(1) [OF ok(1) 1] show ?thesis by simp
  next
    case 2
    then have "P (file_or_empty h (?n 1) @ entry message)" using grow [OF first] by (simp add: too_big_def)
    with all_files_first [OF all] Append_cases(2) [OF ok(1) 2] show ?thesis by simp
  next
    case 3
    have ok1: "rot_ok r ?h1" using ok(1) by simp
    obtain f where f: "performLogRotation r ?h1 = (None, ?h1\<lparr>files := f\<rparr>)"
      "append_rotating r (entry message) ?h1 = failed_close (already_closed (?n 1)) (?n 1) (?h1\<lparr>files := f(?n 1 \<mapsto> entry message)\<rparr>)"
      using append_rotating_files [OF ok1] by blast
    have "all_files P r (?h1\<lparr>files := f(?n 1 \<mapsto> entry message)\<rparr>)"
      using all_files_first [OF all_files_rotation [OF all1 P(1) f(1)] P(2)] by simp
    then show ?thesis using Append_cases(3) [OF ok(1) 3] f(2)
      by (simp add: all_files_def failed_close_def file_or_empty_def errOutput_def say_def)
  qed
qed

lemma log_inv_all: "log_inv r h \<longleftrightarrow> all_files (\<lambda>c. bounded_file r c \<and> whole_lines c) r h"
  by (auto simp: log_inv_def all_files_def)

lemma log_inv_Append [inv_intros]: "log_inv r h \<Longrightarrow> log_inv r (Append r message dedup h)"
  unfolding log_inv_all
  by (rule all_files_Append) (auto simp: bounded_file_def whole_lines_def entry_def)

text \<open>All instances together are at most as long as that many of the longest.\<close>

lemma stream_length:
  assumes "all_files (\<lambda>c. int (length c) \<le> b) r h"
  shows "int (length (log_stream r h)) \<le> int (logFilesCount r) * b"
proof -
  have "int (length (concat (map (\<lambda>i. file_or_empty h (instanceFileName r i)) is))) \<le> int (length is) * b"
    if "set is \<subseteq> {1..logFilesCount r}" for "is"
    using that assms by (induction "is") (auto simp: all_files_def distrib_right intro!: add_mono)
  moreover have "set (rev [1..<logFilesCount r + 1]) \<subseteq> {1..logFilesCount r}" by auto
  ultimately have "int (length (log_stream r h)) \<le> int (length (rev [1..<logFilesCount r + 1])) * b"
    unfolding log_stream_def by blast
  then show ?thesis by simp
qed

lemma suffix_first_entry:
  assumes "rot_ok r h" "\<not> duplicate r m d h"
  shows "suffix (entry m) (log_stream r (Append r m d h))"
proof -
  let ?p = "instanceFileName r 1"
  have ok1: "rot_ok r (h\<lparr>files := (files h)(?p \<mapsto> file_or_empty h ?p)\<rparr>)" using assms(1) by simp
  show ?thesis
  proof (cases "too_big r m h")
    case True
    then show ?thesis
      using Append_cases(3) [OF assms True] append_rotating_files [OF ok1, of "entry m"]
        log_stream_first_upd [OF ok1]
      by (auto simp: suffix_appendI)
  next
    case False
    then show ?thesis
      using Append_cases(2) [OF assms False] log_stream_first_upd [OF assms(1), of "files h"]
      by (simp add: suffix_appendI)
  qed
qed

section \<open>The interface logHandler\<close>

text \<open>
  What the writers of audit events rely on: a message that is appended without deduplication ends
  up as an entry at the end of the log; only the front of the log may be dropped.
\<close>

locale log_handler =
  fixes append :: "string \<Rightarrow> bool \<Rightarrow> 's \<Rightarrow> 's"
    and stream :: "'s \<Rightarrow> string"
    and ok :: "'s \<Rightarrow> bool"
  assumes append_entry: "ok s \<Longrightarrow> suffix (stream (append m False s)) (stream s @ entry m)"
    and append_last: "ok s \<Longrightarrow> suffix (entry m) (stream (append m False s))"
    and append_ok: "ok s \<Longrightarrow> ok (append m d s)"
begin

definition append_all :: "string list \<Rightarrow> 's \<Rightarrow> 's" where
  "append_all ms s = foldl (\<lambda>t m. append m False t) s ms"

lemma append_all_ok: "ok s \<Longrightarrow> ok (append_all ms s)"
  unfolding append_all_def by (induction ms arbitrary: s) (simp_all add: append_ok)

lemma append_all_entries:
  "ok s \<Longrightarrow> suffix (stream (append_all ms s)) (stream s @ concat (map entry ms))"
  unfolding append_all_def
proof (induction ms arbitrary: s)
  case (Cons m ms)
  have "suffix (stream (foldl (\<lambda>t m. append m False t) (append m False s) ms))
      (stream (append m False s) @ concat (map entry ms))"
    using Cons append_ok by blast
  moreover have "suffix (stream (append m False s) @ concat (map entry ms))
      ((stream s @ entry m) @ concat (map entry ms))"
    using append_entry [OF Cons.prems] by (auto simp: suffix_def)
  ultimately show ?case by (auto dest: suffix_order.trans)
qed simp

lemma append_all_last:
  "ok s \<Longrightarrow> suffix (entry m) (stream (append_all (ms @ [m]) s))"
  using append_last append_all_ok by (simp add: append_all_def)

end

lemma not_dup_False [simp]: "\<not> duplicate r m False h"
  by (simp add: duplicate_def)

interpretation rotating: log_handler "Append r" "log_stream r" "log_inv r" for r
proof
  fix h m d
  assume inv: "log_inv r h"
  then have ok: "rot_ok r h" by (simp add: log_inv_def)
  show "suffix (log_stream r (Append r m False h)) (log_stream r h @ entry m)"
    using append_extends [OF ok not_dup_False] by (metis suffixI)
  show "suffix (entry m) (log_stream r (Append r m False h))"
    by (rule suffix_first_entry [OF ok not_dup_False])
  show "log_inv r (Append r m d h)" by (rule log_inv_Append [OF inv])
qed

section \<open>Properties\<close>

definition example_logger :: RotatingLogger where
  "example_logger = NewRotatingLogger ''/log'' (\<lambda>i. ''audit'' @ nat_digits i @ ''.json'') 8 2"

lemma example_names:
  "instanceFileName example_logger 1 = ''/log/audit1.json''"
  "instanceFileName example_logger 2 = ''/log/audit2.json''"
  by code_simp+

lemma two_instances: "{1..(2::nat)} = {1, 2}"
  by auto

lemma example_log_inv: "log_inv example_logger copy_host"
proof -
  have "logFilesCount example_logger = 2"
    by (simp add: example_logger_def NewRotatingLogger_def)
  moreover have "rot_ok example_logger copy_host"
    using calculation example_names
    by (simp add: rot_ok_def healthy_host_def copy_host_def two_instances inj_on_def)
  ultimately show ?thesis
    using example_names
    by (auto simp: log_inv_def two_instances copy_host_def file_or_empty_def bounded_file_def whole_lines_def)
qed

lemma example_rot_ok: "rot_ok example_logger copy_host"
  using example_log_inv by (simp add: log_inv_def)

text \<open>
  C6. The log is an append-only sequence with bounded retention: an append that is not suppressed
  as a duplicate adds exactly its entry at the end of what the instances hold together, and what is
  lost from the front is either nothing or, at a rotation, exactly the oldest instance.
\<close>

theorem append_extends_log:
  assumes "rot_ok r h" "\<not> duplicate r message dedup h"
  shows "log_stream r h @ entry message
       = (if too_big r message h then file_or_empty h (instanceFileName r (logFilesCount r)) else [])
         @ log_stream r (Append r message dedup h)"
  using assms by (rule append_extends)

lemma append_extends_log_witness:
  "log_stream example_logger copy_host @ entry ''up''
   = log_stream example_logger (Append example_logger ''up'' False copy_host)"
proof -
  have "\<not> too_big example_logger ''up'' copy_host" by code_simp
  then show ?thesis using append_extends_log [OF example_rot_ok not_dup_False, of "''up''"] by simp
qed

text \<open>
  Whatever is appended, every instance of the log stays below the limit or holds a single entry,
  and consists of whole lines.
\<close>

theorem log_files_bounded:
  assumes "log_inv r h"
  shows "log_inv r (foldl (\<lambda>s e. Append r (fst e) (snd e) s) h es)"
  using assms by (induction es arbitrary: h) (simp_all add: log_inv_Append)

lemma log_files_bounded_witness:
  "log_inv example_logger
     (foldl (\<lambda>s e. Append example_logger (fst e) (snd e) s) copy_host [(''a'', True), (''b'', False)])"
  by (rule log_files_bounded [OF example_log_inv])

text \<open>
  C7. The space the log takes is bounded: however many messages of at most \<open>b\<close> bytes are appended to an empty log, its
  instances together never hold more than their number times the limit, or times the longest message with its end of line
  where that is longer; with or without deduplication, and whatever is in the messages.
\<close>

theorem log_size_bounded:
  assumes "rot_ok r h" "log_stream r h = []" "list_all (\<lambda>e. length (fst e) \<le> b) es"
  shows "int (length (log_stream r (foldl (\<lambda>s e. Append r (fst e) (snd e) s) h es)))
    \<le> int (logFilesCount r) * max (maxFileBytes r - 1) (int b + 1)"
proof -
  let ?P = "\<lambda>c. int (length c) \<le> max (maxFileBytes r - 1) (int b + 1)"
  have "all_files ?P r h"
    using assms(1,2) by (auto simp: all_files_def log_stream_def)
  then have "all_files ?P r (foldl (\<lambda>s e. Append r (fst e) (snd e) s) h es)"
    using assms(3)
  proof (induction es arbitrary: h)
    case (Cons e es)
    have "length (trim_space (fst e)) \<le> b" using Cons.prems(2) length_trim_space [of "fst e"] by simp
    then have "all_files ?P r (Append r (fst e) (snd e) h)"
      using Cons.prems(1) by (intro all_files_Append) (auto simp: entry_def)
    with Cons show ?case by simp
  qed simp
  then show ?thesis by (rule stream_length)
qed

lemma log_size_bounded_witness:
  "length (log_stream example_logger
     (foldl (\<lambda>s e. Append example_logger (fst e) (snd e) s) copy_host [(''up'', False), (''down'', False), (''up'', True)])) \<le> 14"
proof -
  have "log_stream example_logger copy_host = []" by code_simp
  from log_size_bounded [OF example_rot_ok this, of 4 "[(''up'', False), (''down'', False), (''up'', True)]"]
  show ?thesis by (simp add: example_logger_def NewRotatingLogger_def)
qed

lemma last_line_terminated:
  assumes "t \<noteq> []" "newline \<notin> set t" "CHR 0x0D \<notin> set t" "whole_lines c"
  shows "last_line (c @ t @ [newline]) = t"
proof -
  have run: "last_line_back (u @ v) acc = last_line_back v (acc @ u)"
    if "newline \<notin> set u" "CHR 0x0D \<notin> set u" for u v acc
    using that by (induction u arbitrary: acc) auto
  have "last_line_back (rev t @ rev c) [] = rev t"
  proof (cases c rule: rev_cases)
    case Nil
    then show ?thesis using run [of "rev t" "[]" "[]"] assms by simp
  next
    case (snoc d x)
    then have "x = newline" using assms(4) by (simp add: whole_lines_def)
    then show ?thesis using run [of "rev t" "rev c" "[]"] assms snoc by simp
  qed
  then show ?thesis by (simp add: last_line_def)
qed

lemma cleaned_entry: "cleaned (entry m) = cleaned (trim_space m)"
  by (simp add: cleaned_def entry_def trim_space_line)

text \<open>
  C8. Deduplication: appending the message that was just appended, as a single line, leaves the files
  as they are.
\<close>

theorem append_dedup_idem:
  assumes "log_inv r h" "trim_space m \<noteq> []" "newline \<notin> set (trim_space m)"
    and "CHR 0x0D \<notin> set (trim_space m)"
  shows "files (Append r m True (Append r m dedup h)) = files (Append r m dedup h)"
proof -
  let ?p = "instanceFileName r 1" and ?h' = "Append r m dedup h"
  let ?h1 = "h\<lparr>files := (files h)(?p \<mapsto> file_or_empty h ?p)\<rparr>"
  have ok: "rot_ok r h" "rot_ok r ?h'" using assms(1) log_inv_Append by (auto simp: log_inv_def)
  then have ok1: "rot_ok r ?h1" by simp
  have one: "1 \<in> {1..logFilesCount r}" using ok(1) by (simp add: rot_ok_def)
  have fresh: "last_line (c @ entry m) = trim_space m" if "whole_lines c" for c
    using last_line_terminated [OF assms(2-4) that] by (simp add: entry_def)
  have wl: "whole_lines (file_or_empty h ?p)" using assms(1) one by (auto simp: log_inv_def)
  have "duplicate r m True ?h' \<and> files ?h' ?p \<noteq> None"
  proof -
    consider "duplicate r m dedup h" | "\<not> duplicate r m dedup h" "\<not> too_big r m h"
      | "\<not> duplicate r m dedup h" "too_big r m h" by blast
    then show ?thesis
    proof cases
      case 1
      then show ?thesis using Append_cases(1) [OF ok(1) 1] by (simp add: duplicate_def)
    next
      case 2
      then show ?thesis using Append_cases(2) [OF ok(1) 2] fresh [OF wl]
        by (simp add: duplicate_def cleaned_entry)
    next
      case 3
      have last: "last_line (entry m) = trim_space m"
        using fresh [of "[]"] by (simp add: whole_lines_def)
      obtain f where "?h' = failed_close (already_closed ?p) ?p (?h1\<lparr>files := f(?p \<mapsto> entry m)\<rparr>)"
        using Append_cases(3) [OF ok(1) 3] append_rotating_files [OF ok1, of "entry m"] by auto
      then have "files ?h' = f(?p \<mapsto> entry m)"
        by (simp add: failed_close_def errOutput_def say_def)
      then show ?thesis by (simp add: duplicate_def cleaned_entry file_or_empty_def last)
    qed
  qed
  then show ?thesis using Append_cases(1) [OF ok(2)]
    by (auto simp: fun_upd_idem file_or_empty_def)
qed

lemma append_dedup_idem_witness:
  "files (Append example_logger ''up '' True (Append example_logger ''up '' False copy_host))
   = files (Append example_logger ''up '' False copy_host)"
  by (rule append_dedup_idem [OF example_log_inv]) code_simp+

text \<open>
  An append that rotates a log without any fault always reports, on standard error, that closing
  the log failed: both deferred functions close the new file.
\<close>

theorem rotation_reports_close_error:
  assumes "rot_ok r h" "\<not> duplicate r message dedup h" "too_big r message h"
  shows "logs (Append r message dedup h) = logs h @
    [(ErrorL, ''Error: close '' @ instanceFileName r 1 @ '': file already closed, Failed to close log file: ''
       @ instanceFileName r 1)]"
proof -
  let ?p = "instanceFileName r 1"
  have ok1: "rot_ok r (h\<lparr>files := (files h)(?p \<mapsto> file_or_empty h ?p)\<rparr>)" using assms(1) by simp
  show ?thesis
    using Append_cases(3) [OF assms] append_rotating_files [OF ok1, of "entry message"]
    by (auto simp: failed_close_def already_closed_def errOutput_def say_def)
qed

lemma rotation_reports_close_error_witness:
  "logs (Append example_logger ''too long'' False copy_host) =
    [(ErrorL, ''Error: close /log/audit1.json: file already closed, Failed to close log file: /log/audit1.json'')]"
proof -
  have big: "too_big example_logger ''too long'' copy_host" by code_simp
  have "logs copy_host = []" by (simp add: copy_host_def)
  then show ?thesis
    using rotation_reports_close_error [OF example_rot_ok not_dup_False big] example_names by simp
qed

end
