(* ===== verification/Metrics_Audit.thy ===== *)
theory Metrics_Audit
  imports Log_Rotation
begin

text \<open>
  internal/metrics/audit.go: the wrapper that makes an HTTP handler leave an audit event for every
  request. A handler is modelled by what it writes for a request. The encoding of an event as JSON,
  the text of a status code and the format of a time are parameters.
\<close>

record auditEvent =
  Timestamp :: string
  Event :: string
  Pod :: string
  RemoteAddr :: string
  Endpoint :: string
  Result :: string
  StatusCode :: int
  QueuemanagerName :: string

datatype write_op = WriteHeader int | WriteBody string

record http_request =
  request_uri :: string
  remote_addr :: string

type_synonym handler_func = "http_request \<Rightarrow> write_op list"

text \<open>
  The wrapping writer passes everything on and remembers the last status code that was written
  explicitly; a handler that only writes a body leaves it at 0.
\<close>

fun captured_status :: "int \<Rightarrow> write_op list \<Rightarrow> int" where
  "captured_status code [] = code"
| "captured_status code (WriteHeader c # ops) = captured_status c ops"
| "captured_status code (WriteBody b # ops) = captured_status code ops"

definition audit_event ::
    "(int \<Rightarrow> string) \<Rightarrow> (int \<Rightarrow> string) \<Rightarrow> string \<Rightarrow> host \<Rightarrow> http_request \<Rightarrow> int \<Rightarrow> auditEvent" where
  "audit_event rfc3339 StatusText qmName h req code =
     \<lparr>Timestamp = rfc3339 (clock h), Event = ''metrics'',
      Pod = (case hostname h of None \<Rightarrow> [] | Some n \<Rightarrow> n),
      RemoteAddr = remote_addr req, Endpoint = request_uri req, Result = StatusText code,
      StatusCode = code, QueuemanagerName = qmName\<rparr>"

text \<open>
  \<open>newAuditingHandlerFuncWrapper\<close>: what the client is sent, and the host after the event was logged
  through the given logger.
\<close>

definition newAuditingHandlerFuncWrapper ::
    "(string \<Rightarrow> bool \<Rightarrow> host \<Rightarrow> host) \<Rightarrow> (auditEvent \<Rightarrow> (string, string) result) \<Rightarrow> (int \<Rightarrow> string)
     \<Rightarrow> (int \<Rightarrow> string) \<Rightarrow> string \<Rightarrow> handler_func \<Rightarrow> http_request \<Rightarrow> host \<Rightarrow> write_op list \<times> host" where
  "newAuditingHandlerFuncWrapper logger marshal rfc3339 StatusText qmName base req h =
     (let ops = base req;
          event = audit_event rfc3339 StatusText qmName h req (captured_status 0 ops);
          h1 = (case marshal event of
                  Inr _ \<Rightarrow> h
                | Inl e \<Rightarrow>
                    errOutput (''Error constructing audit log event: '' @ e)
                      (logger (''Error writing audit log; next event may contain incomplete data: '' @ e)
                        False h))
      in (ops, logger (case marshal event of Inr bytes \<Rightarrow> bytes | Inl _ \<Rightarrow> []) False h1))"

definition passthroughHandlerFuncWrapper :: "handler_func \<Rightarrow> http_request \<Rightarrow> host \<Rightarrow> write_op list \<times> host" where
  "passthroughHandlerFuncWrapper base req h = (base req, h)"

fun serve_all ::
    "(http_request \<Rightarrow> host \<Rightarrow> write_op list \<times> host) \<Rightarrow> http_request list \<Rightarrow> host \<Rightarrow> write_op list list \<times> host" where
  "serve_all f [] h = ([], h)"
| "serve_all f (q # qs) h =
     (let (ops, h1) = f q h; (rest, h2) = serve_all f qs h1 in (ops # rest, h2))"

text \<open>The events are those of a host whose clock and name the log does not change.\<close>

lemma failed_close_frame [simp]:
  "clock (failed_close e p h) = clock h" "hostname (failed_close e p h) = hostname h"
  by (simp_all add: failed_close_def errOutput_def say_def)

lemma Append_clock:
  assumes "log_inv r h"
  shows "clock (Append r m d h) = clock h \<and> hostname (Append r m d h) = hostname h"
proof -
  let ?p = "instanceFileName r 1"
  have ok: "rot_ok r h" using assms by (simp add: log_inv_def)
  then have ok1: "rot_ok r (h\<lparr>files := (files h)(?p \<mapsto> file_or_empty h ?p)\<rparr>)" by simp
  consider "duplicate r m d h" | "\<not> duplicate r m d h" "\<not> too_big r m h"
    | "\<not> duplicate r m d h" "too_big r m h" by blast
  then show ?thesis
  proof cases
    case 1
    then show ?thesis using Append_cases(1) [OF ok 1] by simp
  next
    case 2
    then show ?thesis using Append_cases(2) [OF ok 2] by simp
  next
    case 3
    then show ?thesis using Append_cases(3) [OF ok 3] append_rotating_files [OF ok1, of "entry m"] by auto
  qed
qed



end
