(* ===== verification/Loggers.thy ===== *)
theory Loggers
  imports Paths
begin

text \<open>
  pkg/syncwriter and pkg/logger. A writer of the standard library is a function of its own state that says how many
  bytes it took and whether it failed; the encoder of JSON and the time stamp of a line are parameters. Writers are
  shared through a registry, in which standard output and standard error get the same lock.
\<close>

section \<open>Writing everything\<close>

text \<open>
  The loop of \<open>SyncWriter.Write\<close>. It does not end when the writer takes nothing and reports nothing, and panics when
  the writer claims more bytes than it was given: \<open>None\<close> in both cases.
\<close>

type_synonym 's out_writer = "'s \<Rightarrow> string \<Rightarrow> (nat \<times> string option) \<times> 's"

partial_function (option) write_loop ::
    "'s out_writer \<Rightarrow> nat \<Rightarrow> string \<Rightarrow> 's \<Rightarrow> ((nat \<times> string option) \<times> 's) option" where
  "write_loop out bytesWritten p s =
     (if p = [] then Some ((bytesWritten, None), s)
      else (case out s p of
              ((n, Some e), s1) \<Rightarrow> Some ((bytesWritten + n, Some e), s1)
            | ((n, None), s1) \<Rightarrow>
                if length p < n then None else write_loop out (bytesWritten + n) (drop n p) s1))"

definition SyncWrite :: "'s out_writer \<Rightarrow> string \<Rightarrow> 's \<Rightarrow> ((nat \<times> string option) \<times> 's) option" where
  "SyncWrite out p s = write_loop out 0 p s"

section \<open>The registry of writers\<close>

datatype io_writer = Stdout | Stderr | OtherWriter nat

record SyncWriter =
  sw_output :: io_writer
  writeLock :: nat

text \<open>Lock 0 is the one that the standard streams share; the others are numbered as they are made.\<close>

record registry =
  syncWriters :: "(io_writer \<times> SyncWriter) list"
  locks :: nat

definition registry_start :: registry where
  "registry_start = \<lparr>syncWriters = [], locks = 1\<rparr>"

definition For :: "io_writer \<Rightarrow> registry \<Rightarrow> SyncWriter \<times> registry" where
  "For w r =
     (case map_of (syncWriters r) w of
        Some sw \<Rightarrow> (sw, r)
      | None \<Rightarrow>
          (let shared = (w = Stdout \<or> w = Stderr);
               sw = \<lparr>sw_output = w, writeLock = (if shared then 0 else locks r)\<rparr>
           in (sw, r\<lparr>syncWriters := (w, sw) # syncWriters r, locks := (if shared then locks r else Suc (locks r))\<rparr>)))"

section \<open>The logger\<close>

record Logger =
  log_writer :: SyncWriter
  log_debug :: bool
  log_json :: bool
  processName :: string
  pid :: string
  serverName :: string
  log_host :: string
  userName :: string

text \<open>What \<open>NewLogger\<close> takes from the process and the user database.\<close>

record process_info =
  argv0 :: string
  process_id :: int
  current_user :: "string option"

definition NewLogger ::
    "process_info \<Rightarrow> io_writer \<Rightarrow> bool \<Rightarrow> bool \<Rightarrow> string \<Rightarrow> host \<Rightarrow> registry \<Rightarrow> (string, Logger) result \<times> registry" where
  "NewLogger pr w debug json server h r =
     (case hostname h of
        None \<Rightarrow> (Inl ''hostname unavailable'', r)
      | Some n \<Rightarrow>
          (let (sw, r1) = For w r
           in (Inr \<lparr>log_writer = sw, log_debug = debug, log_json = json, processName = argv0 pr, pid = itoa (process_id pr),
                    serverName = server, log_host = n,
                    userName = (case current_user pr of None \<Rightarrow> [] | Some u \<Rightarrow> u)\<rparr>, r1)))"

type_synonym log_fields = "(string \<times> string) list"

definition log_entry :: "Logger \<Rightarrow> string \<Rightarrow> string \<Rightarrow> string \<Rightarrow> log_fields" where
  "log_entry l stamp level msg =
     [(''message'', msg), (''ibm_datetime'', stamp), (''loglevel'', level), (''host'', log_host l),
      (''ibm_serverName'', serverName l), (''ibm_processName'', processName l), (''ibm_processId'', pid l),
      (''ibm_userName'', userName l), (''type'', ''mq_containerlog'')]"

definition field :: "log_fields \<Rightarrow> string \<Rightarrow> string" where
  "field e k = (case map_of e k of None \<Rightarrow> ''<nil>'' | Some v \<Rightarrow> v)"

definition log_format ::
    "(log_fields \<Rightarrow> (string, string) result) \<Rightarrow> Logger \<Rightarrow> log_fields \<Rightarrow> (string, string) result" where
  "log_format marshal l entry =
     (if log_json l then marshal entry
      else Inr (field entry ''ibm_datetime'' @ '' '' @ field entry ''message'' @ [newline]))"

text \<open>
  \<open>log\<close>: what is printed, and on which writer. A line that cannot be encoded leaves the error on the standard error
  stream, whose writer the registry then holds, and an empty line in its place.
\<close>

type_synonym printed = "(io_writer \<times> string) list"

type_synonym encoder = "log_fields \<Rightarrow> (string, string) result"

definition log_line ::
    "encoder \<Rightarrow> string \<Rightarrow> Logger \<Rightarrow> string \<Rightarrow> string \<Rightarrow> registry \<Rightarrow> printed \<times> registry" where
  "log_line marshal stamp l level msg r =
     (let (s, errors, r1) = (case log_format marshal l (log_entry l stamp level msg) of
                               Inl e \<Rightarrow> (let (sw, r1) = For Stderr r in ([], [(sw_output sw, e @ [newline])], r1))
                             | Inr s \<Rightarrow> (s, [], r))
      in (errors @ [(sw_output (log_writer l), if log_json l then s @ [newline] else s)], r1))"

definition Debug :: "encoder \<Rightarrow> string \<Rightarrow> Logger \<Rightarrow> string \<Rightarrow> registry \<Rightarrow> printed \<times> registry" where
  "Debug marshal stamp l msg r =
     (if log_debug l
      then (if log_json l then log_line marshal stamp l ''DEBUG'' msg r
            else log_line marshal stamp l ''DEBUG'' (''DEBUG: '' @ msg) r)
      else ([], r))"

definition Print :: "encoder \<Rightarrow> string \<Rightarrow> Logger \<Rightarrow> string \<Rightarrow> registry \<Rightarrow> printed \<times> registry" where
  "Print marshal stamp l msg r = log_line marshal stamp l ''INFO'' msg r"

definition Println :: "encoder \<Rightarrow> string \<Rightarrow> Logger \<Rightarrow> string \<Rightarrow> registry \<Rightarrow> printed \<times> registry" where
  "Println marshal stamp l msg r = Print marshal stamp l msg r"

definition PrintString :: "encoder \<Rightarrow> string \<Rightarrow> Logger \<Rightarrow> string \<Rightarrow> registry \<Rightarrow> printed \<times> registry" where
  "PrintString marshal stamp l msg r = log_line marshal stamp l ''INFO'' msg r"

definition LogError :: "encoder \<Rightarrow> string \<Rightarrow> Logger \<Rightarrow> string \<Rightarrow> registry \<Rightarrow> printed \<times> registry" where
  "LogError marshal stamp l msg r = log_line marshal stamp l ''ERROR'' msg r"

definition Fatalf :: "encoder \<Rightarrow> string \<Rightarrow> Logger \<Rightarrow> string \<Rightarrow> registry \<Rightarrow> printed \<times> registry" where
  "Fatalf marshal stamp l msg r = log_line marshal stamp l ''FATAL'' msg r"

text \<open>What becomes of the lines that a program of the model logs: the host keeps all of them with their level.\<close>

definition printed_line ::
    "encoder \<Rightarrow> string \<Rightarrow> Logger \<Rightarrow> log_level \<times> string \<Rightarrow> registry \<Rightarrow> printed \<times> registry" where
  "printed_line marshal stamp l lm r =
     (case lm of
        (DebugL, m) \<Rightarrow> Debug marshal stamp l m r
      | (InfoL, m) \<Rightarrow> Print marshal stamp l m r
      | (ErrorL, m) \<Rightarrow> LogError marshal stamp l m r)"

primrec console_text ::
    "encoder \<Rightarrow> string \<Rightarrow> Logger \<Rightarrow> (log_level \<times> string) list \<Rightarrow> registry \<Rightarrow> printed \<times> registry" where
  "console_text marshal stamp l [] r = ([], r)"
| "console_text marshal stamp l (m # ms) r =
     (let (x, r1) = printed_line marshal stamp l m r; (y, r2) = console_text marshal stamp l ms r1 in (x @ y, r2))"

section \<open>What is written\<close>

text \<open>
  C33. A write that ends without an error has handed all the bytes to the writer, once and in order, whatever pieces the
  writer took; with an error it has handed over the reported number of bytes. It ends, if the writer reports an error
  whenever it takes nothing, and then never with more bytes than there are.
\<close>

theorem sync_write_all:
  assumes law: "\<And>s p n e s'. out s p = ((n, e), s') \<Longrightarrow>
      n \<le> length p \<and> seen s' = seen s @ take n p \<and> (e \<noteq> None \<or> p = [] \<or> 0 < n)"
  shows "\<exists>n e s'. SyncWrite out p s = Some ((n, e), s') \<and> n \<le> length p \<and> seen s' = seen s @ take n p
    \<and> (e = None \<longrightarrow> n = length p)"
proof -
  have "\<exists>n e s'. write_loop out k p s = Some ((k + n, e), s') \<and> n \<le> length p \<and> seen s' = seen s @ take n p
      \<and> (e = None \<longrightarrow> n = length p)" for k
  proof (induction p arbitrary: k s rule: length_induct)
    case (1 p)
    show ?case
    proof (cases "p = []")
      case True
      then show ?thesis by (subst write_loop.simps) simp
    next
      case False
      obtain n e s1 where o: "out s p = ((n, e), s1)" by (metis prod.exhaust)
      note l = law [OF o]
      show ?thesis
      proof (cases e)
        case (Some x)
        then show ?thesis using l o False by (subst write_loop.simps) simp
      next
        case None
        then have n: "0 < n" "n \<le> length p" using l False by auto
        then have "length (drop n p) < length p" by simp
        then obtain m e' s' where r: "write_loop out (k + n) (drop n p) s1 = Some ((k + n + m, e'), s')"
            "m \<le> length (drop n p)" "seen s' = seen s1 @ take m (drop n p)" "e' = None \<longrightarrow> m = length (drop n p)"
          using 1 by blast
        have "write_loop out k p s = Some ((k + (n + m), e'), s')"
          using r(1) n o None False by (subst write_loop.simps) (simp add: add.assoc)
        moreover have "seen s' = seen s @ take (n + m) p" using r(3) l by (simp add: take_add)
        ultimately show ?thesis using r n by (intro exI [of _ "n + m"] exI [of _ e'] exI [of _ s']) auto
      qed
    qed
  qed
  from this [of 0] show ?thesis unfolding SyncWrite_def by auto
qed


text \<open>A writer that takes three bytes a time and keeps what it took.\<close>

definition small_writer :: "string out_writer" where
  "small_writer s p = ((min 3 (length p), None), s @ take 3 p)"

lemma sync_write_all_witness:
  "\<exists>n e s'. SyncWrite small_writer ''queue'' ''>'' = Some ((n, e), s') \<and> n \<le> length ''queue''
     \<and> id s' = id ''>'' @ take n ''queue'' \<and> (e = None \<longrightarrow> n = length ''queue'')"
  by (rule sync_write_all [where seen = id]) (auto simp: small_writer_def min_def)

section \<open>Who waits for whom\<close>

text \<open>What the registry keeps: every writer once, under its own name, with a lock of its own or the shared one.\<close>

definition standard :: "io_writer \<Rightarrow> bool" where
  "standard w \<longleftrightarrow> w = Stdout \<or> w = Stderr"

definition registry_ok :: "registry \<Rightarrow> bool" where
  "registry_ok r \<longleftrightarrow>
     0 < locks r \<and>
     (\<forall>(w, sw) \<in> set (syncWriters r).
        sw_output sw = w \<and> writeLock sw < locks r \<and> (writeLock sw = 0 \<longleftrightarrow> standard w)) \<and>
     distinct (map fst (syncWriters r)) \<and>
     (\<forall>(w, sw) \<in> set (syncWriters r). \<forall>(w', sw') \<in> set (syncWriters r).
        writeLock sw = writeLock sw' \<longrightarrow> w = w' \<or> standard w \<and> standard w')"

lemma registry_start_ok: "registry_ok registry_start"
  by (simp add: registry_ok_def registry_start_def)

lemma registry_ok_entries:
  "registry_ok r \<longleftrightarrow>
     0 < locks r \<and>
     (\<forall>w sw. (w, sw) \<in> set (syncWriters r) \<longrightarrow>
        sw_output sw = w \<and> writeLock sw < locks r \<and> (writeLock sw = 0 \<longleftrightarrow> standard w)) \<and>
     distinct (map fst (syncWriters r)) \<and>
     (\<forall>w sw w' sw'. (w, sw) \<in> set (syncWriters r) \<longrightarrow> (w', sw') \<in> set (syncWriters r) \<longrightarrow>
        writeLock sw = writeLock sw' \<longrightarrow> w = w' \<or> standard w \<and> standard w')"
  by (auto simp: registry_ok_def) fastforce+

lemma For_ok:
  assumes ok: "registry_ok r"
  shows "registry_ok (snd (For w r))"
proof (cases "map_of (syncWriters r) w")
  case None
  define sw where "sw = fst (For w r)"
  have sw: "sw_output sw = w" "writeLock sw = (if standard w then 0 else locks r)"
    "syncWriters (snd (For w r)) = (w, sw) # syncWriters r"
    "locks (snd (For w r)) = (if standard w then locks r else Suc (locks r))"
    using None by (simp_all add: sw_def For_def Let_def standard_def)
  have new: "\<And>v. (w, v) \<notin> set (syncWriters r)" using None by (force simp: map_of_eq_None_iff)
  note e = ok [unfolded registry_ok_entries]
  have old: "sw_output x = v" "writeLock x < locks r" "writeLock x = 0 \<longleftrightarrow> standard v"
    if "(v, x) \<in> set (syncWriters r)" for v x using e that by blast+
  have pair: "v = v' \<or> standard v \<and> standard v'"
    if "(v, x) \<in> set (syncWriters r)" "(v', x') \<in> set (syncWriters r)" "writeLock x = writeLock x'" for v x v' x'
    using e that by blast
  have mixed: "v = w \<or> standard v \<and> standard w"
    if "(v, x) \<in> set (syncWriters r)" "writeLock x = writeLock sw" for v x
    using old [OF that(1)] that(2) sw(2) by (auto split: if_splits)
  show ?thesis
    unfolding registry_ok_entries sw(3,4)
  proof (intro conjI allI impI)
    show "0 < (if standard w then locks r else Suc (locks r))" using e by simp
    show "distinct (map fst ((w, sw) # syncWriters r))" using e new by auto
    fix v x assume v: "(v, x) \<in> set ((w, sw) # syncWriters r)"
    then consider "v = w" "x = sw" | "(v, x) \<in> set (syncWriters r)" by auto
    then have "sw_output x = v \<and> (writeLock x = 0 \<longleftrightarrow> standard v) \<and>
      writeLock x < (if standard w then locks r else Suc (locks r))"
      by cases (use e sw(1,2) old [of v x] in \<open>auto intro: less_SucI\<close>)
    then show "sw_output x = v" "writeLock x = 0 \<longleftrightarrow> standard v"
      "writeLock x < (if standard w then locks r else Suc (locks r))" by auto
    fix v' x' assume v': "(v', x') \<in> set ((w, sw) # syncWriters r)" and l: "writeLock x = writeLock x'"
    show "v = v' \<or> standard v \<and> standard v'"
      using v v' l pair [of v x v' x'] mixed [of v x] mixed [of v' x'] by auto
  qed
next
  case (Some sw)
  with ok show ?thesis by (simp add: For_def)
qed

lemma For_registers: "map_of (syncWriters (snd (For w r))) w = Some (fst (For w r))"
  by (simp add: For_def Let_def split: option.splits)

lemma For_keeps:
  "map_of (syncWriters r) v = Some sw \<Longrightarrow> map_of (syncWriters (snd (For w r))) v = Some sw"
  by (auto simp: For_def Let_def split: option.splits)

lemma For_ok_writer:
  assumes "registry_ok r"
  shows "sw_output (fst (For w r)) = w"
  using assms by (auto simp: For_def Let_def registry_ok_def split: option.splits dest!: map_of_SomeD bspec)

text \<open>The registry after a sequence of calls, whoever makes them.\<close>

primrec For_all :: "io_writer list \<Rightarrow> registry \<Rightarrow> registry" where
  "For_all [] r = r"
| "For_all (w # ws) r = For_all ws (snd (For w r))"

lemma For_all_ok: "registry_ok r \<Longrightarrow> registry_ok (For_all ws r)"
  by (induction ws arbitrary: r) (auto intro: For_ok)

lemma For_all_keeps:
  "map_of (syncWriters r) v = Some sw \<Longrightarrow> map_of (syncWriters (For_all ws r)) v = Some sw"
  by (induction ws arbitrary: r) (auto intro: For_keeps)

lemma For_all_registers:
  "w \<in> set ws \<Longrightarrow> map_of (syncWriters (For_all ws r)) w \<noteq> None"
  by (induction ws arbitrary: r) (auto simp: For_all_keeps [OF For_registers])


text \<open>
  C34. Whatever calls have been made before, two writers wait for each other exactly if they are the same or are both
  standard streams, each hands its bytes to the stream it was asked for, and asking again gives the same writer.
\<close>

theorem locks_shared:
  "let r = For_all ws registry_start; (a, r1) = For v r; (b, r2) = For w r1 in
     registry_ok r2 \<and> sw_output a = v \<and> sw_output b = w \<and>
     (writeLock a = writeLock b \<longleftrightarrow> v = w \<or> standard v \<and> standard w) \<and>
     For v (For_all vs r2) = (a, For_all vs r2)"
proof -
  define r where "r = For_all ws registry_start"
  obtain a r1 where a: "For v r = (a, r1)" by fastforce
  obtain b r2 where b: "For w r1 = (b, r2)" by fastforce
  have ok: "registry_ok r" unfolding r_def by (intro For_all_ok registry_start_ok)
  have ok1: "registry_ok r1" using For_ok [OF ok, of v] a by simp
  have ok2: "registry_ok r2" using For_ok [OF ok1, of w] b by simp
  have ma: "map_of (syncWriters r2) v = Some a"
    using For_registers [of v r] For_keeps [of r1 v a w] a b by simp
  have mb: "map_of (syncWriters r2) w = Some b" using For_registers [of w r1] b by simp
  have "writeLock a = writeLock b \<longleftrightarrow> v = w \<or> standard v \<and> standard w"
    using ok2 [unfolded registry_ok_entries] map_of_SomeD [OF ma] map_of_SomeD [OF mb] ma mb
    by (metis option.inject)
  moreover have "For v (For_all vs r2) = (a, For_all vs r2)"
    using For_all_keeps [OF ma, of vs] by (simp add: For_def)
  ultimately show ?thesis
    using ok2 For_ok_writer [OF ok, of v] For_ok_writer [OF ok1, of w] a b by (simp add: r_def [symmetric])
qed

section \<open>Lines of the log\<close>

text \<open>Without JSON a line is its time and message, and nothing is encoded; the registry stays as it is.\<close>

lemma log_line_text:
  "\<not> log_json l \<Longrightarrow> log_line marshal stamp l level msg r =
     ([(sw_output (log_writer l), stamp @ '' '' @ msg @ [newline])], r)"
  by (simp add: log_line_def log_format_def log_entry_def field_def)

text \<open>
  With the text format the console gets, for each line logged and in the order of logging, its time and message on a
  line of its own, debugging lines marked and only if they are asked for; with JSON, and an encoder that does not fail,
  the encoded fields instead.
\<close>

theorem console_shows_log:
  assumes enc: "\<And>e. marshal e = Inr (enc e)"
  shows "console_text marshal stamp l ms r =
    (map (\<lambda>(level, m). (sw_output (log_writer l),
        if log_json l
        then enc (log_entry l stamp (case level of DebugL \<Rightarrow> ''DEBUG'' | InfoL \<Rightarrow> ''INFO'' | ErrorL \<Rightarrow> ''ERROR'') m) @ [newline]
        else stamp @ '' '' @ (if level = DebugL then ''DEBUG: '' @ m else m) @ [newline]))
      (filter (\<lambda>(level, m). level = DebugL \<longrightarrow> log_debug l) ms), r)"
proof -
  let ?text = "\<lambda>(level, m). (sw_output (log_writer l),
        if log_json l
        then enc (log_entry l stamp (case level of DebugL \<Rightarrow> ''DEBUG'' | InfoL \<Rightarrow> ''INFO'' | ErrorL \<Rightarrow> ''ERROR'') m) @ [newline]
        else stamp @ '' '' @ (if level = DebugL then ''DEBUG: '' @ m else m) @ [newline])"
  have line: "printed_line marshal stamp l (level, m) r =
      (if level = DebugL \<longrightarrow> log_debug l then [?text (level, m)] else [], r)" for level m
    by (cases level; cases "log_json l")
       (simp_all add: printed_line_def Debug_def Print_def LogError_def log_line_text,
        simp_all add: log_line_def log_format_def enc)
  have "console_text marshal stamp l ms r = (map ?text (filter (\<lambda>(level, m). level = DebugL \<longrightarrow> log_debug l) ms), r)"
  proof (induction ms)
    case (Cons lm ms)
    obtain level m where "lm = (level, m)" by fastforce
    with Cons show ?case by (cases level) (simp_all add: line)
  qed simp
  then show ?thesis .
qed

lemma console_shows_log_witness:
  "let l = \<lparr>log_writer = \<lparr>sw_output = Stdout, writeLock = 0\<rparr>, log_debug = False, log_json = False, processName = ''runmqserver'',
            pid = ''1'', serverName = ''QM1'', log_host = ''h'', userName = []\<rparr>
   in console_text (\<lambda>e. Inr (field e ''message'')) ''12:00'' l [(InfoL, ''Started''), (DebugL, ''x'')] registry_start =
        ([(Stdout, ''12:00 Started'' @ [newline])], registry_start)"
  by (subst Let_def, subst console_shows_log [where enc = "\<lambda>e. field e ''message''"]) simp_all

end
