(* ===== verification/Console_Log.thy ===== *)
theory Console_Log
  imports Redact Loggers "HOL-Library.List_Lexorder" "HOL-Library.Char_ord" "HOL-Library.Multiset"
begin

text \<open>
  cmd/runmqserver/logging.go: which logs are mirrored to the console, which lines of them, and in
  what form. A decoded JSON object is the list of its members in the order in which Go happens to
  iterate over the map. The decoder and the text that package fmt gives for values that are not
  strings are parameters. A failed type assertion or index is a panic, modelled by \<open>None\<close>.
\<close>

section \<open>JSON values\<close>

datatype jval = JStr string | JNum bool string | JOther string

text \<open>A number carries whether it is zero, and like any other value its text under \<open>%v\<close>.\<close>

fun fmt_v :: "jval \<Rightarrow> string" where
  "fmt_v (JStr s) = s"
| "fmt_v (JNum z s) = s"
| "fmt_v (JOther s) = s"

type_synonym obj = "(string \<times> jval) list"

text \<open>\<open>%s\<close> of a member that may be absent; \<open>bad\<close> is the text for anything but a string.\<close>

type_synonym members = "string \<rightharpoonup> jval"

definition fmt_s :: "(jval option \<Rightarrow> string) \<Rightarrow> members \<Rightarrow> string \<Rightarrow> string" where
  "fmt_s bad ob k = (case ob k of Some (JStr s) \<Rightarrow> s | v \<Rightarrow> bad v)"

definition as_string :: "jval option \<Rightarrow> string option" where
  "as_string v = (case v of Some (JStr s) \<Rightarrow> Some s | _ \<Rightarrow> None)"

section \<open>Formats and sources\<close>

definition getLogFormat :: "host \<Rightarrow> string" where
  "getLogFormat h =
     (let f1 = to_lower (trim_space (getenv h ''MQ_LOGGING_CONSOLE_FORMAT''));
          f2 = (if f1 = [] then to_lower (trim_space (getenv h ''LOG_FORMAT'')) else f1)
      in if f2 = ''basic'' \<or> f2 = ''json'' then f2 else ''basic'')"

definition getDebug :: "host \<Rightarrow> bool" where
  "getDebug h \<longleftrightarrow> getenv h ''DEBUG'' = ''true'' \<or> getenv h ''DEBUG'' = ''1''"

definition getMQLogConsoleSource :: "host \<Rightarrow> string" where
  "getMQLogConsoleSource h = to_lower (trim_space (getenv h ''MQ_LOGGING_CONSOLE_SOURCE''))"

fun valid_sources :: "bool \<Rightarrow> string list \<Rightarrow> bool" where
  "valid_sources ret [] = ret"
| "valid_sources ret (src # srcs) =
     (if trim_space src \<in> {''qmgr'', ''web'', ''mqsc'', ''probes'', []} then valid_sources True srcs
      else False)"

definition isLogConsoleSourceValid :: "host \<Rightarrow> bool" where
  "isLogConsoleSourceValid h =
     (let src = getMQLogConsoleSource h
      in if src = [] then True else valid_sources False (split_on CHR '','' src))"

text \<open>The second component: whether the hint about the older variable was printed.\<close>

fun source_loop :: "bool \<Rightarrow> string \<Rightarrow> string list \<Rightarrow> bool \<times> bool" where
  "source_loop old source [] = (False, False)"
| "source_loop old source (a # as) =
     (let arr = trim_space a in
      if arr = ''qmgr'' \<and> source = ''qmgr'' then (True, False)
      else if arr = ''web'' \<and> source = ''web'' then (True, old)
      else if arr = ''mqsc'' \<and> source = ''mqsc'' then (True, False)
      else if arr = ''probes'' \<and> source = ''probes'' then (True, False)
      else source_loop old source as)"

definition checkLogSourceForMirroring :: "string \<Rightarrow> host \<Rightarrow> bool \<times> host" where
  "checkLogSourceForMirroring source h =
     (let logsrcs = getMQLogConsoleSource h in
      if logsrcs = [] then (source \<in> {''qmgr'', ''web'', ''probes''}, h)
      else
        (case source_loop (getenv h ''MQ_ENABLE_EMBEDDED_WEB_SERVER_LOG'' \<noteq> []) source
                (split_on CHR '','' logsrcs) of
           (yes, hint) \<Rightarrow>
             (yes, if hint then say InfoL ''Environment variable MQ_ENABLE_EMBEDDED_WEB_SERVER_LOG has now been replaced. Use MQ_LOGGING_CONSOLE_SOURCE instead.'' h
                   else h)))"

definition canMQSCLogBeMirroredToConsole :: "string \<Rightarrow> bool" where
  "canMQSCLogBeMirroredToConsole message \<longleftrightarrow>
     message \<noteq> [] \<and> \<not> has_prefix (trim_space message) '': *'' \<and> trim_space message \<noteq> '':''"

text \<open>The regular expression \<open>AMQ[0-9]+E:\<close>.\<close>

fun digits_E :: "bool \<Rightarrow> string \<Rightarrow> bool" where
  "digits_E seen [] = False"
| "digits_E seen (c # cs) =
     (if digit_val c \<noteq> None then digits_E True cs else seen \<and> has_prefix (c # cs) ''E:'')"

fun has_error_id :: "string \<Rightarrow> bool" where
  "has_error_id [] = False"
| "has_error_id (c # cs) =
     ((has_prefix (c # cs) ''AMQ'' \<and> digits_E False (drop 2 cs)) \<or> has_error_id cs)"

definition determineMQSCLogLevel :: "string \<Rightarrow> string" where
  "determineMQSCLogLevel message = (if has_error_id message then ''ERROR'' else ''INFO'')"

section \<open>Exclusions\<close>

definition isExcludedMsgIdPresent :: "string \<Rightarrow> string list \<Rightarrow> bool" where
  "isExcludedMsgIdPresent msg envExcludeIds \<longleftrightarrow>
     list_ex (\<lambda>i. i \<noteq> [] \<and> contains msg (trim_space i)) envExcludeIds"

definition exclude_ids :: "host \<Rightarrow> string list" where
  "exclude_ids h = split_on CHR '','' (to_upper (getenv h ''MQ_LOGGING_CONSOLE_EXCLUDE_ID''))"

text \<open>\<open>None\<close>: the member \<open>host\<close> is asserted to be a string, but only in the multi-instance case.\<close>

definition filterQMLogMessage :: "host \<Rightarrow> obj \<Rightarrow> bool option" where
  "filterQMLogMessage h ob =
     (case hostname h of
        Some n \<Rightarrow>
          if getenv h ''MQ_MULTI_INSTANCE'' = ''true''
          then map_option (\<lambda>s. \<not> contains s n) (as_string (map_of ob ''host''))
          else Some False
      | None \<Rightarrow> Some False)"

section \<open>The basic format\<close>

text \<open>The inserts of one member; an arithmetic insert is asserted to be a number.\<close>

definition insert_of :: "string \<times> jval \<Rightarrow> string list option" where
  "insert_of m =
     (case m of (k, v) \<Rightarrow>
        if has_prefix k ''ibm_commentInsert'' then
          Some [replace_first ''ibm_comment'' ''Comment'' k @ ''('' @ fmt_v v @ '')'']
        else if has_prefix k ''ibm_arithInsert'' then
          (case v of
             JNum z s \<Rightarrow>
               Some (if z then [] else [replace_first ''ibm_arith'' ''Arith'' k @ ''('' @ s @ '')''])
           | _ \<Rightarrow> None)
        else Some [])"

fun inserts_of :: "obj \<Rightarrow> string list option" where
  "inserts_of [] = Some []"
| "inserts_of (m # ms) =
     (case (insert_of m, inserts_of ms) of (Some a, Some b) \<Rightarrow> Some (a @ b) | _ \<Rightarrow> None)"

definition audit_fields :: "string list" where
  "audit_fields =
     [''ibm_audit_eventName'', ''ibm_audit_eventSequenceNumber'', ''ibm_audit_outcome'',
      ''ibm_audit_reason.reasonCode'', ''ibm_audit_reason.reasonType'', ''ibm_audit_observer.id'',
      ''ibm_audit_observer.name'', ''ibm_audit_initiator.host.address'',
      ''ibm_audit_initiator.host.agent'', ''ibm_audit_target.id'', ''ibm_audit_target.host.address'',
      ''ibm_audit_target.credential.token'', ''ibm_audit_target.method'', ''ibm_audit_target.name'',
      ''ibm_audit_target.jmx.mbean.action'', ''ibm_audit_target.jmx.mbean.name'',
      ''ibm_audit_target.session'', ''ibm_audit_eventTime'']"

definition audit_line :: "(jval \<Rightarrow> string) \<Rightarrow> string \<Rightarrow> members \<Rightarrow> string" where
  "audit_line go_syntax timestamp ob =
     timestamp @ '' AUDIT:''
     @ concat (map (\<lambda>field. case ob field of
                              None \<Rightarrow> []
                            | Some v \<Rightarrow> '' '' @ drop (length ''ibm_audit_'') field @ ''='' @ go_syntax v)
                 audit_fields)
     @ [newline]"

text \<open>\<open>%-13s\<close> counts code points.\<close>

definition pad13 :: "string \<Rightarrow> string" where
  "pad13 s = s @ replicate (13 - length (runes s)) CHR '' ''"

definition level_char :: "string \<Rightarrow> string option" where
  "level_char l =
     (if l = ''AUDIT'' then Some ''A'' else if l = ''INFO'' then Some ''I''
      else if l = ''EVENT'' then Some ''1'' else if l = ''ENTRY'' then Some ''>''
      else if l = ''EXIT'' then Some ''<'' else if l = ''FINE'' then Some ''1''
      else if l = ''FINER'' then Some ''2'' else if l = ''FINEST'' then Some ''3''
      else (case l of [] \<Rightarrow> None | c # _ \<Rightarrow> Some (if of_char c < (128 :: nat) then [c] else
              [char_of (0xC0 + (of_char c :: nat) div 64), char_of (0x80 + (of_char c :: nat) mod 64)])))"

text \<open>A member that may be absent but is a string when it is there.\<close>

definition opt_string :: "members \<Rightarrow> string \<Rightarrow> string option" where
  "opt_string ob k = (case ob k of None \<Rightarrow> Some [] | v \<Rightarrow> as_string v)"

definition after_last_dot :: "string \<Rightarrow> string" where
  "after_last_dot s = last (split_on CHR ''.'' s)"

text \<open>
  The trace line, when the level asks for one. The class name is cut to 13 bytes only when the module
  name, which has been cut to 13 bytes itself, is longer than that; the slice panics for a shorter
  class name.
\<close>

definition trace_line :: "string \<Rightarrow> members \<Rightarrow> string \<Rightarrow> string option option" where
  "trace_line timestamp ob logLevelTmp =
     (case (opt_string ob ''ibm_threadId'', level_char logLevelTmp, opt_string ob ''module'',
            opt_string ob ''ibm_className'', opt_string ob ''ibm_methodName'', opt_string ob ''message'') of
        (Some threadID, Some logLevel, Some module, Some ibmClassName, Some ibmMethodName, Some message) \<Rightarrow>
          (let srtModuleName = take 13 (after_last_dot module);
               cls = after_last_dot ibmClassName
           in if length srtModuleName > 13 \<and> length cls < 13 then None
              else
                let srtIbmClassName = (if length srtModuleName > 13 then take 13 cls else cls);
                    start = timestamp @ '' '' @ threadID @ '' ''
                in Some
                    (if logLevel = ''A'' \<or> logLevel = ''I'' then
                       Some (start @ pad13 srtModuleName @ '' '' @ logLevel @ '' '' @ ibmClassName @ '' ''
                             @ ibmMethodName @ '' '' @ message @ [newline])
                     else if logLevelTmp = ''EVENT'' then
                       Some (start @ pad13 srtModuleName @ '' '' @ logLevel @ '' '' @ message @ [newline])
                     else if logLevel = ''>'' \<or> logLevel = ''<'' then
                       Some (start @ pad13 srtModuleName @ '' '' @ logLevel @ '' '' @ ibmMethodName @ '' ''
                             @ message @ [newline])
                     else if logLevelTmp = ''FINE'' \<or> logLevel = ''2'' \<or> logLevel = ''3'' then
                       Some (start @ pad13 srtIbmClassName @ '' '' @ logLevel @ '' '' @ ibmClassName @ '' ''
                             @ ibmMethodName @ '' '' @ message @ [newline])
                     else None))
      | _ \<Rightarrow> None)"

definition escape_newlines :: "string \<Rightarrow> string" where
  "escape_newlines s = replace_char newline [CHR 0x5C, CHR ''n''] s"

text \<open>The message without inserts: the time and the message are rewritten in the map first.\<close>

definition format_members ::
    "(jval option \<Rightarrow> string) \<Rightarrow> (jval \<Rightarrow> string) \<Rightarrow> members \<Rightarrow> string option" where
  "format_members bad go_syntax ob =
     (case as_string (ob ''ibm_datetime'') of
        None \<Rightarrow> None
      | Some dt \<Rightarrow>
          if ob ''message'' \<noteq> None \<and> as_string (ob ''message'') = None then None
          else
            let time = replace_first ''+0000'' ''Z'' dt;
                ob0 = ob(''ibm_datetime'' \<mapsto> JStr time);
                ob1 = (case as_string (ob ''message'') of
                         None \<Rightarrow> ob0
                       | Some m \<Rightarrow> ob0(''message'' \<mapsto> JStr (escape_newlines m)));
                plain = fmt_s bad ob1 ''ibm_datetime'' @ '' '' @ fmt_s bad ob1 ''message'' @ [newline]
            in if ob1 ''type'' = Some (JStr ''liberty_audit'') then Some (audit_line go_syntax time ob1)
               else if ob1 ''type'' = Some (JStr ''liberty_trace'') \<and> ob1 ''loglevel'' \<noteq> None then
                 (case as_string (ob1 ''loglevel'') of
                    None \<Rightarrow> None
                  | Some l \<Rightarrow>
                      map_option (\<lambda>t. case t of None \<Rightarrow> plain | Some line \<Rightarrow> line) (trace_line time ob1 l))
               else Some plain)"

definition formatBasic :: "(jval option \<Rightarrow> string) \<Rightarrow> (jval \<Rightarrow> string) \<Rightarrow> obj \<Rightarrow> string option" where
  "formatBasic bad go_syntax ob =
     (case inserts_of ob of
        None \<Rightarrow> None
      | Some [] \<Rightarrow> format_members bad go_syntax (map_of ob)
      | Some ins \<Rightarrow>
          Some (fmt_s bad (map_of ob) ''ibm_datetime'' @ '' '' @ fmt_s bad (map_of ob) ''message''
                @ '' ['' @ join '', '' (sort ins) @ '']'' @ [newline]))"

section \<open>The mirror functions\<close>

text \<open>
  What a mirror function writes: to the console directly, or through the logger. The time stamp of a
  constructed line is a parameter. The result says whether the line was mirrored.
\<close>

datatype console = Out string | Logged string

definition mqsc_json_line :: "string \<Rightarrow> string \<Rightarrow> string" where
  "mqsc_json_line stamp msg =
     ''{\"ibm_datetime\":\"'' @ stamp @ ''\",\"type\":\"mqsc_log\",\"loglevel\":\"''
     @ determineMQSCLogLevel (trim_space msg) @ ''\",\"message\":\"'' @ trim_space msg @ ''\"}'' @ [newline]"

definition mirror_with ::
    "(string \<Rightarrow> obj option) \<Rightarrow> (obj \<Rightarrow> string option) \<Rightarrow> (string \<Rightarrow> console) \<Rightarrow> string
       \<Rightarrow> host \<Rightarrow> string \<Rightarrow> bool \<Rightarrow> (bool \<times> console list) option" where
  "mirror_with unmarshal text_of mqsc_out failure h msg isQMLog =
     (if isExcludedMsgIdPresent msg (exclude_ids h) then Some (False, [])
      else if msg \<noteq> [] \<and> hd msg = CHR 0x7B then
        (case unmarshal msg of
           None \<Rightarrow> Some (True, [Logged failure])
         | Some ob \<Rightarrow>
             (case (if isQMLog then filterQMLogMessage h ob else Some False) of
                None \<Rightarrow> None
              | Some True \<Rightarrow> Some (False, [])
              | Some False \<Rightarrow> map_option (\<lambda>t. (True, [Out t])) (text_of ob)))
      else
        Some (True, if fst (checkLogSourceForMirroring ''mqsc'' h) \<and> canMQSCLogBeMirroredToConsole msg
                    then [mqsc_out msg] else []))"

definition mirror_json ::
    "(string \<Rightarrow> obj option) \<Rightarrow> string \<Rightarrow> host \<Rightarrow> string \<Rightarrow> bool \<Rightarrow> (bool \<times> console list) option" where
  "mirror_json unmarshal stamp h msg isQMLog =
     mirror_with unmarshal (\<lambda>_. Some (msg @ [newline])) (\<lambda>m. Out (mqsc_json_line stamp m))
       (''Failed to unmarshall JSON in log message - '' @ msg) h msg isQMLog"

definition mirror_basic ::
    "(string \<Rightarrow> obj option) \<Rightarrow> (jval option \<Rightarrow> string) \<Rightarrow> (jval \<Rightarrow> string) \<Rightarrow> string
       \<Rightarrow> host \<Rightarrow> string \<Rightarrow> bool \<Rightarrow> (bool \<times> console list) option" where
  "mirror_basic unmarshal bad go_syntax err h msg isQMLog =
     mirror_with unmarshal (formatBasic bad go_syntax) (\<lambda>m. Logged (trim_space m))
       (''Failed to unmarshall JSON in log message - '' @ err) h msg isQMLog"

text \<open>
  The mirror function with the logger that the programs use, the writer it was given and the registry of writers; the
  other components are the parameters of the two formats. \<open>getLogFormat\<close> only gives these formats, so the
  error of the last case is unreachable. A failing \<open>NewLogger\<close> leaves the program without a logger.
\<close>

type_synonym mirror_fn = "host \<Rightarrow> string \<Rightarrow> bool \<Rightarrow> (bool \<times> console list) option"

record log_libs =
  ll_unmarshal :: "string \<Rightarrow> obj option"
  ll_bad :: "jval option \<Rightarrow> string"
  ll_go_syntax :: "jval \<Rightarrow> string"
  ll_err :: string
  ll_stamp :: string
  ll_process :: process_info

definition configureLogger ::
    "log_libs \<Rightarrow> string \<Rightarrow> host \<Rightarrow> registry \<Rightarrow> Logger option \<times> (string, mirror_fn) result \<times> registry" where
  "configureLogger ll server h r =
     (let f = getLogFormat h; d = getDebug h in
      if f = ''json'' then
        (case NewLogger (ll_process ll) Stdout d True server h r of
           (Inl e, r1) \<Rightarrow> (None, Inl e, r1)
         | (Inr l, r1) \<Rightarrow> (Some l, Inr (mirror_json (ll_unmarshal ll) (ll_stamp ll)), snd (For Stdout r1)))
      else if f = ''basic'' then
        (case NewLogger (ll_process ll) Stdout d False server h r of
           (Inl e, r1) \<Rightarrow> (None, Inl e, r1)
         | (Inr l, r1) \<Rightarrow>
             (Some l, Inr (mirror_basic (ll_unmarshal ll) (ll_bad ll) (ll_go_syntax ll) (ll_err ll)), snd (For Stdout r1)))
      else
        (case NewLogger (ll_process ll) Stderr d False server h r of
           (Inl e, r1) \<Rightarrow> (None, Inl e, r1)
         | (Inr l, r1) \<Rightarrow> (Some l, Inl (''invalid value for LOG_FORMAT: '' @ f), r1)))"

definition logTermination :: "(host \<Rightarrow> host) \<Rightarrow> bool \<Rightarrow> string \<Rightarrow> host \<Rightarrow> host" where
  "logTermination diagnostics collectDiagOnFail msg h =
     (let h1 = say DebugL (''Writing termination message: '' @ msg) h;
          h2 = (case os_write ''/run/termination-log'' msg h1 of
                  (None, h2) \<Rightarrow> h2
                | (Some e, h2) \<Rightarrow> say DebugL (err_text e) h2);
          h3 = say ErrorL msg h2
      in if collectDiagOnFail then diagnostics h3 else h3)"

section \<open>Properties of the sources\<close>

definition source_list :: "host \<Rightarrow> string list" where
  "source_list h = map trim_space (split_on CHR '','' (getMQLogConsoleSource h))"

lemma source_loop_fst:
  "source \<in> {''qmgr'', ''web'', ''mqsc'', ''probes''} \<Longrightarrow>
   fst (source_loop old source srcs) \<longleftrightarrow> source \<in> trim_space ` set srcs"
proof (induction srcs)
  case (Cons a as)
  have "fst (source_loop old source (a # as)) \<longleftrightarrow>
      trim_space a = source \<or> fst (source_loop old source as)"
    using Cons.prems by (elim insertE emptyE) (simp_all add: Let_def)
  then show ?case using Cons by auto
qed simp

lemma source_loop_other:
  "source \<notin> {''qmgr'', ''web'', ''mqsc'', ''probes''} \<Longrightarrow> \<not> fst (source_loop old source srcs)"
  by (induction srcs) (simp_all add: Let_def)

text \<open>
  Which logs are mirrored: with no sources configured (or only white space), the logs of the queue
  manager, the web server and the probes but not the MQSC log; otherwise exactly the known sources
  that are elements of the comma-separated value, whatever the case and spacing of the value.
\<close>

theorem mirrored_sources:
  "fst (checkLogSourceForMirroring source h) \<longleftrightarrow>
     (if getMQLogConsoleSource h = [] then source \<in> {''qmgr'', ''web'', ''probes''}
      else source \<in> {''qmgr'', ''web'', ''mqsc'', ''probes''} \<inter> set (source_list h))"
proof (cases "source \<in> {''qmgr'', ''web'', ''mqsc'', ''probes''}")
  case True
  then show ?thesis
    using source_loop_fst [OF True]
    by (simp add: checkLogSourceForMirroring_def source_list_def Let_def split: prod.splits) (metis fst_conv)
next
  case False
  then show ?thesis
    using source_loop_other [OF False]
    by (auto simp: checkLogSourceForMirroring_def source_list_def Let_def split: prod.splits) (metis fst_conv)
qed

lemma valid_sources_all:
  "valid_sources ret srcs \<longleftrightarrow>
     (srcs = [] \<longrightarrow> ret) \<and> list_all (\<lambda>s. trim_space s \<in> {''qmgr'', ''web'', ''mqsc'', ''probes'', []}) srcs"
  by (induction ret srcs rule: valid_sources.induct) auto

text \<open>
  The configured sources are reported as valid exactly when every element is blank or one of the
  four known sources.
\<close>

theorem valid_sources_exact:
  "isLogConsoleSourceValid h \<longleftrightarrow>
     set (source_list h) \<subseteq> {''qmgr'', ''web'', ''mqsc'', ''probes'', []}"
proof (cases "getMQLogConsoleSource h = []")
  case True
  moreover have "trim_space [] = []" by code_simp
  ultimately show ?thesis by (simp add: isLogConsoleSourceValid_def source_list_def)
next
  case False
  then show ?thesis
    by (simp only: isLogConsoleSourceValid_def source_list_def valid_sources_all Let_def if_False
        split_on_nonempty list_all_iff set_map image_subset_iff) auto
qed

section \<open>Properties of the filters\<close>

text \<open>
  A list of excluded identifiers with an element of white space only, as in a value that ends with
  a comma and a blank, suppresses every line of every mirrored log.
\<close>

theorem blank_exclusion_hides_all:
  assumes "w \<in> set (exclude_ids h)" "w \<noteq> []" "trim_space w = []"
  shows "mirror_json unmarshal stamp h msg isQMLog = Some (False, [])
    \<and> mirror_basic unmarshal bad go_syntax err h msg isQMLog = Some (False, [])"
proof -
  have "isExcludedMsgIdPresent msg (exclude_ids h)"
    using assms by (auto simp: isExcludedMsgIdPresent_def list_ex_iff)
  then show ?thesis by (simp add: mirror_json_def mirror_basic_def mirror_with_def)
qed

definition console_host :: "(string \<times> string) list \<Rightarrow> host" where
  "console_host e = \<lparr>env = map_of e, files = Map.empty, faults = (\<lambda>_. None), clock = 0, hostname = None,
     exec = (\<lambda>_ _. \<lparr>cmd_out = [], cmd_rc = 0, cmd_err = None\<rparr>), cmds = [], logs = []\<rparr>"

lemma blank_exclusion_hides_all_witness:
  "mirror_json (\<lambda>_. None) [] (console_host [(''MQ_LOGGING_CONSOLE_EXCLUDE_ID'', ''AMQ5051I, '')]) ''{hello}'' False
   = Some (False, [])"
proof -
  have "'' '' \<in> set (exclude_ids (console_host [(''MQ_LOGGING_CONSOLE_EXCLUDE_ID'', ''AMQ5051I, '')]))"
    "trim_space '' '' = []"
    by code_simp+
  from blank_exclusion_hides_all [OF this(1) _ this(2)] show ?thesis by simp
qed

lemma digits_E_iff:
  "digits_E seen s \<longleftrightarrow>
   (\<exists>d t. s = d @ ''E:'' @ t \<and> list_all (\<lambda>c. digit_val c \<noteq> None) d \<and> (d = [] \<longrightarrow> seen))"
proof (induction seen s rule: digits_E.induct)
  case (1 seen)
  then show ?case by simp
next
  case (2 seen c cs)
  have E: "digit_val (CHR ''E'') = None" by code_simp
  show ?case
  proof (cases "digit_val c = None")
    case True
    have "(\<exists>d t. c # cs = d @ ''E:'' @ t \<and> list_all (\<lambda>c. digit_val c \<noteq> None) d \<and> (d = [] \<longrightarrow> seen))
        \<longleftrightarrow> seen \<and> (\<exists>t. c # cs = ''E:'' @ t)"
      using True by (auto simp: Cons_eq_append_conv) 
    then show ?thesis using True by (simp add: prefix_def)
  next
    case False
    have "(\<exists>d t. c # cs = d @ ''E:'' @ t \<and> list_all (\<lambda>c. digit_val c \<noteq> None) d \<and> (d = [] \<longrightarrow> seen))
        \<longleftrightarrow> (\<exists>d t. cs = d @ ''E:'' @ t \<and> list_all (\<lambda>c. digit_val c \<noteq> None) d)"
    proof
      assume "\<exists>d t. c # cs = d @ ''E:'' @ t \<and> list_all (\<lambda>c. digit_val c \<noteq> None) d \<and> (d = [] \<longrightarrow> seen)"
      then obtain d t where d: "c # cs = d @ ''E:'' @ t" "list_all (\<lambda>c. digit_val c \<noteq> None) d" by blast
      then obtain x ds where "d = x # ds" using False E by (cases d) auto
      with d show "\<exists>d t. cs = d @ ''E:'' @ t \<and> list_all (\<lambda>c. digit_val c \<noteq> None) d" by auto
    next
      assume "\<exists>d t. cs = d @ ''E:'' @ t \<and> list_all (\<lambda>c. digit_val c \<noteq> None) d"
      then obtain d t where d: "cs = d @ ''E:'' @ t" "list_all (\<lambda>c. digit_val c \<noteq> None) d" by blast
      then have "c # cs = (c # d) @ ''E:'' @ t \<and> list_all (\<lambda>c. digit_val c \<noteq> None) (c # d) \<and> c # d \<noteq> []"
        using False by simp
      then show "\<exists>d t. c # cs = d @ ''E:'' @ t \<and> list_all (\<lambda>c. digit_val c \<noteq> None) d \<and> (d = [] \<longrightarrow> seen)"
        by blast
    qed
    then show ?thesis using "2.IH" [OF False] False by simp
  qed
qed

lemma split_here_or_later:
  "(\<exists>a t. c # cs = a @ t \<and> P t) \<longleftrightarrow> P (c # cs) \<or> (\<exists>a t. cs = a @ t \<and> P t)"
  by (metis append_Cons append_Nil append_eq_Cons_conv)

lemma error_id_here:
  "has_prefix s ''AMQ'' \<and> digits_E False (drop 3 s) \<longleftrightarrow>
     (\<exists>d b. s = ''AMQ'' @ d @ ''E:'' @ b \<and> d \<noteq> [] \<and> list_all (\<lambda>c. digit_val c \<noteq> None) d)"
proof -
  have "has_prefix s ''AMQ'' \<and> digits_E False (drop 3 s) \<longleftrightarrow> (\<exists>u. s = ''AMQ'' @ u \<and> digits_E False u)"
    by (auto simp: prefix_def)
  also have "\<dots> \<longleftrightarrow> (\<exists>d b. s = ''AMQ'' @ d @ ''E:'' @ b \<and> d \<noteq> [] \<and> list_all (\<lambda>c. digit_val c \<noteq> None) d)"
    unfolding digits_E_iff by blast
  finally show ?thesis .
qed

text \<open>
  An MQSC line is an error exactly when somewhere in it \<open>AMQ\<close>, at least one digit and \<open>E:\<close> follow
  each other.
\<close>

theorem mqsc_error_level:
  "determineMQSCLogLevel m = ''ERROR'' \<longleftrightarrow>
     (\<exists>a d b. m = a @ ''AMQ'' @ d @ ''E:'' @ b \<and> d \<noteq> [] \<and> list_all (\<lambda>c. digit_val c \<noteq> None) d)"
proof -
  let ?P = "\<lambda>t. \<exists>d b. t = ''AMQ'' @ d @ ''E:'' @ b \<and> d \<noteq> [] \<and> list_all (\<lambda>c. digit_val c \<noteq> None) d"
  have "has_error_id m \<longleftrightarrow> (\<exists>a t. m = a @ t \<and> ?P t)"
  proof (induction m)
    case (Cons c cs)
    have "has_prefix (c # cs) ''AMQ'' \<and> digits_E False (drop 2 cs) \<longleftrightarrow> ?P (c # cs)"
      using error_id_here [of "c # cs"] by simp
    with Cons show ?case using split_here_or_later [of c cs ?P] by simp
  qed simp
  then show ?thesis by (simp add: determineMQSCLogLevel_def) blast
qed

section \<open>Properties of the basic format\<close>

lemma inserts_of_mset:
  assumes "mset ob = mset ob'"
  shows "(inserts_of ob = None \<longleftrightarrow> inserts_of ob' = None)
    \<and> map_option mset (inserts_of ob) = map_option mset (inserts_of ob')"
proof -
  have none: "inserts_of ms = None \<longleftrightarrow> (\<exists>m \<in> set ms. insert_of m = None)" for ms
    by (induction ms) (auto split: option.splits)
  have val: "map_option mset (inserts_of ms)
      = (if \<exists>m \<in> set ms. insert_of m = None then None
         else Some (\<Sum>\<^sub># (image_mset (\<lambda>m. mset (the (insert_of m))) (mset ms))))" for ms
  proof (induction ms)
    case (Cons m ms)
    then show ?case
      by (cases "insert_of m"; cases "inserts_of ms"; cases "\<exists>m \<in> set ms. insert_of m = None") simp_all
  qed simp
  have "set ob = set ob'" using assms by (metis set_mset_mset)
  then show ?thesis using none [of ob] none [of ob'] val [of ob] val [of ob'] assms by simp
qed

text \<open>
  The basic format of a message does not depend on the order in which Go iterates over the members
  of its object, although the inserts are collected in that order.
\<close>

theorem formatBasic_order:
  assumes "distinct (map fst ob)" "mset ob = mset ob'"
  shows "formatBasic bad go_syntax ob = formatBasic bad go_syntax ob'"
proof -
  have "set ob = set ob'" using assms(2) by (metis set_mset_mset)
  moreover have "distinct (map fst ob')"
    using assms by (metis mset_map mset_eq_imp_distinct_iff)
  ultimately have m: "map_of ob = map_of ob'" using assms(1) by (simp add: map_of_inject_set)
  show ?thesis
  proof (cases "inserts_of ob")
    case None
    then show ?thesis using inserts_of_mset [OF assms(2)] by (simp add: formatBasic_def)
  next
    case (Some ins)
    then obtain ins' where ins': "inserts_of ob' = Some ins'" "mset ins = mset ins'"
      using inserts_of_mset [OF assms(2)] by (cases "inserts_of ob'") auto
    then have "sort ins = sort ins'" by (metis properties_for_sort mset_sort sorted_sort)
    moreover have "ins = [] \<longleftrightarrow> ins' = []" using ins'(2) by (metis mset_zero_iff)
    ultimately show ?thesis
      using Some ins'(1) m by (cases ins; cases ins') (simp_all add: formatBasic_def del: sort_key_simps)
  qed
qed

definition example_obj :: obj where
  "example_obj =
     [(''ibm_datetime'', JStr ''2025-01-01T00:00:00+0000''), (''message'', JStr ''two
lines''), (''ibm_arithInsert1'', JNum True ''0''), (''ibm_commentInsert1'', JStr ''QM1'')]"

lemma formatBasic_order_witness:
  "formatBasic (\<lambda>_. []) fmt_v example_obj = formatBasic (\<lambda>_. []) fmt_v (rev example_obj)"
proof (rule formatBasic_order)
  show "distinct (map fst example_obj)" by code_simp
  show "mset example_obj = mset (rev example_obj)" by simp
qed

lemma escape_no_newline: "newline \<notin> set (escape_newlines s)"
  using set_replace_char [of newline "[CHR 0x5C, CHR ''n'']" s] by (auto simp: escape_newlines_def)

lemma replace_first_newline: "newline \<notin> set new \<Longrightarrow> newline \<notin> set s \<Longrightarrow> newline \<notin> set (replace_first old new s)"
proof (induction s)
  case Nil
  then show ?case by (simp add: replace_first.simps)
next
  case (Cons c cs)
  then show ?case
    by (auto simp: replace_first.simps [of old new "c # cs"] dest: in_set_dropD)
qed

text \<open>
  Without inserts, the line of an ordinary message is a single line, whatever the message holds;
  but a message with inserts is written with the line breaks it holds.
\<close>

theorem basic_line_breaks:
  assumes "inserts_of ob = Some []" "map_of ob ''ibm_datetime'' = Some (JStr dt)" "newline \<notin> set dt"
    and "map_of ob ''message'' = Some (JStr m)"
    and "map_of ob ''type'' \<notin> {Some (JStr ''liberty_audit''), Some (JStr ''liberty_trace'')}"
  shows "\<exists>l. formatBasic bad go_syntax ob = Some (l @ [newline]) \<and> newline \<notin> set l
    \<and> formatBasic bad go_syntax example_obj = Some (''2025-01-01T00:00:00+0000 two'' @ [newline]
        @ ''lines [CommentInsert1(QM1)]'' @ [newline])"
proof -
  have "formatBasic bad go_syntax ob
      = Some ((replace_first ''+0000'' ''Z'' dt @ '' '' @ escape_newlines m) @ [newline])"
    using assms by (simp add: formatBasic_def format_members_def as_string_def fmt_s_def Let_def)
  moreover have "newline \<notin> set (replace_first ''+0000'' ''Z'' dt @ '' '' @ escape_newlines m)"
    using escape_no_newline [of m] replace_first_newline [of "''Z''" dt "''+0000''"] assms(3) by simp
  moreover have "formatBasic bad go_syntax example_obj = Some (''2025-01-01T00:00:00+0000 two'' @ [newline]
        @ ''lines [CommentInsert1(QM1)]'' @ [newline])"
  proof -
    have "inserts_of example_obj = Some [''CommentInsert1(QM1)'']" by code_simp
    then show ?thesis by (simp add: formatBasic_def fmt_s_def example_obj_def)
  qed
  ultimately show ?thesis by blast
qed

lemma basic_line_breaks_witness:
  "\<exists>l. formatBasic (\<lambda>_. []) fmt_v [(''message'', JStr ''a
b''), (''ibm_datetime'', JStr ''now'')] = Some (l @ [newline]) \<and> newline \<notin> set l"
proof -
  have "inserts_of [(''message'', JStr ''a
b''), (''ibm_datetime'', JStr ''now'')] = Some []" by code_simp
  from basic_line_breaks [OF this, of "''now''" "''a
b''" "\<lambda>_. []" fmt_v] show ?thesis by auto
qed

text \<open>
  The class name in a FINE, FINER or FINEST trace line is never shortened, whatever its length: the
  test that should shorten it looks at the module name, which is already short.
\<close>

theorem trace_class_not_shortened:
  assumes "opt_string ob ''ibm_threadId'' = Some thread" "opt_string ob ''module'' = Some module"
    and "opt_string ob ''ibm_className'' = Some cls" "opt_string ob ''ibm_methodName'' = Some meth"
    and "opt_string ob ''message'' = Some m" "level \<in> {''FINE'', ''FINER'', ''FINEST''}"
  shows "\<exists>l. trace_line t ob level = Some (Some (t @ '' '' @ thread @ '' '' @ pad13 (after_last_dot cls)
           @ '' '' @ l @ '' '' @ cls @ '' '' @ meth @ '' '' @ m @ [newline]))"
proof -
  have lv: "level_char ''FINE'' = Some ''1''" "level_char ''FINER'' = Some ''2''"
    "level_char ''FINEST'' = Some ''3''" by (simp_all add: level_char_def)
  show ?thesis using assms(6)
    by (elim insertE emptyE) (simp_all add: trace_line_def assms(1-5) lv Let_def)
qed

lemma trace_class_not_shortened_witness:
  "\<exists>l. trace_line ''now'' [''ibm_className'' \<mapsto> JStr ''com.ibm.AVeryLongClassName''] ''FINE''
     = Some (Some (''now  AVeryLongClassName '' @ l @ '' com.ibm.AVeryLongClassName  '' @ [newline]))"
proof -
  have p: "pad13 (after_last_dot ''com.ibm.AVeryLongClassName'') = ''AVeryLongClassName''"
    by code_simp
  show ?thesis
    using trace_class_not_shortened [of "[''ibm_className'' \<mapsto> JStr ''com.ibm.AVeryLongClassName'']"
        "[]" "[]" "''com.ibm.AVeryLongClassName''" "[]" "[]" "''FINE''" "''now''"]
    by (simp add: opt_string_def as_string_def p)
qed

end
