(* ===== verification/Mirror.thy ===== *)
theory Mirror
  imports Go_Strings
begin

text \<open>
  cmd/runmqserver/mirror.go: the goroutine that follows a log file and mirrors its lines, across the
  rotation of the file. The file system is modelled by the file at the path (a number that stands for
  what os.SameFile compares, or none) and the contents of every file. The program and its environment
  (the writer of the log, the rotation, the cancellation of the context) take turns in any order. The
  environment only rotates a file that the mirror has open, which is the race that a comment in the
  code warns about.
\<close>

section \<open>State\<close>

text \<open>
  The program points: waiting for the file to appear; with the file that was there already, about to ask for its state; at the top of the loop; after the first reading,
  about to look at the path; a rotation to file \<open>m\<close> was detected; the old file is closed; the new one
  is open; at the \<open>select\<close>; returned; returned after an error.
\<close>

datatype pc = AwaitFile | Begin | Top | Look | Rotated nat | Reopen nat | ReadNew | Select | Finished | Failed

text \<open>
  The last three components are not state of the program: all text to be mirrored that was written,
  the part of it that was read, and what had been written when the context was cancelled.
\<close>

record mirror =
  path_file :: "nat option"
  data :: "nat \<Rightarrow> string"
  opened :: "nat option"
  offset :: nat
  known :: nat
  closing :: bool
  cancelled :: bool
  at :: pc
  mirrored :: "string list"
  written :: string
  readtext :: string
  at_cancel :: string

section \<open>Operations\<close>

text \<open>
  The loop of \<open>waitForFile\<close> over what it sees in its rounds: whether the context is cancelled, and what \<open>os.Stat\<close> answers
  (that the file does not exist, an error, or the file). No answer is a loop that is still waiting.
\<close>

datatype stat_answer = Missing | StatError string | Found nat

fun waitForFile :: "string \<Rightarrow> (bool \<times> stat_answer) list \<Rightarrow> stat_answer option" where
  "waitForFile path [] = None"
| "waitForFile path ((True, answer) # polls) = Some answer"
| "waitForFile path ((False, Missing) # polls) = waitForFile path polls"
| "waitForFile path ((False, StatError e) # polls) = Some (StatError (''mirror: unable to get info on file '' @ path))"
| "waitForFile path ((False, Found n) # polls) = Some (Found n)"

text \<open>
  It returns with the first round that is cancelled or where there is an answer; that the file is missing is an answer only
  of a cancelled round.
\<close>

lemma waitForFile_waits: "waitForFile path polls = None \<longleftrightarrow> (\<forall>p \<in> set polls. p = (False, Missing))"
  by (induction path polls rule: waitForFile.induct) auto

lemma waitForFile_missing: "waitForFile path polls = Some Missing \<Longrightarrow> (True, Missing) \<in> set polls"
  by (induction path polls rule: waitForFile.induct) auto

text \<open>
  \<open>mirrorAvailableMessages\<close>: every line from the current position to the end is handed to the mirror
  function. A line that does not fit the scanner's buffer ends the reading; the bytes that had been
  buffered are lost for the next one.
\<close>

definition before_long :: "string \<Rightarrow> string list" where
  "before_long t = takeWhile (\<lambda>w. length w < 65536) (raw_lines t)"

definition consumed :: "string \<Rightarrow> nat" where
  "consumed t =
     (if scan_err t then length (concat (map (\<lambda>w. w @ [newline]) (before_long t))) + 65536 else length t)"

definition mirrorAvailableMessages :: "mirror \<Rightarrow> mirror" where
  "mirrorAvailableMessages s =
     (case opened s of
        None \<Rightarrow> s
      | Some n \<Rightarrow>
          let t = drop (offset s) (data s n)
          in s\<lparr>mirrored := mirrored s @ scan_lines t, offset := offset s + consumed t,
               readtext := readtext s @ take (consumed t) t\<rparr>)"

definition open_file :: "nat \<Rightarrow> mirror \<Rightarrow> mirror" where
  "open_file n s = s\<lparr>opened := Some n, offset := 0\<rparr>"

text \<open>
  What \<open>mirrorLog\<close> does before it starts the goroutine, on a file system with given contents, with the seek to the end of
  the file. A seek that fails is only logged: the mirror then starts as with \<open>fromStart\<close>.
\<close>

definition mirror_start :: "bool \<Rightarrow> nat option \<Rightarrow> (nat \<Rightarrow> string) \<Rightarrow> mirror" where
  "mirror_start fromStart p d =
     (let skip = (case p of None \<Rightarrow> 0 | Some n \<Rightarrow> if fromStart then 0 else length (d n))
      in \<lparr>path_file = p, data = d, opened = p, offset = skip,
          known = (case p of None \<Rightarrow> 0 | Some n \<Rightarrow> n), closing = False, cancelled = False,
          at = (if p = None then AwaitFile else Begin), mirrored = [],
          written = (case p of None \<Rightarrow> [] | Some n \<Rightarrow> drop skip (d n)), readtext = [], at_cancel = []\<rparr>)"

text \<open>Text of whole lines, each of which fits the scanner's buffer.\<close>

definition whole :: "string \<Rightarrow> bool" where
  "whole t \<longleftrightarrow> (t = [] \<or> last t = newline) \<and> (\<forall>w \<in> set (raw_lines t). length w < 65536)"

text \<open>
  The steps \<open>_error\<close> are those of a file that cannot be examined or opened; they end the mirror. Of a reading that
  fails nothing is modelled.
\<close>

inductive mirror_step :: "mirror \<Rightarrow> mirror \<Rightarrow> bool" where
  env_write:
    "path_file s = Some n \<Longrightarrow> whole t \<Longrightarrow>
     mirror_step s (s\<lparr>data := (data s)(n := data s n @ t), written := written s @ t\<rparr>)"
| env_remove:
    "path_file s = Some n \<Longrightarrow> opened s = Some n \<Longrightarrow> mirror_step s (s\<lparr>path_file := None\<rparr>)"
| env_create:
    "path_file s = None \<Longrightarrow> opened s \<noteq> Some n \<Longrightarrow> data s n = [] \<Longrightarrow> mirror_step s (s\<lparr>path_file := Some n\<rparr>)"
| env_cancel:
    "\<not> cancelled s \<Longrightarrow> mirror_step s (s\<lparr>cancelled := True, at_cancel := written s\<rparr>)"
| await_open:
    "at s = AwaitFile \<Longrightarrow> path_file s = Some n \<Longrightarrow> mirror_step s (open_file n (s\<lparr>known := n, at := Top\<rparr>))"
| begin_known:
    "at s = Begin \<Longrightarrow> mirror_step s (s\<lparr>at := Top\<rparr>)"
| begin_fail:
    "at s = Begin \<Longrightarrow> mirror_step s (s\<lparr>at := Failed\<rparr>)"
| await_error:
    "at s = AwaitFile \<Longrightarrow> mirror_step s (s\<lparr>at := Failed\<rparr>)"
| await_fail:
    "at s = AwaitFile \<Longrightarrow> cancelled s \<Longrightarrow> path_file s = None \<Longrightarrow> mirror_step s (s\<lparr>at := Failed\<rparr>)"
| read_top:
    "at s = Top \<Longrightarrow> mirror_step s ((mirrorAvailableMessages s)\<lparr>at := Look\<rparr>)"
| look_same:
    "at s = Look \<Longrightarrow> path_file s = Some (known s) \<Longrightarrow> mirror_step s (s\<lparr>at := Select\<rparr>)"
| look_rotated:
    "at s = Look \<Longrightarrow> path_file s = Some n \<Longrightarrow> n \<noteq> known s \<Longrightarrow> mirror_step s (s\<lparr>at := Rotated n\<rparr>)"
| look_fail:
    "at s = Look \<Longrightarrow> cancelled s \<Longrightarrow> path_file s = None \<Longrightarrow> mirror_step s (s\<lparr>at := Failed\<rparr>)"
| look_error:
    "at s = Look \<Longrightarrow> mirror_step s (s\<lparr>at := Failed\<rparr>)"
| read_rest:
    "at s = Rotated n \<Longrightarrow> mirror_step s ((mirrorAvailableMessages s)\<lparr>at := Reopen n\<rparr>)"
| reopen:
    "at s = Reopen n \<Longrightarrow> path_file s = Some m \<Longrightarrow>
     mirror_step s (open_file m (s\<lparr>known := n, at := ReadNew\<rparr>))"
| reopen_fail:
    "at s = Reopen n \<Longrightarrow> path_file s = None \<Longrightarrow> mirror_step s (s\<lparr>at := Failed\<rparr>)"
| reopen_error:
    "at s = Reopen n \<Longrightarrow> mirror_step s (s\<lparr>at := Failed\<rparr>)"
| read_new:
    "at s = ReadNew \<Longrightarrow> mirror_step s ((mirrorAvailableMessages s)\<lparr>at := Select\<rparr>)"
| select_loop:
    "at s = Select \<Longrightarrow> \<not> cancelled s \<Longrightarrow> mirror_step s (s\<lparr>at := Top\<rparr>)"
| select_closing:
    "at s = Select \<Longrightarrow> cancelled s \<Longrightarrow> \<not> closing s \<Longrightarrow> mirror_step s (s\<lparr>closing := True, at := Top\<rparr>)"
| select_finished:
    "at s = Select \<Longrightarrow> cancelled s \<Longrightarrow> closing s \<Longrightarrow> mirror_step s (s\<lparr>at := Finished\<rparr>)"

section \<open>Lines of whole text\<close>

lemma raw_lines_terminated: "raw_lines (a @ newline # b) = split_on newline a @ raw_lines b"
  by (simp add: raw_lines_def split_on_append Let_def butlast_append)

lemma raw_lines_whole:
  assumes "a = [] \<or> last a = newline"
  shows "raw_lines (a @ b) = raw_lines a @ raw_lines b"
proof (cases "a = []")
  case True
  then show ?thesis by (simp add: raw_lines_def)
next
  case False
  then have "a = butlast a @ newline # []" using assms by (metis append_butlast_last_id)
  then obtain c where "a = c @ newline # []" by blast
  then show ?thesis using raw_lines_terminated [of c b] raw_lines_terminated [of c "[]"]
    by (simp add: raw_lines_def [of "[]"])
qed

lemma whole_append: "whole a \<Longrightarrow> whole b \<Longrightarrow> whole (a @ b)"
  by (cases "b = []") (auto simp: whole_def raw_lines_whole)

lemma whole_Nil [simp]: "whole []"
  by (simp add: whole_def raw_lines_def)

lemma whole_scan:
  assumes "whole t"
  shows "scan_lines t = map drop_cr (raw_lines t)" "\<not> scan_err t" "consumed t = length t"
  using assms short_lines [of t] by (auto simp: whole_def consumed_def)

lemma scan_lines_append:
  "whole a \<Longrightarrow> whole b \<Longrightarrow> scan_lines (a @ b) = scan_lines a @ scan_lines b"
  using whole_scan [of a] whole_scan [of b] whole_scan [of "a @ b"] whole_append [of a b]
  by (simp add: whole_def raw_lines_whole)

section \<open>The invariant\<close>

text \<open>What is still to be read of the open file, and what is in a new file at the path.\<close>

definition mine :: "mirror \<Rightarrow> string" where
  "mine s = (case opened s of None \<Rightarrow> [] | Some n \<Rightarrow> drop (offset s) (data s n))"

definition other :: "mirror \<Rightarrow> string" where
  "other s =
     (case path_file s of None \<Rightarrow> [] | Some m \<Rightarrow> if opened s = Some m then [] else data s m)"

definition text_inv :: "mirror \<Rightarrow> bool" where
  "text_inv s \<longleftrightarrow> readtext s @ mine s @ other s = written s \<and> mirrored s = scan_lines (readtext s)
     \<and> whole (readtext s) \<and> whole (mine s) \<and> whole (other s)
     \<and> (\<forall>n. opened s = Some n \<longrightarrow> offset s \<le> length (data s n))"

fun place_ok :: "pc \<Rightarrow> mirror \<Rightarrow> bool" where
  "place_ok AwaitFile s = (opened s = None)"
| "place_ok (Rotated n) s = (opened s \<noteq> None \<and> path_file s = Some n \<and> opened s \<noteq> Some n)"
| "place_ok (Reopen n) s = (opened s \<noteq> None \<and> path_file s = Some n \<and> opened s \<noteq> Some n \<and> mine s = [])"
| "place_ok Failed s = True"
| "place_ok p s = (opened s = Some (known s))"

definition caught_up :: "mirror \<Rightarrow> bool" where
  "caught_up s \<longleftrightarrow> prefix (at_cancel s) (readtext s)"

definition cancel_inv :: "mirror \<Rightarrow> bool" where
  "cancel_inv s \<longleftrightarrow>
     (cancelled s \<longrightarrow> prefix (at_cancel s) (written s) \<and> whole (at_cancel s))
     \<and> (closing s \<longrightarrow> cancelled s)
     \<and> (closing s \<and> (at s = Select \<or> at s = Finished) \<longrightarrow> caught_up s)
     \<and> (closing s \<and> at s = Look \<and> path_file s = opened s \<longrightarrow> caught_up s)
     \<and> (closing s \<and> at s = ReadNew \<longrightarrow> prefix (at_cancel s) (readtext s @ mine s))
     \<and> (at s = Finished \<longrightarrow> closing s)"

definition mirror_inv :: "mirror \<Rightarrow> bool" where
  "mirror_inv s \<longleftrightarrow> text_inv s \<and> place_ok (at s) s \<and> cancel_inv s"

lemma read_effect:
  assumes "text_inv s" "opened s = Some n"
  shows "mirrorAvailableMessages s
    = s\<lparr>mirrored := mirrored s @ scan_lines (mine s), offset := length (data s n),
        readtext := readtext s @ mine s\<rparr>"
proof -
  have m: "mine s = drop (offset s) (data s n)" using assms(2) by (simp add: mine_def)
  have "whole (mine s)" using assms(1) by (simp add: text_inv_def)
  then have "consumed (mine s) = length (mine s)" by (rule whole_scan)
  moreover have "offset s + length (mine s) = length (data s n)"
    using assms m by (simp add: text_inv_def)
  ultimately show ?thesis using assms(2) m by (simp add: mirrorAvailableMessages_def Let_def)
qed

lemma read_inv:
  assumes "text_inv s" "opened s = Some n"
  shows "text_inv ((mirrorAvailableMessages s)\<lparr>at := p\<rparr>)"
    "mine ((mirrorAvailableMessages s)\<lparr>at := p\<rparr>) = []"
    "other ((mirrorAvailableMessages s)\<lparr>at := p\<rparr>) = other s"
    "readtext ((mirrorAvailableMessages s)\<lparr>at := p\<rparr>) = readtext s @ mine s"
proof -
  let ?t = "(mirrorAvailableMessages s)\<lparr>at := p\<rparr>"
  note eff = read_effect [OF assms]
  show m: "mine ?t = []" using assms(2) by (simp add: eff mine_def)
  show o: "other ?t = other s" by (simp add: eff other_def split: option.splits)
  show r: "readtext ?t = readtext s @ mine s" by (simp add: eff)
  have "whole (readtext s @ mine s)" using assms(1) by (simp add: text_inv_def whole_append)
  moreover have "mirrored ?t = scan_lines (readtext s @ mine s)"
    using assms(1) by (simp add: eff text_inv_def scan_lines_append)
  ultimately show "text_inv ?t"
    using assms m o r by (simp add: text_inv_def) (simp add: eff)
qed

lemmas mirror_frame = text_inv_def mine_def other_def cancel_inv_def caught_up_def

lemma prefix_more: "prefix a (x @ y) \<Longrightarrow> prefix a (x @ y @ t)"
  by (metis append_assoc prefix_prefix)

lemma inv_write:
  assumes "mirror_inv s" "path_file s = Some n" "whole t"
  shows "mirror_inv (s\<lparr>data := (data s)(n := data s n @ t), written := written s @ t\<rparr>)"
proof -
  let ?u = "s\<lparr>data := (data s)(n := data s n @ t), written := written s @ t\<rparr>"
  have parts: "if opened s = Some n then mine ?u = mine s @ t \<and> other ?u = other s \<and> other s = []
      else mine ?u = mine s \<and> other ?u = other s @ t"
    using assms by (auto simp: mirror_inv_def text_inv_def mine_def other_def split: option.splits)
  then have "text_inv ?u"
    using assms by (auto simp: mirror_inv_def text_inv_def whole_append split: if_splits)
  moreover have "place_ok (at s) ?u"
    using assms parts by (cases "at s") (auto simp: mirror_inv_def split: if_splits)
  moreover have "cancel_inv ?u"
    using assms parts prefix_more
    by (auto simp: mirror_inv_def cancel_inv_def caught_up_def split: if_splits)
  ultimately show ?thesis by (simp add: mirror_inv_def)
qed

lemma mirror_step_inv [inv_intros]:
  "mirror_step s s' \<Longrightarrow> mirror_inv s \<Longrightarrow> mirror_inv s'"
proof (induction rule: mirror_step.induct)
  case (env_write s n t)
  then show ?case using inv_write by blast
next
  case (env_remove s n)
  then show ?case by (cases "at s") (auto simp: mirror_inv_def mirror_frame split: option.splits)
next
  case (env_create s n)
  then show ?case by (cases "at s") (auto simp: mirror_inv_def mirror_frame split: option.splits)
next
  case (env_cancel s)
  then have "whole (written s)"
    unfolding mirror_inv_def text_inv_def using whole_append by metis
  with env_cancel show ?case
    by (cases "at s") (auto simp: mirror_inv_def mirror_frame split: option.splits)
next
  case (await_open s n)
  then show ?case by (auto simp: mirror_inv_def mirror_frame open_file_def)
next
  case (read_top s)
  then have o: "opened s = Some (known s)" and t: "text_inv s" by (auto simp: mirror_inv_def)
  have "other s = [] \<or> path_file s \<noteq> opened s" by (auto simp: other_def split: option.splits)
  then show ?case using read_inv [OF t o, of Look] read_top read_effect [OF t o]
    by (auto simp: mirror_inv_def cancel_inv_def caught_up_def text_inv_def)
next
  case (read_rest s n)
  then obtain k where o: "opened s = Some k" and t: "text_inv s" by (auto simp: mirror_inv_def)
  show ?case using read_inv [OF t o, of "Reopen n"] read_rest read_effect [OF t o]
    by (auto simp: mirror_inv_def cancel_inv_def caught_up_def)
next
  case (read_new s)
  then have o: "opened s = Some (known s)" and t: "text_inv s" by (auto simp: mirror_inv_def)
  then show ?case using read_inv [OF t o, of Select] read_new read_effect [OF t o]
    by (auto simp: mirror_inv_def cancel_inv_def caught_up_def)
next
  case (reopen s n m)
  then show ?case by (auto simp: mirror_inv_def mirror_frame open_file_def)
qed (auto simp: mirror_inv_def mirror_frame split: option.splits)

section \<open>What the mirror guarantees\<close>

definition good_start :: "bool \<Rightarrow> nat option \<Rightarrow> (nat \<Rightarrow> string) \<Rightarrow> bool" where
  "good_start fromStart p d \<longleftrightarrow>
     (case p of None \<Rightarrow> True | Some n \<Rightarrow> if fromStart then whole (d n) else True)"

lemma mirror_start_inv: "good_start fromStart p d \<Longrightarrow> mirror_inv (mirror_start fromStart p d)"
  by (cases p) (auto simp: mirror_inv_def mirror_frame mirror_start_def good_start_def Let_def
      scan_lines_def raw_lines_def split: if_splits)

lemma mirror_reachable_inv:
  assumes "mirror_step\<^sup>*\<^sup>* (mirror_start fromStart p d) s" "good_start fromStart p d"
  shows "mirror_inv s"
  using assms(1) by (induction rule: rtranclp_induct) (simp_all add: mirror_start_inv assms(2) mirror_step_inv)

lemma scan_lines_prefix:
  assumes "whole a" "whole (a @ b)"
  shows "prefix (scan_lines a) (scan_lines (a @ b))"
  using whole_scan(1) [OF assms(1)] whole_scan(1) [OF assms(2)] assms(1)
  by (simp add: whole_def raw_lines_whole)

text \<open>
  C5. Every line exactly once, in order, across rotations: at any point of any run, in which the writer
  writes whole lines and the file is rotated only while the mirror has it open, the lines handed to the
  mirror function are the first lines of all the text written; and when the goroutine has finished,
  they include every line that had been written when the context was cancelled.
\<close>

theorem mirror_complete:
  assumes "mirror_step\<^sup>*\<^sup>* (mirror_start fromStart p d) s" "good_start fromStart p d"
  shows "prefix (mirrored s) (scan_lines (written s))
    \<and> (at s = Finished \<longrightarrow> prefix (scan_lines (at_cancel s)) (mirrored s))"
proof -
  have inv: "mirror_inv s" using mirror_reachable_inv [OF assms] .
  then have t: "readtext s @ mine s @ other s = written s" "mirrored s = scan_lines (readtext s)"
    "whole (readtext s)" "whole (mine s)" "whole (other s)"
    by (simp_all add: mirror_inv_def text_inv_def)
  have "prefix (scan_lines (readtext s)) (scan_lines (readtext s @ mine s @ other s))"
    using t by (intro scan_lines_prefix whole_append)
  moreover have "prefix (scan_lines (at_cancel s)) (mirrored s)" if "at s = Finished"
  proof -
    have "prefix (at_cancel s) (readtext s)" "whole (at_cancel s)"
      using inv that by (auto simp: mirror_inv_def cancel_inv_def caught_up_def)
    then obtain b where "readtext s = at_cancel s @ b" "whole (at_cancel s)" by (auto simp: prefix_def)
    then show ?thesis using t(2,3) scan_lines_prefix [of "at_cancel s" b] by simp
  qed
  ultimately show ?thesis using t(1,2) by simp
qed

lemma mirror_complete_witness:
  "prefix (mirrored ((mirrorAvailableMessages ((mirror_start True (Some 0) (\<lambda>_. ''up
''))\<lparr>at := Top\<rparr>))\<lparr>at := Look\<rparr>)) [''up'']"
proof -
  let ?d = "\<lambda>_ :: nat. ''up
''"
  let ?s = "mirror_start True (Some 0) ?d"
  let ?t = "?s\<lparr>at := Top\<rparr>"
  let ?u = "(mirrorAvailableMessages ?t)\<lparr>at := Look\<rparr>"
  have raw: "raw_lines ''up
'' = [''up'']" by code_simp
  have w: "whole ''up
''" by (simp add: whole_def raw)
  have "mirror_step ?s ?t" by (rule begin_known) (simp add: mirror_start_def Let_def)
  moreover have "mirror_step ?t ?u" by (rule read_top) simp
  ultimately have "mirror_step\<^sup>*\<^sup>* ?s ?u" by (meson converse_rtranclp_into_rtranclp rtranclp.rtrancl_refl)
  moreover have "good_start True (Some 0) ?d" using w by (simp add: good_start_def)
  moreover have "written ?u = ''up
''"
    by (simp add: mirrorAvailableMessages_def mirror_start_def Let_def)
  moreover have "scan_lines ''up
'' = [''up'']" using whole_scan(1) [OF w] by (simp add: raw drop_cr_def)
  ultimately show ?thesis using mirror_complete [of True "Some 0" ?d ?u] by auto
qed

text \<open>
  A line that the writer has not finished when the mirror reads it is mirrored in two pieces: the
  scanner takes the end of what is there for the end of the line.
\<close>

theorem partial_line_split:
  "let s = mirror_start True (Some 0) (\<lambda>_. ''ab''); t = mirrorAvailableMessages s;
       u = mirrorAvailableMessages (t\<lparr>data := (data t)(0 := ''abcd'' @ [newline])\<rparr>)
   in mirrored u = [''ab'', ''cd'']"
proof -
  have raw: "raw_lines ''ab'' = [''ab'']" "raw_lines (''cd'' @ [newline]) = [''cd'']" by code_simp+
  have sc: "scan_lines ''ab'' = [''ab'']" "scan_lines (''cd'' @ [newline]) = [''cd'']"
      "\<not> scan_err ''ab''" "\<not> scan_err (''cd'' @ [newline])"
    using short_lines [of "''ab''"] short_lines [of "''cd'' @ [newline]"] raw by (simp_all add: drop_cr_def)
  show ?thesis using sc
    by (simp add: mirrorAvailableMessages_def mirror_start_def Let_def consumed_def)
qed

end
