(* ===== verification/Signals.thy ===== *)
theory Signals
  imports Main
begin

text \<open>
  cmd/runmqserver/signals.go: the goroutine that handles signals and job control requests. The main
  thread sends it requests over an unbuffered channel while it starts the system up, and then waits for
  the channel to be closed; a stop signal first lets the start-up finish, then stops the metrics and,
  in a goroutine of its own, the queue manager, and finally the handler itself. Which case of a select
  is taken, and when signals, exits of processes and the end of the queue manager happen, is arbitrary.
\<close>

section \<open>State\<close>

text \<open>The outer loop, the inner loop after a stop signal, and the end with the channel closed.\<close>

datatype handler_pc = Loop | Inner | Closed

abbreviation (input) startReaping :: int where "startReaping \<equiv> 0"
abbreviation (input) reapNow :: int where "reapNow \<equiv> 1"

record signals =
  pc :: handler_pc
  stopTriggered :: bool
  stopPending :: bool
  unsubscribed :: bool
  listening :: bool
  chldPending :: bool
  zombies :: nat
  jobs :: "int list"
  startupDone :: bool
  summaries :: nat
  metricsStops :: nat
  stopping :: bool
  qmgrStops :: nat
  shutdownDone :: bool

definition signals_start :: "int list \<Rightarrow> signals" where
  "signals_start js =
     \<lparr>pc = Loop, stopTriggered = False, stopPending = False, unsubscribed = False, listening = False,
      chldPending = False, zombies = 0, jobs = js, startupDone = False, summaries = 0,
      metricsStops = 0, stopping = False, qmgrStops = 0, shutdownDone = False\<rparr>"

section \<open>Operations\<close>

text \<open>\<open>reapZombies\<close> waits for every process that has ended.\<close>

definition reapZombies :: "signals \<Rightarrow> signals" where
  "reapZombies s = s\<lparr>zombies := 0\<rparr>"

definition processControlSignal :: "int \<Rightarrow> signals \<Rightarrow> signals" where
  "processControlSignal job s =
     (if job = startReaping then s\<lparr>listening := True\<rparr>
      else if job = reapNow then reapZombies s else s)"

text \<open>What happens to a stop signal that is taken from its channel.\<close>

definition take_stop :: "signals \<Rightarrow> signals" where
  "take_stop s =
     (if stopTriggered s then s\<lparr>stopPending := False\<rparr>
      else s\<lparr>stopPending := False, summaries := Suc (summaries s), unsubscribed := True,
             stopTriggered := True, pc := Inner\<rparr>)"

definition begin_shutdown :: "signals \<Rightarrow> signals" where
  "begin_shutdown s = s\<lparr>metricsStops := Suc (metricsStops s), stopping := True, pc := Loop\<rparr>"

definition finish :: "signals \<Rightarrow> signals" where
  "finish s = (reapZombies s)\<lparr>listening := False, pc := Closed\<rparr>"

inductive signal_step :: "signals \<Rightarrow> signals \<Rightarrow> bool" where
  stop_arrives: "\<not> unsubscribed s \<Longrightarrow> signal_step s (s\<lparr>stopPending := True\<rparr>)"
| process_exits:
    "signal_step s (s\<lparr>zombies := Suc (zombies s), chldPending := (chldPending s \<or> listening s)\<rparr>)"
| startup_done: "\<not> startupDone s \<Longrightarrow> signal_step s (s\<lparr>startupDone := True, jobs := []\<rparr>)"
| job_handled:
    "pc s = Loop \<or> pc s = Inner \<Longrightarrow> jobs s = j # js \<Longrightarrow>
     signal_step s (processControlSignal j (s\<lparr>jobs := js\<rparr>))"
| stop_taken: "pc s = Loop \<Longrightarrow> stopPending s \<Longrightarrow> signal_step s (take_stop s)"
| shutdown_begins: "pc s = Inner \<Longrightarrow> startupDone s \<Longrightarrow> signal_step s (begin_shutdown s)"
| qmgr_stopped:
    "stopping s \<Longrightarrow> signal_step s (s\<lparr>stopping := False, qmgrStops := Suc (qmgrStops s), shutdownDone := True\<rparr>)"
| child_reaped:
    "pc s = Loop \<Longrightarrow> chldPending s \<Longrightarrow> signal_step s (reapZombies (s\<lparr>chldPending := False\<rparr>))"
| closes: "pc s = Loop \<Longrightarrow> shutdownDone s \<Longrightarrow> signal_step s (finish s)"


section \<open>The invariant\<close>

text \<open>
  The four phases: no stop yet; waiting for the end of the start-up; stopping the queue manager; the
  queue manager has been stopped.
\<close>

definition phase_inv :: "signals \<Rightarrow> bool" where
  "phase_inv s \<longleftrightarrow>
     (startupDone s \<longrightarrow> jobs s = [])
     \<and> unsubscribed s = stopTriggered s
     \<and> summaries s = (if stopTriggered s then 1 else 0)
     \<and> (\<not> stopTriggered s \<and> pc s = Loop \<and> metricsStops s = 0 \<and> \<not> stopping s \<and> qmgrStops s = 0 \<and> \<not> shutdownDone s
        \<or> stopTriggered s \<and> pc s = Inner \<and> metricsStops s = 0 \<and> \<not> stopping s \<and> qmgrStops s = 0 \<and> \<not> shutdownDone s
        \<or> stopTriggered s \<and> pc s = Loop \<and> startupDone s \<and> metricsStops s = 1 \<and> stopping s \<and> qmgrStops s = 0 \<and> \<not> shutdownDone s
        \<or> stopTriggered s \<and> pc s \<in> {Loop, Closed} \<and> startupDone s \<and> metricsStops s = 1 \<and> \<not> stopping s \<and> qmgrStops s = 1 \<and> shutdownDone s)"

lemmas signal_ops = reapZombies_def processControlSignal_def take_stop_def begin_shutdown_def finish_def

lemma phase_inv_start: "phase_inv (signals_start js)"
  by (simp add: phase_inv_def signals_start_def)

lemma phase_inv_step: "signal_step s s' \<Longrightarrow> phase_inv s \<Longrightarrow> phase_inv s'"
  by (induction rule: signal_step.induct) (simp_all add: phase_inv_def signal_ops, auto)

lemma phase_inv_reachable:
  "signal_step\<^sup>*\<^sup>* (signals_start js) s \<Longrightarrow> phase_inv s"
  by (induction rule: rtranclp_induct) (auto simp: phase_inv_start phase_inv_step)





end
