(* ===== verification/Mq_Version.thy ===== *)
theory Mq_Version
  imports Host
begin

text \<open>
  internal/mqversion: version numbers of four parts, their order, and the comparison of the installed
  version with a given one.
\<close>

datatype vrmf = VRMF int int int int

fun parts :: "vrmf \<Rightarrow> int list" where
  "parts (VRMF v r m f) = [v, r, m, f]"

definition vrmf_String :: "vrmf \<Rightarrow> string" where
  "vrmf_String v = join ''.'' (map itoa (parts v))"

text \<open>The loop over the four parts.\<close>

fun compare_parts :: "int list \<Rightarrow> int list \<Rightarrow> int" where
  "compare_parts [] ys = 0"
| "compare_parts (x # xs) [] = 0"
| "compare_parts (x # xs) (y # ys) =
     (if x < y then -1 else if x > y then 1 else compare_parts xs ys)"

definition compare :: "vrmf \<Rightarrow> vrmf \<Rightarrow> int" where
  "compare v to = compare_parts (parts v) (parts to)"

definition part_names :: "string list" where
  "part_names = [''version'', ''release'', ''minor'', ''fix'']"

definition parse_part :: "nat \<Rightarrow> string \<Rightarrow> (string, int) result" where
  "parse_part idx value =
     (let partName = part_names ! idx in
      if value = [] then Inl (''empty '' @ partName @ '' found in VRMF'')
      else (case parse_int64 value of
              None \<Rightarrow> Inl (''non-numeric '' @ partName @ '' found in VRMF'')
            | Some val \<Rightarrow>
                if val < 0 then Inl (''negative '' @ partName @ '' found in VRMF'')
                else if idx = 0 \<and> val = 0 then Inl ''zero value for version not allowed''
                else Inr val))"

fun parse_parts :: "nat \<Rightarrow> string list \<Rightarrow> (string, int list) result" where
  "parse_parts idx [] = Inr []"
| "parse_parts idx (w # ws) =
     (case parse_part idx w of
        Inl e \<Rightarrow> Inl e
      | Inr n \<Rightarrow> (case parse_parts (Suc idx) ws of Inl e \<Rightarrow> Inl e | Inr ns \<Rightarrow> Inr (n # ns)))"

definition parseVRMF :: "string \<Rightarrow> (string, vrmf) result" where
  "parseVRMF vrmfString =
     (let versionParts = split_on CHR ''.'' vrmfString in
      if length versionParts \<noteq> 4 then
        Inl (''incorrect number of parts to version string: expected 4, got ''
             @ itoa (int (length versionParts)))
      else (case parse_parts 0 versionParts of
              Inl e \<Rightarrow> Inl e
            | Inr ns \<Rightarrow> Inr (VRMF (ns ! 0) (ns ! 1) (ns ! 2) (ns ! 3))))"

definition GetVersion :: "host \<Rightarrow> (string, string) result \<times> host" where
  "GetVersion h =
     (case run_cmd [''dspmqver'', ''-b'', ''-f'', ''2''] h of
        (r, h1) \<Rightarrow>
          (case cmd_err r of
             Some e \<Rightarrow> (Inl (''Error Getting MQ version: '' @ e), h1)
           | None \<Rightarrow> (Inr (trim_space (cmd_out r)), h1)))"

definition Compare :: "string \<Rightarrow> host \<Rightarrow> (string, int) result \<times> host" where
  "Compare checkVersion h =
     (case GetVersion h of
        (Inl e, h1) \<Rightarrow> (Inl e, h1)
      | (Inr currentVersion, h1) \<Rightarrow>
          (case parseVRMF currentVersion of
             Inl e \<Rightarrow> (Inl e, h1)
           | Inr currentVRMF \<Rightarrow>
               (case parseVRMF checkVersion of
                  Inl e \<Rightarrow> (Inl (''failed to parse compare version: '' @ e), h1)
                | Inr compareVRMF \<Rightarrow> (Inr (compare currentVRMF compareVRMF), h1))))"

section \<open>The order of versions\<close>

lemma parts_length [simp]: "length (parts v) = 4"
  by (cases v) simp

lemma parts_inject: "parts v = parts w \<longleftrightarrow> v = w"
  by (cases v; cases w) simp

lemma compare_parts_Nil [simp]: "compare_parts xs [] = 0"
  by (cases xs) simp_all

lemma compare_parts_refl [simp]: "compare_parts xs xs = 0"
  by (induction xs) simp_all

lemma compare_parts_zero: "length xs = length ys \<Longrightarrow> compare_parts xs ys = 0 \<longleftrightarrow> xs = ys"
  by (induction xs ys rule: compare_parts.induct) auto

lemma compare_parts_flip: "compare_parts ys xs = - compare_parts xs ys"
  by (induction xs ys rule: compare_parts.induct) simp_all

lemma compare_parts_trans:
  "length xs = length ys \<Longrightarrow> length ys = length zs \<Longrightarrow>
   compare_parts xs ys \<le> 0 \<Longrightarrow> compare_parts ys zs \<le> 0 \<Longrightarrow> compare_parts xs zs \<le> 0"
proof (induction xs arbitrary: ys zs)
  case (Cons x xs)
  then obtain y ys' z zs' where "ys = y # ys'" "zs = z # zs'"
    by (metis length_Suc_conv)
  note yz = this
  have le: "x < y \<or> x = y \<and> compare_parts xs ys' \<le> 0" "y < z \<or> y = z \<and> compare_parts ys' zs' \<le> 0"
    using Cons.prems(3,4) by (simp_all add: yz split: if_splits)
  have "compare_parts xs zs' \<le> 0" if "compare_parts xs ys' \<le> 0" "compare_parts ys' zs' \<le> 0"
    using Cons.IH [of ys' zs'] Cons.prems(1,2) that yz by simp
  then show ?case using le by (auto simp: yz)
qed simp

instantiation vrmf :: linorder
begin

definition less_eq_vrmf :: "vrmf \<Rightarrow> vrmf \<Rightarrow> bool" where
  "v \<le> w \<longleftrightarrow> compare v w \<le> 0"

definition less_vrmf :: "vrmf \<Rightarrow> vrmf \<Rightarrow> bool" where
  "v < w \<longleftrightarrow> compare v w < 0"

instance
proof
  fix u v w :: vrmf
  show "v \<le> v" by (simp add: less_eq_vrmf_def compare_def)
  show "v < w \<longleftrightarrow> v \<le> w \<and> \<not> w \<le> v"
    using compare_parts_flip [of "parts v" "parts w"]
    by (auto simp: less_eq_vrmf_def less_vrmf_def compare_def)
  show "v \<le> w \<or> w \<le> v"
    using compare_parts_flip [of "parts v" "parts w"] by (auto simp: less_eq_vrmf_def compare_def)
  show "v \<le> w \<Longrightarrow> w \<le> v \<Longrightarrow> v = w"
    using compare_parts_flip [of "parts v" "parts w"] compare_parts_zero [of "parts v" "parts w"]
    by (simp add: less_eq_vrmf_def compare_def parts_inject)
  show "u \<le> v \<Longrightarrow> v \<le> w \<Longrightarrow> u \<le> w"
    using compare_parts_trans [of "parts u" "parts v" "parts w"] by (simp add: less_eq_vrmf_def compare_def)
qed

end

lemma compare_range: "compare v w \<in> {-1, 0, 1}"
proof -
  have "compare_parts xs ys \<in> {-1, 0, 1}" for xs ys
    by (induction xs ys rule: compare_parts.induct) auto
  then show ?thesis by (simp add: compare_def)
qed

definition valid_vrmf :: "vrmf \<Rightarrow> bool" where
  "valid_vrmf v \<longleftrightarrow> list_all (\<lambda>n. 0 \<le> n \<and> n < 2 ^ 63) (parts v) \<and> 0 < hd (parts v)"



lemma itoa_no_dot: "0 \<le> n \<Longrightarrow> CHR ''.'' \<notin> set (itoa n) \<and> itoa n \<noteq> []"
  using nat_digits_no_dot by (simp add: itoa_def)

lemma parse_part_itoa:
  "0 \<le> n \<Longrightarrow> n < 2 ^ 63 \<Longrightarrow> (idx = 0 \<longrightarrow> 0 < n) \<Longrightarrow> parse_part idx (itoa n) = Inr n"
  using parse_itoa [of n] itoa_no_dot [of n] by (auto simp: parse_part_def Let_def)

lemma parse_part_valid: "parse_part idx w = Inr n \<Longrightarrow> 0 \<le> n \<and> n < 2 ^ 63 \<and> (idx = 0 \<longrightarrow> 0 < n)"
  by (auto simp: parse_part_def Let_def parse_int64_def split: option.splits if_splits list.splits)

lemma parse_parts_valid: "parse_parts idx ws = Inr ns \<Longrightarrow> list_all (\<lambda>n. 0 \<le> n \<and> n < 2 ^ 63) ns \<and> length ns = length ws \<and> (idx = 0 \<and> ns \<noteq> [] \<longrightarrow> 0 < hd ns)"
  by (induction idx ws arbitrary: ns rule: parse_parts.induct)
     (auto split: sum.splits dest: parse_part_valid)

lemma parse_printed: "valid_vrmf v \<longleftrightarrow> parseVRMF (vrmf_String v) = Inr v"
proof
  assume v: "valid_vrmf v"
  obtain a b c d where abcd: "v = VRMF a b c d" by (cases v)
  have ws: "split_on CHR ''.'' (vrmf_String v) = map itoa (parts v)"
    using v itoa_no_dot split_on_join [of "map itoa (parts v)" "CHR ''.''"]
    by (simp add: vrmf_String_def abcd valid_vrmf_def)
  then show "parseVRMF (vrmf_String v) = Inr v"
    using v by (simp add: parseVRMF_def abcd valid_vrmf_def parse_part_itoa)
next
  assume "parseVRMF (vrmf_String v) = Inr v"
  then obtain ns where ns: "parse_parts 0 (split_on CHR ''.'' (vrmf_String v)) = Inr ns"
    "length (split_on CHR ''.'' (vrmf_String v)) = 4" "v = VRMF (ns ! 0) (ns ! 1) (ns ! 2) (ns ! 3)"
    by (auto simp: parseVRMF_def Let_def split: if_splits sum.splits)
  then have "length ns = 4" "list_all (\<lambda>n. 0 \<le> n \<and> n < 2 ^ 63) ns" "0 < hd ns"
    using parse_parts_valid [OF ns(1)] by auto
  moreover have "ns = [ns ! 0, ns ! 1, ns ! 2, ns ! 3]"
    using \<open>length ns = 4\<close> by (intro nth_equalityI) (auto simp: less_Suc_eq numeral_eq_Suc)
  ultimately show "valid_vrmf v" using ns(3) unfolding valid_vrmf_def by (metis parts.simps)
qed


text \<open>
  The comparison with the installed version is the total order on versions: for an installed
  version \<open>v\<close> and a valid version \<open>w\<close> the result is -1, 0 or 1 exactly as \<open>v\<close> is below, equal to or
  above \<open>w\<close>, and it does not change the host beyond running \<open>dspmqver\<close>.
\<close>

theorem Compare_is_order:
  assumes "cmd_err (exec h (cmds h) [''dspmqver'', ''-b'', ''-f'', ''2'']) = None"
    and "parseVRMF (trim_space (cmd_out (exec h (cmds h) [''dspmqver'', ''-b'', ''-f'', ''2'']))) = Inr v"
    and "valid_vrmf w"
  shows "Compare (vrmf_String w) h
       = (Inr (if v < w then -1 else if v = w then 0 else 1), h\<lparr>cmds := cmds h @ [[''dspmqver'', ''-b'', ''-f'', ''2'']]\<rparr>)"
proof -
  have w: "parseVRMF (vrmf_String w) = Inr w" using assms(3) parse_printed by simp
  have "compare v w = (if v < w then -1 else if v = w then 0 else 1)"
    using compare_range [of v w] compare_parts_zero [of "parts v" "parts w"]
    by (auto simp: less_vrmf_def compare_def parts_inject)
  then show ?thesis using assms(1,2) w by (simp add: Compare_def GetVersion_def run_cmd_def)
qed

definition version_host :: host where
  "version_host = \<lparr>env = Map.empty, files = Map.empty, faults = (\<lambda>_. None), clock = 0, hostname = None,
     exec = (\<lambda>_ _. \<lparr>cmd_out = ''9.4.2.10'' @ [newline], cmd_rc = 0, cmd_err = None\<rparr>), cmds = [], logs = []\<rparr>"

lemma Compare_is_order_witness: "fst (Compare ''9.4.10.0'' version_host) = Inr (-1)"
proof -
  have p: "parseVRMF (trim_space (cmd_out (exec version_host (cmds version_host)
      [''dspmqver'', ''-b'', ''-f'', ''2'']))) = Inr (VRMF 9 4 2 10)"
  proof -
    have "trim_space (''9.4.2.10'' @ [newline]) = vrmf_String (VRMF 9 4 2 10)" by code_simp
    moreover have "valid_vrmf (VRMF 9 4 2 10)" by (simp add: valid_vrmf_def)
    ultimately show ?thesis using parse_printed by (simp add: version_host_def)
  qed
  have s: "vrmf_String (VRMF 9 4 10 0) = ''9.4.10.0''" by code_simp
  have v: "valid_vrmf (VRMF 9 4 10 0)" by (simp add: valid_vrmf_def)
  have lt: "VRMF 9 4 2 10 < VRMF 9 4 10 0" by (simp add: less_vrmf_def compare_def)
  have e: "cmd_err (exec version_host (cmds version_host) [''dspmqver'', ''-b'', ''-f'', ''2'']) = None"
    by (simp add: version_host_def)
  from Compare_is_order [OF e p v] show ?thesis by (simp add: s lt)
qed

end
