(* ===== verification/Environment.thy ===== *)
theory Environment
  imports Paths
begin

text \<open>
  Decisions that depend on the environment alone: internal/fips (whether FIPS cryptography is used),
  cmd/runmqserver/license.go (whether the licence is accepted, and in which language it is shown) and
  internal/ha (which Native HA configuration files are generated from which values). The expansion of
  a template into a file and the set-up of the Native HA key store are parameters.
\<close>

section \<open>internal/fips\<close>

abbreviation (input) FIPS_ENABLED_OFF :: int where "FIPS_ENABLED_OFF \<equiv> 0"
abbreviation (input) FIPS_ENABLED_PLATFORM :: int where "FIPS_ENABLED_PLATFORM \<equiv> 1"
abbreviation (input) FIPS_ENABLED_ENV_VAR :: int where "FIPS_ENABLED_ENV_VAR \<equiv> 2"

definition platform_fips :: "cmd_result \<Rightarrow> int" where
  "platform_fips r =
     (if cmd_err r = None \<and> contains (cmd_out r) ''crypto.fips_enabled = 1''
      then FIPS_ENABLED_PLATFORM else FIPS_ENABLED_OFF)"

definition override_fips :: "string option \<Rightarrow> int \<Rightarrow> host \<Rightarrow> int \<times> host" where
  "override_fips fipsOverride t h =
     (case fipsOverride of
        None \<Rightarrow> (t, h)
      | Some v \<Rightarrow>
          if equal_fold v ''false'' \<or> equal_fold v ''0'' then (FIPS_ENABLED_OFF, h)
          else if equal_fold v ''true'' \<or> equal_fold v ''1'' then
            (if t \<noteq> FIPS_ENABLED_PLATFORM then FIPS_ENABLED_ENV_VAR else t, h)
          else if equal_fold v ''auto'' then (t, h)
          else (t, say InfoL (''Invalid value '' @ CHR 0x27 # v @ CHR 0x27 # '' was specified for MQ_ENABLE_FIPS. The value has been ignored.'') h))"

text \<open>The value of \<open>FIPSEnabledType\<close> afterwards, for the architecture the program runs on.\<close>

definition ProcessFIPSType :: "string \<Rightarrow> host \<Rightarrow> int \<times> host" where
  "ProcessFIPSType arch h =
     (case run_cmd [''sysctl'', ''crypto.fips_enabled''] h of
        (r, h1) \<Rightarrow>
          (case override_fips (env h1 ''MQ_ENABLE_FIPS'') (platform_fips r) h1 of
             (t, h2) \<Rightarrow>
               if t > FIPS_ENABLED_OFF \<and> (arch = ''s390x'' \<or> arch = ''arm64'') then
                 (FIPS_ENABLED_OFF,
                  say InfoL (''Warning: FIPS mode was requested but is unavailable on the '' @ arch @ '' architecture.'') h2)
               else (t, h2)))"

definition IsFIPSEnabled :: "int \<Rightarrow> bool" where
  "IsFIPSEnabled t \<longleftrightarrow> t > FIPS_ENABLED_OFF"

definition fips_PostInit :: "int \<Rightarrow> host \<Rightarrow> host" where
  "fips_PostInit t h =
     say InfoL
       (if t = FIPS_ENABLED_PLATFORM then ''FIPS cryptography is enabled. FIPS cryptography setting on the host is true.''
        else if t = FIPS_ENABLED_ENV_VAR then ''FIPS cryptography is enabled. FIPS cryptography setting on the host is false.''
        else ''FIPS cryptography is not enabled.'') h"

lemma fold_case_ascii:
  "equal_fold ''false'' ''true'' = False" "equal_fold ''false'' ''1'' = False"
  "equal_fold ''0'' ''true'' = False" "equal_fold ''0'' ''1'' = False"
  by code_simp+

text \<open>
  FIPS mode: never on the two unsupported architectures; elsewhere it is on exactly if the
  environment asks for it, or the host has it on and the environment does not turn it off.
\<close>

theorem fips_decision:
  "IsFIPSEnabled (fst (ProcessFIPSType arch h)) \<longleftrightarrow>
     arch \<noteq> ''s390x'' \<and> arch \<noteq> ''arm64''
     \<and> (let v = getenv h ''MQ_ENABLE_FIPS'';
            on = equal_fold v ''true'' \<or> equal_fold v ''1'';
            off = equal_fold v ''false'' \<or> equal_fold v ''0''
        in on \<or> \<not> off \<and> platform_fips (exec h (cmds h) [''sysctl'', ''crypto.fips_enabled'']) > 0)"
proof -
  have ne: "\<not> (equal_fold v ''true'' \<or> equal_fold v ''1'')" if "equal_fold v ''false'' \<or> equal_fold v ''0''" for v
    using that fold_case_ascii by (auto simp: equal_fold_def)
  have nil: "\<not> equal_fold [] ''true''" "\<not> equal_fold [] ''1''" "\<not> equal_fold [] ''false''" "\<not> equal_fold [] ''0''"
    by code_simp+
  have p: "platform_fips r \<in> {0, 1}" for r by (simp add: platform_fips_def)
  show ?thesis
    using ne [of "the (env h ''MQ_ENABLE_FIPS'')"] nil p [of "exec h (cmds h) [''sysctl'', ''crypto.fips_enabled'']"]
    by (cases "env h ''MQ_ENABLE_FIPS''")
       (auto simp: ProcessFIPSType_def IsFIPSEnabled_def override_fips_def run_cmd_def getenv_def Let_def
         split: prod.splits if_splits)
qed

section \<open>cmd/runmqserver/license.go\<close>

definition language_files :: "(string \<times> string) list" where
  "language_files =
     [(''zh_TW'', ''Chinese_TW.txt''), (''zh'', ''Chinese.txt''), (''cs'', ''Czech.txt''),
      (''fr'', ''French.txt''), (''de'', ''German.txt''), (''el'', ''Greek.txt''),
      (''id'', ''Indonesian.txt''), (''it'', ''Italian.txt''), (''ja'', ''Japanese.txt''),
      (''ko'', ''Korean.txt''), (''lt'', ''Lithuanian.txt''), (''pl'', ''Polish.txt''),
      (''pt'', ''Portugese.txt''), (''ru'', ''Russian.txt''), (''sl'', ''Slovenian.txt''),
      (''es'', ''Spanish.txt''), (''tr'', ''Turkish.txt'')]"

text \<open>Czech is told from Kashubian and Korean from Konkani.\<close>

definition speaks :: "string \<Rightarrow> string \<Rightarrow> bool" where
  "speaks lang code \<longleftrightarrow>
     has_prefix lang code
     \<and> \<not> (code = ''cs'' \<and> has_prefix lang ''csb'') \<and> \<not> (code = ''ko'' \<and> has_prefix lang ''kok'')"

definition resolveLicenseFile :: "host \<Rightarrow> string" where
  "resolveLicenseFile h =
     (case env h ''LANG'' of
        None \<Rightarrow> ''English.txt''
      | Some lang \<Rightarrow>
          (case find (\<lambda>p. speaks lang (fst p)) language_files of
             None \<Rightarrow> ''English.txt''
           | Some p \<Rightarrow> snd p))"

definition checkLicense :: "host \<Rightarrow> (bool \<times> string option) \<times> host" where
  "checkLicense h =
     (if env h ''LICENSE'' = Some ''accept'' then ((True, None), h)
      else if env h ''LICENSE'' = Some ''view'' then
        (case os_read (path_join [''/opt/mqm/licenses'', resolveLicenseFile h]) h of
           Inl e \<Rightarrow> ((False, Some (err_text e)), say InfoL (err_text e) h)
         | Inr buf \<Rightarrow> ((False, None), say InfoL buf h))
      else
        ((False, Some ''Set environment variable LICENSE=accept to indicate acceptance of license terms and conditions''),
         say InfoL ''License agreements and information can be viewed by setting the environment variable LICENSE=view.  You can also set the LANG environment variable to view the license in a different language.''
          (say InfoL ''Error: Set environment variable LICENSE=accept to indicate acceptance of license terms and conditions.'' h)))"

lemma language_files_plain:
  "list_all (\<lambda>p. plain_name (snd p) \<and> CHR ''/'' \<notin> set (snd p)) language_files"
  by code_simp

lemma license_file_plain:
  "plain_name (resolveLicenseFile h) \<and> CHR ''/'' \<notin> set (resolveLicenseFile h)"
proof -
  have "plain_name ''English.txt'' \<and> CHR ''/'' \<notin> set ''English.txt''" by (simp add: plain_name_def)
  then show ?thesis
    using language_files_plain
    by (auto simp: resolveLicenseFile_def list_all_iff split: option.splits dest!: find_Some_in_set)
qed

lemma join_licenses:
  assumes "plain_name f" "CHR ''/'' \<notin> set f"
  shows "path_join [''/opt/mqm/licenses'', f] = ''/opt/mqm/licenses/'' @ f"
proof -
  have el: "split_on CHR ''/'' (''/opt/mqm/licenses'' @ CHR ''/'' # f) = [[], ''opt'', ''mqm'', ''licenses'', f]"
    by (subst split_on_append) (simp add: split_on_no_sep assms(2))
  have "clean_elems True (''/opt/mqm/licenses'' @ CHR ''/'' # f) = [''opt'', ''mqm'', ''licenses'', f]"
    unfolding clean_elems_def el using assms(1) by (simp add: clean_step_def plain_name_def)
  then show ?thesis by (simp add: path_join_def path_clean_def is_abs_def)
qed

text \<open>
  The licence is accepted only by the exact value \<open>accept\<close>; viewing it reads a file directly in the
  licence directory, whatever the language is set to.
\<close>

theorem license_gate:
  "(fst (fst (checkLicense h)) \<longleftrightarrow> env h ''LICENSE'' = Some ''accept'')
   \<and> path_join [''/opt/mqm/licenses'', resolveLicenseFile h] = ''/opt/mqm/licenses/'' @ resolveLicenseFile h
   \<and> CHR ''/'' \<notin> set (resolveLicenseFile h)"
  using license_file_plain [of h] join_licenses
  by (auto simp: checkLicense_def split: sum.splits)

section \<open>internal/ha\<close>

record haInstance =
  InstanceName :: string
  ReplicationAddress :: string

record haConfig =
  haName :: string
  Instances :: "haInstance list"
  LocalName :: string
  LocalRole :: string
  LocalAddress :: string
  RecoveryName :: string
  RecoveryEnabled :: bool
  RecoveryAddress :: string
  GroupCipherSpec :: string
  GroupCertificateLabel :: string
  haTLSEnabled :: bool
  CipherSpec :: string
  CertificateLabel :: string
  keyRepository :: string
  fipsAvailable :: bool

definition yesNo :: "bool \<Rightarrow> string" where
  "yesNo yn = (if yn then ''Yes'' else ''No'')"

definition envConfigPresent :: "host \<Rightarrow> bool" where
  "envConfigPresent h \<longleftrightarrow>
     list_ex (\<lambda>v. getenv h v \<noteq> [])
       [''MQ_NATIVE_HA_INSTANCE_0_NAME'', ''MQ_NATIVE_HA_INSTANCE_0_REPLICATION_ADDRESS'',
        ''MQ_NATIVE_HA_INSTANCE_1_NAME'', ''MQ_NATIVE_HA_INSTANCE_1_REPLICATION_ADDRESS'',
        ''MQ_NATIVE_HA_INSTANCE_2_NAME'', ''MQ_NATIVE_HA_INSTANCE_2_REPLICATION_ADDRESS'',
        ''MQ_NATIVE_HA_TLS'', ''MQ_NATIVE_HA_CIPHERSPEC'']"

definition loadConfigFromEnv :: "host \<Rightarrow> haConfig" where
  "loadConfigFromEnv h =
     (let e = getenv h;
          cfg =
            \<lparr>haName = e ''HOSTNAME'',
             Instances =
               [\<lparr>InstanceName = e ''MQ_NATIVE_HA_INSTANCE_0_NAME'',
                 ReplicationAddress = e ''MQ_NATIVE_HA_INSTANCE_0_REPLICATION_ADDRESS''\<rparr>,
                \<lparr>InstanceName = e ''MQ_NATIVE_HA_INSTANCE_1_NAME'',
                 ReplicationAddress = e ''MQ_NATIVE_HA_INSTANCE_1_REPLICATION_ADDRESS''\<rparr>,
                \<lparr>InstanceName = e ''MQ_NATIVE_HA_INSTANCE_2_NAME'',
                 ReplicationAddress = e ''MQ_NATIVE_HA_INSTANCE_2_REPLICATION_ADDRESS''\<rparr>],
             LocalName = e ''MQ_NATIVE_HA_GROUP_LOCAL_NAME'',
             LocalRole = e ''MQ_NATIVE_HA_GROUP_ROLE'',
             LocalAddress = e ''MQ_NATIVE_HA_GROUP_LOCAL_ADDRESS'',
             RecoveryName = e ''MQ_NATIVE_HA_GROUP_RECOVERY_NAME'',
             RecoveryEnabled = (e ''MQ_NATIVE_HA_GROUP_RECOVERY_ENABLED'' \<noteq> ''false''),
             RecoveryAddress = e ''MQ_NATIVE_HA_GROUP_REPLICATION_ADDRESS'',
             GroupCipherSpec = e ''MQ_NATIVE_HA_GROUP_CIPHERSPEC'',
             GroupCertificateLabel = [],
             haTLSEnabled = False,
             CipherSpec = e ''MQ_NATIVE_HA_CIPHERSPEC'',
             CertificateLabel = [],
             keyRepository = e ''MQ_NATIVE_HA_KEY_REPOSITORY'',
             fipsAvailable = False\<rparr>
      in if RecoveryName cfg = [] then cfg\<lparr>RecoveryEnabled := False\<rparr> else cfg)"

definition ShouldConfigureTLS :: "haConfig \<Rightarrow> bool" where
  "ShouldConfigureTLS c \<longleftrightarrow> (if haTLSEnabled c then True else LocalName c \<noteq> [])"

definition SSLFipsRequired :: "haConfig \<Rightarrow> string" where
  "SSLFipsRequired c = yesNo (fipsAvailable c)"

definition KeyRepository :: "haConfig \<Rightarrow> string" where
  "KeyRepository c = (if keyRepository c \<noteq> [] then keyRepository c else ''/run/runmqserver/ha/tls/key'')"

definition updateTLS :: "bool \<Rightarrow> string \<Rightarrow> string \<Rightarrow> haConfig \<Rightarrow> haConfig" where
  "updateTLS fips haCertLabel haGroupCertLabel c =
     (let c1 = (if haCertLabel \<noteq> [] then c\<lparr>CertificateLabel := haCertLabel, haTLSEnabled := True\<rparr> else c);
          c2 = (if haGroupCertLabel \<noteq> []
                then c1\<lparr>GroupCertificateLabel := haGroupCertLabel, haTLSEnabled := True\<rparr> else c1)
      in c2\<lparr>fipsAvailable := fips\<rparr>)"

text \<open>
  The files are generated in the order in which Go iterates over the map, here any order; the first
  error ends the generation. \<open>generate t out c h\<close> expands the template \<open>t\<close> for \<open>c\<close>.
\<close>

type_synonym generator = "string \<Rightarrow> string \<Rightarrow> haConfig \<Rightarrow> host \<Rightarrow> string option \<times> host"

fun generate_all :: "generator \<Rightarrow> haConfig \<Rightarrow> (string \<times> string) list \<Rightarrow> host \<Rightarrow> string option \<times> host" where
  "generate_all generate c [] h = (None, h)"
| "generate_all generate c ((outputPath, templateFile) # rest) h =
     (case generate templateFile outputPath c h of
        (Some e, h1) \<Rightarrow> (Some e, h1)
      | (None, h1) \<Rightarrow> generate_all generate c rest h1)"

definition loadConfigAndGenerate ::
    "generator \<Rightarrow> (string \<times> string) list \<Rightarrow> bool \<Rightarrow> string \<Rightarrow> string \<Rightarrow> host \<Rightarrow> string option \<times> host" where
  "loadConfigAndGenerate generate templates fips label groupLabel h =
     generate_all generate (updateTLS fips label groupLabel (loadConfigFromEnv h)) templates h"

definition ha_files :: "string \<Rightarrow> string \<Rightarrow> bool \<Rightarrow> (string \<times> string) list" where
  "ha_files haCertLabel haGroupCertLabel envConfig =
     [(''/run/10-native-ha-instance.ini'', ''/etc/mqm/10-native-ha-instance.ini.tpl'')]
     @ (if haCertLabel \<noteq> [] \<or> haGroupCertLabel \<noteq> []
        then [(''/run/10-native-ha-keystore.ini'', ''/etc/mqm/10-native-ha-keystore.ini.tpl'')] else [])
     @ (if envConfig then [(''/run/10-native-ha.ini'', ''/etc/mqm/10-native-ha.ini.tpl'')] else [])"

text \<open>\<open>keystore\<close> stands for \<open>tls.ConfigureHATLSKeystore\<close>, \<open>order\<close> for the order of iteration.\<close>

definition ConfigureNativeHA ::
    "generator \<Rightarrow> ((string \<times> string) list \<Rightarrow> (string \<times> string) list)
     \<Rightarrow> (host \<Rightarrow> (string, string \<times> string) result \<times> host) \<Rightarrow> int \<Rightarrow> host \<Rightarrow> string option \<times> host" where
  "ConfigureNativeHA generate order keystore fipsType h =
     (if getenv h ''MQ_NATIVE_HA'' \<noteq> ''true'' then (None, h)
      else
        (case keystore h of
           (Inl e, h1) \<Rightarrow> (Some (''error loading tls keys: '' @ e), h1)
         | (Inr (label, groupLabel), h1) \<Rightarrow>
             let present = envConfigPresent h1;
                 h2 = (if present then say InfoL ''Configuring Native HA using values provided in environment variables'' h1 else h1)
             in loadConfigAndGenerate generate (order (ha_files label groupLabel present))
                  (IsFIPSEnabled fipsType) label groupLabel h2))"

lemma loaded:
  "haTLSEnabled (loadConfigFromEnv h) = False" "CertificateLabel (loadConfigFromEnv h) = []"
  "GroupCertificateLabel (loadConfigFromEnv h) = []"
  "LocalName (loadConfigFromEnv h) = getenv h ''MQ_NATIVE_HA_GROUP_LOCAL_NAME''"
  "RecoveryEnabled (loadConfigFromEnv h) \<longleftrightarrow> getenv h ''MQ_NATIVE_HA_GROUP_RECOVERY_NAME'' \<noteq> []
     \<and> getenv h ''MQ_NATIVE_HA_GROUP_RECOVERY_ENABLED'' \<noteq> ''false''"
  "length (Instances (loadConfigFromEnv h)) = 3"
  unfolding loadConfigFromEnv_def Let_def by simp_all

text \<open>
  The Native HA configuration that is generated: TLS is configured exactly if a key was found or a
  local group is named; a recovery group is enabled only if it is named and not disabled; each label
  is the one of the key that was found.
\<close>

theorem native_ha_config:
  "(let c = updateTLS fips label groupLabel (loadConfigFromEnv h)
    in (ShouldConfigureTLS c \<longleftrightarrow> label \<noteq> [] \<or> groupLabel \<noteq> [] \<or> getenv h ''MQ_NATIVE_HA_GROUP_LOCAL_NAME'' \<noteq> [])
     \<and> (RecoveryEnabled c \<longleftrightarrow> getenv h ''MQ_NATIVE_HA_GROUP_RECOVERY_NAME'' \<noteq> []
                            \<and> getenv h ''MQ_NATIVE_HA_GROUP_RECOVERY_ENABLED'' \<noteq> ''false'')
     \<and> CertificateLabel c = label \<and> GroupCertificateLabel c = groupLabel
     \<and> SSLFipsRequired c = (if fips then ''Yes'' else ''No'')
     \<and> KeyRepository c \<noteq> [] \<and> length (Instances c) = 3)"
proof -
  let ?c = "loadConfigFromEnv h"
  have u: "haTLSEnabled (updateTLS fips label groupLabel ?c) \<longleftrightarrow> label \<noteq> [] \<or> groupLabel \<noteq> []"
    "CertificateLabel (updateTLS fips label groupLabel ?c) = label"
    "GroupCertificateLabel (updateTLS fips label groupLabel ?c) = groupLabel"
    "LocalName (updateTLS fips label groupLabel ?c) = getenv h ''MQ_NATIVE_HA_GROUP_LOCAL_NAME''"
    "RecoveryEnabled (updateTLS fips label groupLabel ?c) = RecoveryEnabled ?c"
    "fipsAvailable (updateTLS fips label groupLabel ?c) = fips"
    "length (Instances (updateTLS fips label groupLabel ?c)) = 3"
    by (simp_all add: updateTLS_def loaded Let_def)
  define d where "d = updateTLS fips label groupLabel ?c"
  note v = u [folded d_def] loaded(5) [of h]
  have "ShouldConfigureTLS d \<longleftrightarrow> label \<noteq> [] \<or> groupLabel \<noteq> [] \<or> getenv h ''MQ_NATIVE_HA_GROUP_LOCAL_NAME'' \<noteq> []"
    using v by (auto simp: ShouldConfigureTLS_def)
  moreover have "SSLFipsRequired d = (if fips then ''Yes'' else ''No'')"
    using v by (simp add: SSLFipsRequired_def yesNo_def)
  moreover have "KeyRepository d \<noteq> []" by (simp add: KeyRepository_def)
  ultimately show ?thesis using v unfolding Let_def d_def [symmetric] by blast
qed

end
