(* ===== verification/Keystore.thy ===== *)
theory Keystore
  imports Paths
begin

text \<open>
  internal/keystore: key stores as the program keeps them, with the tools of MQ and GSKit doing the
  work. A key store is what the command line is built from; every operation runs one command and turns
  its failure into an error. The password is the text that \<open>Sensitive.String\<close> gives.
\<close>

section \<open>Key stores\<close>

record KeyStore =
  ksFilename :: string
  ksPassword :: string
  keyStoreType :: string
  command :: string
  fipsEnabled :: bool

definition NewJKSKeyStore :: "bool \<Rightarrow> string \<Rightarrow> string \<Rightarrow> KeyStore" where
  "NewJKSKeyStore fips f pw =
     \<lparr>ksFilename = f, ksPassword = pw, keyStoreType = ''jks'', command = ''/opt/mqm/bin/runmqckm'', fipsEnabled = fips\<rparr>"

definition NewCMSKeyStore :: "bool \<Rightarrow> string \<Rightarrow> string \<Rightarrow> KeyStore" where
  "NewCMSKeyStore fips f pw =
     \<lparr>ksFilename = f, ksPassword = pw, keyStoreType = ''cms'', command = ''/opt/mqm/bin/runmqakm'', fipsEnabled = fips\<rparr>"

definition NewPKCS12KeyStore :: "bool \<Rightarrow> string \<Rightarrow> string \<Rightarrow> KeyStore" where
  "NewPKCS12KeyStore fips f pw =
     \<lparr>ksFilename = f, ksPassword = pw, keyStoreType = ''p12'', command = ''/opt/mqm/bin/runmqakm'', fipsEnabled = fips\<rparr>"

definition getFipsEnabledFlag :: "KeyStore \<Rightarrow> string" where
  "getFipsEnabledFlag ks = (if fipsEnabled ks then ''-fips'' else ''-fips false'')"

definition path_exists :: "string \<Rightarrow> host \<Rightarrow> bool" where
  "path_exists p h \<longleftrightarrow> os_stat p h = None"

text \<open>\<open>filepath.Ext\<close>: from the last dot of the last path element.\<close>

definition path_ext :: "string \<Rightarrow> string" where
  "path_ext p =
     (let name = last (split_on CHR ''/'' p); ws = split_on CHR ''.'' name
      in if length ws < 2 then [] else CHR ''.'' # last ws)"

definition strip_ext :: "string \<Rightarrow> string" where
  "strip_ext p = take (length p - length (path_ext p)) p"

section \<open>Operations\<close>

fun remove_files :: "string list \<Rightarrow> host \<Rightarrow> string option \<times> host" where
  "remove_files [] h = (None, h)"
| "remove_files (p # ps) h =
     (case os_remove p h of
        (Some e, h1) \<Rightarrow> (Some (err_text e), h1)
      | (None, h1) \<Rightarrow> remove_files ps h1)"

definition ks_run_as :: "string \<Rightarrow> string \<Rightarrow> string list \<Rightarrow> host \<Rightarrow> (string, string) result \<times> host" where
  "ks_run_as cmd what a h =
     (case run_cmd a h of
        (r, h1) \<Rightarrow>
          ((case cmd_err r of
              Some e \<Rightarrow> Inl (''error running \"'' @ cmd @ '' '' @ what @ ''\": '' @ e @ '' '' @ cmd_out r)
            | None \<Rightarrow> Inr (cmd_out r)), h1))"

definition ks_run :: "string \<Rightarrow> string list \<Rightarrow> host \<Rightarrow> (string, string) result \<times> host" where
  "ks_run what a h = ks_run_as (hd a) what a h"

definition just_error :: "(string, 'a) result \<times> host \<Rightarrow> string option \<times> host" where
  "just_error r = (case r of (Inl e, h) \<Rightarrow> (Some e, h) | (Inr _, h) \<Rightarrow> (None, h))"

definition create_args :: "KeyStore \<Rightarrow> string list" where
  "create_args ks =
     [command ks, ''-keydb'', ''-create'', getFipsEnabledFlag ks, ''-type'', keyStoreType ks, ''-db'',
      ksFilename ks, ''-pw'', ksPassword ks, ''-stash'']"

definition companion_files :: "KeyStore \<Rightarrow> string list" where
  "companion_files ks =
     (if keyStoreType ks = ''cms''
      then [strip_ext (ksFilename ks) @ ''.sth'', strip_ext (ksFilename ks) @ ''.rdb'',
            strip_ext (ksFilename ks) @ ''.crl'']
      else [])"

definition ks_Create :: "KeyStore \<Rightarrow> host \<Rightarrow> string option \<times> host" where
  "ks_Create ks h =
     (case os_stat (ksFilename ks) h of
        Some (IoErr e) \<Rightarrow> (Some e, h)
      | Some NotExist \<Rightarrow> just_error (ks_run ''-keydb -create'' (create_args ks) h)
      | None \<Rightarrow>
          (case remove_files (companion_files ks @ [ksFilename ks]) h of
             (Some e, h1) \<Rightarrow> (Some e, h1)
           | (None, h1) \<Rightarrow> just_error (ks_run ''-keydb -create'' (create_args ks) h1)))"

text \<open>
  After a successful run of the command the function returns the outer \<open>err\<close>, which still holds the
  error of the missing file.
\<close>

definition CreateStash :: "KeyStore \<Rightarrow> host \<Rightarrow> string option \<times> host" where
  "CreateStash ks h =
     (case os_stat (strip_ext (ksFilename ks) @ ''.sth'') h of
        None \<Rightarrow> (None, h)
      | Some (IoErr e) \<Rightarrow> (Some e, h)
      | Some NotExist \<Rightarrow>
          (case ks_run ''-keydb -stashpw''
                  [command ks, ''-keydb'', getFipsEnabledFlag ks, ''-stashpw'', ''-type'', keyStoreType ks,
                   ''-db'', ksFilename ks, ''-pw'', ksPassword ks] h of
             (Inl e, h1) \<Rightarrow> (Some e, h1)
           | (Inr _, h1) \<Rightarrow> (Some (err_text NotExist), h1)))"

definition ks_Import :: "string \<Rightarrow> string \<Rightarrow> KeyStore \<Rightarrow> host \<Rightarrow> string option \<times> host" where
  "ks_Import inputFile pw ks h =
     just_error (ks_run ''-cert -import''
       [command ks, ''-cert'', ''-import'', getFipsEnabledFlag ks, ''-file'', inputFile, ''-pw'', pw,
        ''-target'', ksFilename ks, ''-target_pw'', ksPassword ks, ''-target_type'', keyStoreType ks] h)"

definition CreateSelfSignedCertificate :: "string \<Rightarrow> string \<Rightarrow> string \<Rightarrow> KeyStore \<Rightarrow> host \<Rightarrow> string option \<times> host" where
  "CreateSelfSignedCertificate lbl dn hname ks h =
     just_error (ks_run ''-cert -create''
       [command ks, ''-cert'', ''-create'', getFipsEnabledFlag ks, ''-db'', ksFilename ks, ''-pw'',
        ksPassword ks, ''-label'', lbl, ''-dn'', dn, ''-san_dnsname'', hname,
        ''-size 2048 -sig_alg sha512 -eku serverAuth''] h)"

definition ks_add_args :: "string \<Rightarrow> KeyStore \<Rightarrow> string list" where
  "ks_add_args inputFile ks =
     [command ks, ''-cert'', ''-add'', getFipsEnabledFlag ks, ''-db'', ksFilename ks, ''-type'',
      keyStoreType ks, ''-pw'', ksPassword ks, ''-file'', inputFile]"

definition ks_Add :: "string \<Rightarrow> string \<Rightarrow> KeyStore \<Rightarrow> host \<Rightarrow> string option \<times> host" where
  "ks_Add inputFile lbl ks h =
     just_error (ks_run ''-cert -add'' (ks_add_args inputFile ks @ [''-label'', lbl]) h)"

definition ks_AddNoLabel :: "string \<Rightarrow> KeyStore \<Rightarrow> host \<Rightarrow> string option \<times> host" where
  "ks_AddNoLabel inputFile ks h = just_error (ks_run ''-cert -add'' (ks_add_args inputFile ks) h)"

definition list_args :: "KeyStore \<Rightarrow> string list" where
  "list_args ks =
     [command ks, ''-cert'', ''-list'', getFipsEnabledFlag ks, ''-type'', keyStoreType ks, ''-db'',
      ksFilename ks, ''-pw'', ksPassword ks]"

definition label_lines :: "string list \<Rightarrow> char list \<Rightarrow> string \<Rightarrow> string list" where
  "label_lines marks junk out =
     map (\<lambda>l. trim_space (dropWhile (\<lambda>c. c \<in> set junk) l))
       (filter (\<lambda>l. list_ex (\<lambda>m. has_prefix l m) marks) (scan_lines out))"

definition labels_of :: "string list \<Rightarrow> char list \<Rightarrow> KeyStore \<Rightarrow> host \<Rightarrow> (string, string list) result \<times> host" where
  "labels_of marks junk ks h =
     (case ks_run ''-cert -list'' (list_args ks) h of
        (Inl e, h1) \<Rightarrow> (Inl e, h1)
      | (Inr out, h1) \<Rightarrow>
          (if scan_err out then Inl ''bufio.Scanner: token too long'' else Inr (label_lines marks junk out), h1))"

definition GetCertificateLabels :: "KeyStore \<Rightarrow> host \<Rightarrow> (string, string list) result \<times> host" where
  "GetCertificateLabels = labels_of [''-'', ''*-''] ''-*''"

definition ListAllCertificates :: "KeyStore \<Rightarrow> host \<Rightarrow> (string, string list) result \<times> host" where
  "ListAllCertificates = labels_of [''-'', ''*-'', ''!''] ''-*!''"

definition rename_args :: "string \<Rightarrow> string \<Rightarrow> string \<Rightarrow> KeyStore \<Rightarrow> string list" where
  "rename_args cmd old new ks =
     [cmd, ''-cert'', ''-rename'', ''-db'', ksFilename ks, ''-pw'', ksPassword ks, ''-label'', old, ''-new_label'', new]"

text \<open>
  The GSKit commands run with the library path of the installation that is found; in the list of
  commands it stands before the name of the command.
\<close>

definition gskit_command :: "host \<Rightarrow> (string \<times> string) option" where
  "gskit_command h =
     (if path_exists ''/opt/mqm/gskit9'' h
      then Some (''/opt/mqm/gskit9/lib64/:/opt/mqm/gskit9/lib'', ''/opt/mqm/gskit9/bin/gsk9certutil_64'')
      else if path_exists ''/opt/mqm/gskit8'' h
      then Some (''/opt/mqm/gskit8/lib64/:/opt/mqm/gskit8/lib'', ''/opt/mqm/gskit8/bin/gsk8capicmd_64'')
      else None)"

definition RenameCertificate :: "string \<Rightarrow> string \<Rightarrow> KeyStore \<Rightarrow> host \<Rightarrow> string option \<times> host" where
  "RenameCertificate old new ks h =
     (if command ks = ''/opt/mqm/bin/runmqakm'' then
        (case gskit_command h of
           None \<Rightarrow> (Some ''error finding gskit installation'', h)
         | Some (gskitLib, gskitCommand) \<Rightarrow>
             just_error (ks_run_as gskitCommand ''-cert -rename''
               ((''LD_LIBRARY_PATH='' @ gskitLib) # rename_args gskitCommand old new ks) h))
      else just_error (ks_run ''-cert -rename'' (rename_args (command ks) old new ks) h))"

section \<open>Properties\<close>

lemma ks_run_files [simp]: "files (snd (ks_run w a h)) = files h"
  "files (snd (just_error (ks_run w a h))) = files h"
  by (auto simp: ks_run_def ks_run_as_def just_error_def run_cmd_def split: prod.splits sum.splits option.splits)

lemma remove_files_healthy:
  "healthy_host h \<Longrightarrow> distinct ps \<Longrightarrow>
   fst (remove_files ps h) = None \<longleftrightarrow> set ps \<subseteq> dom (files h)"
proof (induction ps arbitrary: h)
  case (Cons p ps)
  have "set ps \<subseteq> dom ((files h)(p := None)) \<longleftrightarrow> set ps \<subseteq> dom (files h)"
    using Cons.prems(2) by auto
  with Cons show ?case by (auto split: option.splits)
qed simp

lemma remove_files_gone:
  "healthy_host h \<Longrightarrow> fst (remove_files ps h) = None \<Longrightarrow> p \<in> set ps \<Longrightarrow> files (snd (remove_files ps h)) p = None"
proof -
  have keep: "files h p = None \<Longrightarrow> files (snd (remove_files ps h)) p = None" if "healthy_host h" for ps h
    using that by (induction ps arbitrary: h) (auto split: prod.splits option.splits)
  show "healthy_host h \<Longrightarrow> fst (remove_files ps h) = None \<Longrightarrow> p \<in> set ps \<Longrightarrow> files (snd (remove_files ps h)) p = None"
    by (induction ps arbitrary: h) (auto split: prod.splits option.splits if_splits simp: keep)
qed

lemma companion_distinct: "distinct (companion_files ks)"
  by (auto simp: companion_files_def)

text \<open>
  Refreshing a key store: when a key store is created over an existing one, the command that creates
  it is only run after the old file and all of its companion files are gone; and a CMS key store that
  lacks one of its companion files is not refreshed at all but reported as an error.
\<close>

theorem ks_Create_refresh:
  assumes "healthy_host h" "files h (ksFilename ks) \<noteq> None" "ksFilename ks \<notin> set (companion_files ks)"
  shows "(if set (companion_files ks) \<subseteq> dom (files h)
          then cmds (snd (ks_Create ks h)) = cmds h @ [create_args ks]
             \<and> (\<forall>p. p \<in> set (ksFilename ks # companion_files ks) \<longrightarrow> files (snd (ks_Create ks h)) p = None)
          else fst (ks_Create ks h) \<noteq> None \<and> cmds (snd (ks_Create ks h)) = cmds h)"
proof -
  let ?ps = "companion_files ks @ [ksFilename ks]"
  have st: "os_stat (ksFilename ks) h = None" using assms by simp
  have d: "distinct ?ps" using companion_distinct assms(3) by simp
  have c: "cmds (snd (remove_files ps g)) = cmds g" for ps g
    by (induction ps arbitrary: g) (auto simp: os_remove_def split: prod.splits option.splits)
  note ok = remove_files_healthy [OF assms(1) d]
  show ?thesis
  proof (cases "set (companion_files ks) \<subseteq> dom (files h)")
    case True
    then have none: "fst (remove_files ?ps h) = None" using ok assms(2) by auto
    then obtain h1 where h1: "remove_files ?ps h = (None, h1)" by (cases "remove_files ?ps h") auto
    have eq: "ks_Create ks h = just_error (ks_run ''-keydb -create'' (create_args ks) h1)"
      using st h1 by (simp add: ks_Create_def)
    have "cmds (snd (just_error (ks_run w a h1))) = cmds h1 @ [a]" for w a
      by (auto simp: ks_run_def ks_run_as_def just_error_def run_cmd_def split: prod.splits sum.splits option.splits)
    then have "cmds (snd (ks_Create ks h)) = cmds h @ [create_args ks]"
      using eq c [of ?ps h] h1 by simp
    moreover have "files (snd (ks_Create ks h)) p = None" if "p \<in> set (ksFilename ks # companion_files ks)" for p
      using remove_files_gone [OF assms(1) none, of p] that h1 eq by auto
    ultimately show ?thesis using True by simp
  next
    case False
    then have "fst (remove_files ?ps h) \<noteq> None" using ok by auto
    then obtain e h1 where "remove_files ?ps h = (Some e, h1)" by (cases "remove_files ?ps h") auto
    then show ?thesis using False st c [of ?ps h] by (simp add: ks_Create_def)
  qed
qed

lemma ks_Create_refresh_witness:
  "fst (ks_Create (NewCMSKeyStore False ''/a'' ''pw'') copy_host) \<noteq> None"
proof -
  let ?ks = "NewCMSKeyStore False ''/a'' ''pw''"
  have s: "strip_ext ''/a'' = ''/a''" by code_simp
  have f: "ksFilename ?ks = ''/a''" "companion_files ?ks = [''/a.sth'', ''/a.rdb'', ''/a.crl'']"
    by (simp_all add: NewCMSKeyStore_def companion_files_def s)
  have "healthy_host copy_host" "files copy_host (ksFilename ?ks) \<noteq> None" "ksFilename ?ks \<notin> set (companion_files ?ks)"
    unfolding f by (simp_all add: copy_host_def healthy_host_def)
  from ks_Create_refresh [OF this] show ?thesis unfolding f by (simp add: copy_host_def)
qed

text \<open>
  \<open>CreateStash\<close> reports an error whenever the stash file did not exist, also when the command that
  creates it succeeds.
\<close>

theorem CreateStash_always_fails:
  assumes "healthy_host h" "files h (strip_ext (ksFilename ks) @ ''.sth'') = None"
  shows "fst (CreateStash ks h) \<noteq> None"
  using assms by (simp add: CreateStash_def split: prod.splits sum.splits)

lemma CreateStash_always_fails_witness:
  "fst (CreateStash (NewCMSKeyStore False ''/k.kdb'' ''pw'') copy_host) = Some ''no such file or directory''"
proof -
  have "files copy_host (strip_ext (ksFilename (NewCMSKeyStore False ''/k.kdb'' ''pw'')) @ ''.sth'') = None"
    by code_simp
  moreover have "healthy_host copy_host" by (simp add: copy_host_def healthy_host_def)
  ultimately have "fst (CreateStash (NewCMSKeyStore False ''/k.kdb'' ''pw'') copy_host) \<noteq> None"
    by (intro CreateStash_always_fails)
  then show ?thesis
    by (auto simp: CreateStash_def ks_run_def ks_run_as_def run_cmd_def copy_host_def os_stat_def split: option.splits io_error.splits)
qed

end
