(* ===== verification/Templates.thy ===== *)
theory Templates
  imports Paths
begin

text \<open>
  internal/mqtemplate: expanding a template file. The template language is Go's text/template: a
  \<open>template_lib\<close> reads the text of a template into what its execution does, which is the list of
  writes it makes for the given data and the error it ends with, if any. Directories are not tracked
  by the host, so creating one changes nothing and fails only when its path is faulty.
\<close>

type_synonym template_data = "(string \<times> string) list"
type_synonym template_lib = "string \<Rightarrow> (string, template_data \<Rightarrow> string list \<times> string option) result"

definition os_mkdir_all :: "string \<Rightarrow> host \<Rightarrow> string option" where
  "os_mkdir_all p h = faults h (OpWrite p)"

text \<open>\<open>path.Dir\<close>\<close>

definition path_dir :: "string \<Rightarrow> string" where
  "path_dir p = path_clean (rev (dropWhile (\<lambda>c. c \<noteq> CHR ''/'') (rev p)))"

text \<open>
  The error of \<open>os.OpenFile\<close> is not looked at: the template then writes to a nil file, which refuses
  every write. The file is opened without truncation.
\<close>

definition template_out :: "template_data \<Rightarrow> (template_data \<Rightarrow> string list \<times> string option) \<Rightarrow> string \<Rightarrow> host
    \<Rightarrow> string option \<times> host" where
  "template_out dat tpl dest h =
     (case tpl dat of
        (writes, e) \<Rightarrow>
          (case os_open_create dest h of
             (Some _, h1) \<Rightarrow> (if writes = [] then e else Some ''invalid argument'', h1)
           | (None, h1) \<Rightarrow>
               (case os_write dest (overwrite_start (concat writes) (file_or_empty h1 dest)) h1 of
                  (Some e1, h2) \<Rightarrow> (Some (err_text e1), h2)
                | (None, h2) \<Rightarrow> (e, h2))))"

definition log_error :: "string option \<times> host \<Rightarrow> string option \<times> host" where
  "log_error r = (case r of (Some e, h) \<Rightarrow> (Some e, say ErrorL e h) | (None, h) \<Rightarrow> (None, h))"

definition ProcessTemplateFile :: "template_lib \<Rightarrow> string \<Rightarrow> string \<Rightarrow> template_data \<Rightarrow> host \<Rightarrow> string option \<times> host" where
  "ProcessTemplateFile tlib templateFile destFile dat h =
     (case os_read templateFile h of
        Inl e \<Rightarrow> log_error (Some (err_text e), h)
      | Inr body \<Rightarrow>
          (case tlib body of
             Inl e \<Rightarrow> log_error (Some e, h)
           | Inr tpl \<Rightarrow>
               (case os_stat (path_dir destFile) h of
                  Some (IoErr e) \<Rightarrow> (Some e, h)
                | Some NotExist \<Rightarrow>
                    (case os_mkdir_all (path_dir destFile) h of
                       Some e \<Rightarrow> log_error (Some e, h)
                     | None \<Rightarrow> log_error (template_out dat tpl destFile h))
                | None \<Rightarrow> log_error (template_out dat tpl destFile h))))"

lemma log_error_None [simp]: "log_error r = (None, h) \<longleftrightarrow> r = (None, h)"
  by (cases r) (auto simp: log_error_def split: option.splits)

text \<open>
  A template that is expanded without an error leaves in the destination what it wrote, followed
  by whatever the destination held beyond that length before; no other file changes.
\<close>

theorem ProcessTemplateFile_result:
  assumes "ProcessTemplateFile tlib src dest dat h = (None, h')" "faults h (OpOpen dest) = None"
  shows "\<exists>body tpl. files h src = Some body \<and> tlib body = Inr tpl \<and> snd (tpl dat) = None
    \<and> files h' = (files h)(dest \<mapsto> concat (fst (tpl dat))
        @ drop (length (concat (fst (tpl dat)))) (file_or_empty h dest))"
proof -
  obtain body tpl where 1: "files h src = Some body" "tlib body = Inr tpl"
      and out: "template_out dat tpl dest h = (None, h')"
    using assms(1)
    by (auto simp: ProcessTemplateFile_def os_read_def log_error_def split: option.splits sum.splits io_error.splits prod.splits)
  have "snd (tpl dat) = None \<and> files h' = (files h)(dest \<mapsto> concat (fst (tpl dat))
        @ drop (length (concat (fst (tpl dat)))) (file_or_empty h dest))"
    using out assms(2)
    by (auto simp: template_out_def os_open_create_def os_write_def file_or_empty_def overwrite_start_def
        split: option.splits prod.splits if_splits)
  with 1 show ?thesis by blast
qed

lemma ProcessTemplateFile_result_witness:
  "files (snd (ProcessTemplateFile (\<lambda>t. Inr (\<lambda>d. ([t], None))) ''/a'' ''/b'' [] copy_host)) ''/b'' = Some ''newer text''"
proof -
  let ?r = "ProcessTemplateFile (\<lambda>t. Inr (\<lambda>d. ([t], None))) ''/a'' ''/b'' [] copy_host"
  have "?r = (None, snd ?r)" by (simp add: prod_eq_iff) code_simp
  moreover have "faults copy_host (OpOpen ''/b'') = None" by (simp add: copy_host_def)
  ultimately have "\<exists>body. files copy_host ''/a'' = Some body \<and>
      files (snd ?r) = (files copy_host)(''/b'' \<mapsto> body @ drop (length body) (file_or_empty copy_host ''/b''))"
    using ProcessTemplateFile_result [of "\<lambda>t. Inr (\<lambda>d. ([t], None))" "''/a''" "''/b''" "[]" copy_host "snd ?r"] by auto
  then show ?thesis by (auto simp: copy_host_def file_or_empty_def)
qed

end
