(* ===== verification/Tls.thy ===== *)
theory Tls
  imports Keystore Templates
begin

text \<open>
  internal/tls/tls.go: the key stores of the queue manager are built from the keys and certificates
  that are mounted into the container. Reading a directory, PEM, X.509, PKCS#12, SHA-512 and the random
  source are Go packages and not part of this repository: they are the fields of \<open>crypto\<close>. A private key
  is the text that identifies it, so that \<open>Equal\<close> is equality; every key that a parser returns has an
  \<open>Equal\<close> method. What the functions change through pointers, the stores and the host, is passed through.
\<close>

section \<open>What the code takes from Go's packages\<close>

record pem_block =
  pem_type :: string
  pem_bytes :: string

record certificate =
  cert_raw :: string
  cert_subject :: string

text \<open>
  \<open>os.ReadDir\<close> gives the entries it could read, sorted by name, and an error if there was one. The
  random source is the list of the bytes it gives.
\<close>

record crypto =
  read_dir :: "string \<Rightarrow> string list \<times> string option"
  pem_decode :: "string \<Rightarrow> (pem_block \<times> string) option"
  pem_encode :: "pem_block \<Rightarrow> (string, string) result"
  parse_certificate :: "string \<Rightarrow> (string, certificate) result"
  parse_pkcs1 :: "string \<Rightarrow> (string, string) result"
  parse_pkcs8 :: "string \<Rightarrow> (string, string) result"
  sha512_hex :: "string \<Rightarrow> string"
  p12_encode :: "string \<Rightarrow> certificate \<Rightarrow> certificate list \<Rightarrow> string \<Rightarrow> (string, string) result"
  random_bytes :: "nat list"

text \<open>
  The blocks that repeated decoding of a text gives. Each block takes at least one character, so the
  length of the text is fuel enough (\<open>pem_fuel_enough\<close>).
\<close>

fun pem_blocks_fuel :: "nat \<Rightarrow> crypto \<Rightarrow> string \<Rightarrow> pem_block list" where
  "pem_blocks_fuel 0 cr s = []"
| "pem_blocks_fuel (Suc n) cr s =
     (if s = [] then []
      else (case pem_decode cr s of None \<Rightarrow> [] | Some (b, r) \<Rightarrow> b # pem_blocks_fuel n cr r))"

definition pem_blocks :: "crypto \<Rightarrow> string \<Rightarrow> pem_block list" where
  "pem_blocks cr s = pem_blocks_fuel (length s) cr s"

definition pem_progress :: "crypto \<Rightarrow> bool" where
  "pem_progress cr \<longleftrightarrow> (\<forall>s b r. pem_decode cr s = Some (b, r) \<longrightarrow> length r < length s)"

lemma pem_fuel_any:
  "pem_progress cr \<Longrightarrow> length s \<le> n \<Longrightarrow> length s \<le> m \<Longrightarrow> pem_blocks_fuel n cr s = pem_blocks_fuel m cr s"
proof (induction n arbitrary: s m)
  case 0
  then show ?case by (cases m) simp_all
next
  case (Suc n)
  show ?case
  proof (cases m)
    case 0
    then show ?thesis using Suc.prems by simp
  next
    case (Suc k)
    have "pem_blocks_fuel n cr r = pem_blocks_fuel k cr r" if "pem_decode cr s = Some (b, r)" for b r
    proof (rule Suc.IH)
      have "length r < length s" using Suc.prems(1) that by (simp add: pem_progress_def)
      then show "length r \<le> n" "length r \<le> k" using Suc.prems Suc by simp_all
    qed (rule Suc.prems)
    then show ?thesis using Suc by (simp split: option.split)
  qed
qed

lemma pem_fuel_enough:
  "pem_progress cr \<Longrightarrow> length s \<le> n \<Longrightarrow> pem_blocks_fuel n cr s = pem_blocks cr s"
  unfolding pem_blocks_def by (rule pem_fuel_any) simp_all

section \<open>Loops that stop at the first error\<close>

fun run_steps :: "('a \<Rightarrow> 's \<Rightarrow> string option \<times> 's) \<Rightarrow> 'a list \<Rightarrow> 's \<Rightarrow> string option \<times> 's" where
  "run_steps f [] s = (None, s)"
| "run_steps f (x # xs) s =
     (case f x s of
        (Some e, s1) \<Rightarrow> (Some e, s1)
      | (None, s1) \<Rightarrow> run_steps f xs s1)"

lemma run_steps_invar:
  assumes "\<And>x s. x \<in> set xs \<Longrightarrow> I s \<Longrightarrow> I (snd (f x s))"
  shows "I s \<Longrightarrow> I (snd (run_steps f xs s))"
  using assms
proof (induction xs arbitrary: s)
  case (Cons x xs)
  have "I (snd (f x s))" using Cons.prems by simp
  then show ?case using Cons.IH Cons.prems(2) by (cases "f x s") (auto split: option.splits)
qed simp

text \<open>A loop that ends without an error has established what each of its steps establishes for good.\<close>

lemma run_steps_all:
  assumes ok: "fst (run_steps f xs s) = None"
    and est: "\<And>x s. x \<in> set xs \<Longrightarrow> fst (f x s) = None \<Longrightarrow> Q x (snd (f x s))"
    and keep: "\<And>x y s. x \<in> set xs \<Longrightarrow> Q y s \<Longrightarrow> Q y (snd (f x s))"
    and x: "x \<in> set xs"
  shows "Q x (snd (run_steps f xs s))"
  using ok est keep x
proof (induction xs arbitrary: s)
  case (Cons y ys)
  obtain s1 where s1: "f y s = (None, s1)" "fst (run_steps f ys s1) = None"
    using Cons.prems(1) by (auto split: prod.splits option.splits)
  have stay: "Q z s \<Longrightarrow> Q z (snd (run_steps f ys s))" for z s
    by (rule run_steps_invar [where I = "Q z"]) (use Cons.prems(3) in auto)
  show ?case
  proof (cases "x = y")
    case True
    then have "Q x s1" using Cons.prems(2) [of y s] s1 by simp
    then show ?thesis using stay s1 by simp
  next
    case False
    then have "Q x (snd (run_steps f ys s1))" using Cons.IH [of s1] s1 Cons.prems by simp
    then show ?thesis using s1 by simp
  qed
qed simp

section \<open>Stores\<close>

record privateKeyInfo =
  keySetName :: string
  directory :: string
  pkFilename :: string

record KeyStoreData =
  ksd_Keystore :: "KeyStore option"
  ksd_Password :: string
  TrustedCerts :: "pem_block list"
  KnownFingerPrints :: "string list"
  KeyLabels :: "string list"
  keyLabelLookup :: "string \<rightharpoonup> privateKeyInfo"

record TLSStore =
  cmsStore :: KeyStoreData
  p12Store :: KeyStoreData

definition no_data :: KeyStoreData where
  "no_data = \<lparr>ksd_Keystore = None, ksd_Password = [], TrustedCerts = [], KnownFingerPrints = [],
     KeyLabels = [], keyLabelLookup = Map.empty\<rparr>"

section \<open>Known certificates\<close>

definition getCertificateFingerprint :: "crypto \<Rightarrow> pem_block \<Rightarrow> (string, string) result" where
  "getCertificateFingerprint cr b =
     (case parse_certificate cr (pem_bytes b) of
        Inl e \<Rightarrow> Inl (''Failed to parse x509 certificate: '' @ e)
      | Inr c \<Rightarrow> Inr (sha512_hex cr (cert_raw c)))"

definition addToKnownCertificates :: "crypto \<Rightarrow> pem_block \<Rightarrow> KeyStoreData \<Rightarrow> bool \<Rightarrow> (string, bool) result \<times> KeyStoreData" where
  "addToKnownCertificates cr b d addToKeystore =
     (case getCertificateFingerprint cr b of
        Inl e \<Rightarrow> (Inl e, d)
      | Inr sha \<Rightarrow>
          (if sha \<in> set (KnownFingerPrints d) then (Inr False, d)
           else (Inr True,
             (let d1 = (if addToKeystore then d\<lparr>TrustedCerts := TrustedCerts d @ [b]\<rparr> else d)
              in d1\<lparr>KnownFingerPrints := KnownFingerPrints d1 @ [sha]\<rparr>))))"

text \<open>What the loops over the certificates of a set of keys carry.\<close>

record certs_loop =
  cl_store :: TLSStore
  cl_public :: "certificate option"
  cl_ca :: "certificate list"
  cl_new :: nat

definition know_cms :: "crypto \<Rightarrow> pem_block \<Rightarrow> certs_loop \<Rightarrow> string option \<times> certs_loop" where
  "know_cms cr b s =
     (case addToKnownCertificates cr b (cmsStore (cl_store s)) False of
        (Inl _, d) \<Rightarrow>
          (Some ''Failed to add to known certificates for CMS Keystore'',
           s\<lparr>cl_store := (cl_store s)\<lparr>cmsStore := d\<rparr>\<rparr>)
      | (Inr new, d) \<Rightarrow>
          (None, s\<lparr>cl_store := (cl_store s)\<lparr>cmsStore := d\<rparr>, cl_new := cl_new s + (if new then 1 else 0)\<rparr>))"

definition know_p12 :: "crypto \<Rightarrow> pem_block \<Rightarrow> TLSStore \<Rightarrow> string option \<times> TLSStore" where
  "know_p12 cr b t =
     (if ksd_Keystore (p12Store t) = None then (None, t)
      else (case addToKnownCertificates cr b (p12Store t) True of
              (Inl _, d) \<Rightarrow> (Some ''Failed to add to known certificates for PKCS#12 Truststore'', t\<lparr>p12Store := d\<rparr>)
            | (Inr _, d) \<Rightarrow> (None, t\<lparr>p12Store := d\<rparr>)))"

text \<open>One further certificate of a file: intermediate certificates and CA certificates.\<close>

definition add_ca_block :: "crypto \<Rightarrow> string \<Rightarrow> pem_block \<Rightarrow> certs_loop \<Rightarrow> string option \<times> certs_loop" where
  "add_ca_block cr p b s =
     (case know_cms cr b s of
        (Some e, s1) \<Rightarrow> (Some e, s1)
      | (None, s1) \<Rightarrow>
          (case know_p12 cr b (cl_store s1) of
             (Some e, t) \<Rightarrow> (Some e, s1\<lparr>cl_store := t\<rparr>)
           | (None, t) \<Rightarrow>
               (case parse_certificate cr (pem_bytes b) of
                  Inl e \<Rightarrow> (Some (''Failed to parse CA certificate '' @ p @ '': '' @ e), s1\<lparr>cl_store := t\<rparr>)
                | Inr c \<Rightarrow> (None, s1\<lparr>cl_store := t, cl_ca := cl_ca s1 @ [c]\<rparr>))))"

definition public_file :: "crypto \<Rightarrow> string \<Rightarrow> string \<Rightarrow> certs_loop \<Rightarrow> string option \<times> certs_loop" where
  "public_file cr p body s =
     (case pem_decode cr body of
        None \<Rightarrow> (Some (''Failed to decode public certificate '' @ p @ '': pem.Decode returned nil''), s)
      | Some (b, rest) \<Rightarrow>
          (case parse_certificate cr (pem_bytes b) of
             Inl e \<Rightarrow> (Some (''Failed to parse public certificate '' @ p @ '': '' @ e), s)
           | Inr c \<Rightarrow>
               (case know_cms cr b (s\<lparr>cl_public := Some c\<rparr>) of
                  (Some e, s1) \<Rightarrow> (Some e, s1)
                | (None, s1) \<Rightarrow> run_steps (add_ca_block cr p) (pem_blocks cr rest) s1)))"

definition process_crt :: "crypto \<Rightarrow> host \<Rightarrow> string \<Rightarrow> string \<Rightarrow> string \<Rightarrow> string \<Rightarrow> certs_loop \<Rightarrow> string option \<times> certs_loop" where
  "process_crt cr h keyDir setName keyPrefix name s =
     (let p = CleanPath [keyDir, setName, name]
      in if has_prefix name keyPrefix \<and> has_suffix name ''.crt'' then
           (case os_read p h of
              Inl e \<Rightarrow> (Some (''Failed to read public certificate '' @ p @ '': '' @ err_text e), s)
            | Inr body \<Rightarrow> public_file cr p body s)
         else if has_suffix name ''.crt'' then
           (case os_read p h of
              Inl e \<Rightarrow> (Some (''Failed to read CA certificate '' @ p @ '': '' @ err_text e), s)
            | Inr body \<Rightarrow> run_steps (add_ca_block cr p) (pem_blocks cr body) s)
         else (None, s))"

definition processCertificates :: "crypto \<Rightarrow> host \<Rightarrow> string \<Rightarrow> string \<Rightarrow> string \<Rightarrow> string list \<Rightarrow> TLSStore
    \<Rightarrow> (string, certificate option \<times> certificate list \<times> bool) result \<times> TLSStore" where
  "processCertificates cr h keyDir setName keyPrefix keys t =
     (case run_steps (process_crt cr h keyDir setName keyPrefix) keys
            \<lparr>cl_store = t, cl_public = None, cl_ca = [], cl_new = 0\<rparr> of
        (Some e, s) \<Rightarrow> (Inl e, cl_store s)
      | (None, s) \<Rightarrow> (Inr (cl_public s, cl_ca s, cl_new s > 0), cl_store s))"

section \<open>Private keys\<close>

definition find_private_key :: "crypto \<Rightarrow> host \<Rightarrow> string \<Rightarrow> string \<Rightarrow> string
    \<Rightarrow> string option \<times> string \<times> privateKeyInfo \<Rightarrow> string option \<times> string option \<times> string \<times> privateKeyInfo" where
  "find_private_key cr h keyDir setName name s =
     (let p = CleanPath [keyDir, setName, name]
      in if \<not> has_suffix name ''.key'' then (None, s)
         else case os_read p h of
           Inl e \<Rightarrow> (Some (''Failed to read private key '' @ p @ '': '' @ err_text e), s)
         | Inr body \<Rightarrow>
             (case pem_decode cr body of
                None \<Rightarrow> (Some (''Failed to decode private key '' @ p @ '': pem.Decode returned nil''), s)
              | Some (b, _) \<Rightarrow>
                  (case (case parse_pkcs1 cr (pem_bytes b) of
                           Inl _ \<Rightarrow> parse_pkcs8 cr (pem_bytes b)
                         | Inr k \<Rightarrow> Inr k) of
                     Inl e \<Rightarrow> (Some (''Failed to parse private key '' @ p @ '': '' @ e), s)
                   | Inr k \<Rightarrow>
                       (None, Some k, strip_ext name,
                        \<lparr>keySetName = setName, directory = path_join [keyDir, setName], pkFilename = name\<rparr>))))"

text \<open>
  The table of keys has at most one entry for a key, so the order in which Go walks it makes no
  difference. When no private key was found, no entry is equal to the nil interface and the cast of it
  fails.
\<close>

definition processPrivateKey :: "crypto \<Rightarrow> host \<Rightarrow> string \<Rightarrow> string \<Rightarrow> string list \<Rightarrow> KeyStoreData
    \<Rightarrow> (string, string option \<times> string \<times> string \<times> string) result \<times> KeyStoreData" where
  "processPrivateKey cr h keyDir setName keys d =
     (case run_steps (find_private_key cr h keyDir setName) keys
            (None, [], \<lparr>keySetName = [], directory = [], pkFilename = []\<rparr>) of
        (Some e, _) \<Rightarrow> (Inl e, d)
      | (None, privateKey, keyPrefix, pkInfo) \<Rightarrow>
          (case privateKey of
             None \<Rightarrow> (Inl ''failed to cast private key to comparable type'', d)
           | Some k \<Rightarrow>
               (case keyLabelLookup d k of
                  Some previous \<Rightarrow> (Inr (privateKey, keyPrefix, keySetName previous, directory previous), d)
                | None \<Rightarrow>
                    (Inr (privateKey, keyPrefix, [], []),
                     d\<lparr>keyLabelLookup := (keyLabelLookup d)(k \<mapsto> pkInfo)\<rparr>))))"

section \<open>Validation and labels\<close>

text \<open>\<open>strings.Trim(v, \<dots>)\<close> with an empty set of characters changes nothing.\<close>

definition validateCertificates :: "certificate \<Rightarrow> certificate list \<Rightarrow> host \<Rightarrow> string option" where
  "validateCertificates personal cas h =
     (if (case env h ''MQ_ENABLE_CERT_VALIDATION'' of None \<Rightarrow> True | Some v \<Rightarrow> \<not> equal_fold v ''false'')
         \<and> list_ex (\<lambda>ca. equal_fold (cert_subject personal) (cert_subject ca)) cas
      then Some ''Error: The Subject DN of the Issuer Certificate and the Queue Manager are same''
      else None)"

definition trim_quotes :: "string \<Rightarrow> string" where
  "trim_quotes s = rev (dropWhile (\<lambda>c. c = CHR 0x22) (rev (dropWhile (\<lambda>c. c = CHR 0x22) s)))"

definition relabelCertificate :: "string \<Rightarrow> KeyStore \<Rightarrow> KeyStoreData \<Rightarrow> host \<Rightarrow> string option \<times> KeyStoreData \<times> host" where
  "relabelCertificate newLabel ks d h =
     (case GetCertificateLabels ks h of
        (Inl e, h1) \<Rightarrow> (Some (''Failed to get list of all certificate labels from CMS Keystore: '' @ e), d, h1)
      | (Inr allLabels, h1) \<Rightarrow>
          (case find (\<lambda>l. trim_quotes l \<notin> set (KeyLabels d)) allLabels of
             None \<Rightarrow> (Some (''Failed to relabel certificate for '' @ newLabel @ '' in CMS keystore''), d, h1)
           | Some l \<Rightarrow>
               (case RenameCertificate (trim_quotes l) newLabel ks h1 of
                  (Some e, h2) \<Rightarrow> (Some e, d, h2)
                | (None, h2) \<Rightarrow> (None, d\<lparr>KeyLabels := KeyLabels d @ [newLabel]\<rparr>, h2))))"

section \<open>Sets of keys\<close>

definition import_keys :: "crypto \<Rightarrow> KeyStore \<Rightarrow> string \<Rightarrow> string \<Rightarrow> string \<Rightarrow> certificate \<Rightarrow> certificate list
    \<Rightarrow> TLSStore \<Rightarrow> host \<Rightarrow> string option \<times> TLSStore \<times> host" where
  "import_keys cr ks keystoreDir setName k pc cas t h =
     (case p12_encode cr k pc cas (ksd_Password (cmsStore t)) of
        Inl e \<Rightarrow> (Some (''Failed to encode PKCS#12 Keystore '' @ setName @ ''.p12: '' @ e), t, h)
      | Inr file \<Rightarrow>
          (let p = CleanPath [keystoreDir, setName @ ''.p12'']
           in case os_write p file h of
                (Some e, h1) \<Rightarrow> (Some (''Failed to write PKCS#12 Keystore '' @ p @ '': '' @ err_text e), t, h1)
              | (None, h1) \<Rightarrow>
                  (case ks_Import p (ksd_Password (cmsStore t)) ks h1 of
                     (Some e, h2) \<Rightarrow>
                       (Some (''Failed to import keys from '' @ p @ '' into CMS Keystore: '' @ e), t, h2)
                   | (None, h2) \<Rightarrow>
                       (case relabelCertificate setName ks (cmsStore t) h2 of
                          (e, d, h3) \<Rightarrow> (e, t\<lparr>cmsStore := d\<rparr>, h3)))))"

definition truststore_label :: string where
  "truststore_label = strip_ext ''trust.p12''"

definition process_key_set :: "crypto \<Rightarrow> KeyStore \<Rightarrow> string \<Rightarrow> string \<Rightarrow> string
    \<Rightarrow> string \<times> TLSStore \<times> host \<Rightarrow> string option \<times> string \<times> TLSStore \<times> host" where
  "process_key_set cr ks keystoreDir keyDir setName s =
     (case s of (keyLabel, t, h) \<Rightarrow>
        (let keys = fst (read_dir cr (CleanPath [keyDir, setName]))
         in if setName = truststore_label then
              (Some (''key label cannot be set to the Truststore name: '' @ setName), s)
            else case processPrivateKey cr h keyDir setName keys (cmsStore t) of
              (Inl e, d) \<Rightarrow> (Some e, keyLabel, t\<lparr>cmsStore := d\<rparr>, h)
            | (Inr (privateKey, keyPrefix, previousLabel, previousDirectory), d) \<Rightarrow>
                (case privateKey of
                   None \<Rightarrow> (None, keyLabel, t\<lparr>cmsStore := d\<rparr>, h)
                 | Some k \<Rightarrow>
                     (case processCertificates cr h keyDir setName keyPrefix keys (t\<lparr>cmsStore := d\<rparr>) of
                        (Inl e, t1) \<Rightarrow> (Some e, keyLabel, t1, h)
                      | (Inr (pub, cas, newPublicCerts), t1) \<Rightarrow>
                          (if previousLabel \<noteq> [] \<and> \<not> newPublicCerts then
                             (None, if keyLabel = [] then previousLabel else keyLabel, t1,
                              say InfoL (''No new keys found while processing '' @ CHR 0x27 # path_join [keyDir, setName]
                                @ CHR 0x27 # '' (duplicate of '' @ CHR 0x27 # previousDirectory @ CHR 0x27 #
                                ''); skip loading directory'') h)
                           else case pub of
                             None \<Rightarrow> (Some (''Failed to find public certificate in directory '' @ keyDir), keyLabel, t1, h)
                           | Some pc \<Rightarrow>
                               (case (if cas \<noteq> [] then validateCertificates pc cas h else None) of
                                  Some e \<Rightarrow> (Some e, keyLabel, t1, h)
                                | None \<Rightarrow>
                                    (case import_keys cr ks keystoreDir setName k pc cas t1 h of
                                       (Some e, t2, h2) \<Rightarrow> (Some e, keyLabel, t2, h2)
                                     | (None, t2, h2) \<Rightarrow>
                                         (None, if keyLabel = [] then setName else keyLabel, t2, h2))))))))"

definition processKeys :: "crypto \<Rightarrow> KeyStore \<Rightarrow> string \<Rightarrow> string \<Rightarrow> TLSStore \<times> host
    \<Rightarrow> (string, string) result \<times> TLSStore \<times> host" where
  "processKeys cr ks keystoreDir keyDir th =
     (case read_dir cr keyDir of
        (keyList, None) \<Rightarrow>
          (case run_steps (process_key_set cr ks keystoreDir keyDir) keyList ([], th) of
             (Some e, _, th1) \<Rightarrow> (Inl e, th1)
           | (None, keyLabel, th1) \<Rightarrow> (Inr keyLabel, th1))
      | (_, Some _) \<Rightarrow> (Inr [], th))"

section \<open>Trusted certificates\<close>

definition trust_block :: "crypto \<Rightarrow> pem_block \<Rightarrow> TLSStore \<Rightarrow> string option \<times> TLSStore" where
  "trust_block cr b t =
     (case addToKnownCertificates cr b (cmsStore t) True of
        (Inl _, d) \<Rightarrow> (Some ''Failed to add to know certificates for CMS Keystore'', t\<lparr>cmsStore := d\<rparr>)
      | (Inr _, d) \<Rightarrow>
          (if ksd_Keystore (p12Store t) = None then (None, t\<lparr>cmsStore := d\<rparr>)
           else (case addToKnownCertificates cr b (p12Store t) True of
                   (Inl _, d1) \<Rightarrow>
                     (Some ''Failed to add to know certificates for PKCS#12 Truststore'', t\<lparr>cmsStore := d, p12Store := d1\<rparr>)
                 | (Inr _, d1) \<Rightarrow> (None, t\<lparr>cmsStore := d, p12Store := d1\<rparr>))))"

definition trust_file :: "crypto \<Rightarrow> host \<Rightarrow> string \<Rightarrow> string \<Rightarrow> string \<Rightarrow> TLSStore \<Rightarrow> string option \<times> TLSStore" where
  "trust_file cr h trustDir setName name t =
     (if has_suffix name ''.crt'' then
        (let p = CleanPath [trustDir, setName, name]
         in case os_read p h of
              Inl e \<Rightarrow> (Some (''Failed to read file '' @ p @ '': '' @ err_text e), t)
            | Inr body \<Rightarrow> run_steps (trust_block cr) (pem_blocks cr body) t)
      else (None, t))"

definition trust_set :: "crypto \<Rightarrow> host \<Rightarrow> string \<Rightarrow> string \<Rightarrow> TLSStore \<Rightarrow> string option \<times> TLSStore" where
  "trust_set cr h trustDir setName t =
     run_steps (trust_file cr h trustDir setName) (fst (read_dir cr (CleanPath [trustDir, setName]))) t"

fun write_certs :: "crypto \<Rightarrow> string \<Rightarrow> nat \<Rightarrow> pem_block list \<Rightarrow> host \<Rightarrow> string option \<times> host" where
  "write_certs cr p i [] h = (None, h)"
| "write_certs cr p i (c # cs) h =
     (case pem_encode cr c of
        Inl e \<Rightarrow> (Some (''Failed to encode certificate number '' @ nat_digits i @ '': '' @ e), h)
      | Inr out \<Rightarrow>
          (case os_append p out h of
             (Some e, h1) \<Rightarrow> (Some (''Failed to write certificate to file '' @ p @ '': '' @ err_text e), h1)
           | (None, h1) \<Rightarrow> write_certs cr p (Suc i) cs h1))"

definition writeCertificatesToFile :: "crypto \<Rightarrow> string \<Rightarrow> pem_block list \<Rightarrow> host \<Rightarrow> string option \<times> host" where
  "writeCertificatesToFile cr p cs h =
     (case os_write p [] h of
        (Some e, h1) \<Rightarrow> (Some (''Failed to create file '' @ p @ '': '' @ err_text e), h1)
      | (None, h1) \<Rightarrow> write_certs cr p 0 cs h1)"

definition fresh_pem :: "crypto \<Rightarrow> string \<Rightarrow> pem_block list \<Rightarrow> host \<Rightarrow> string option \<times> host" where
  "fresh_pem cr p cs h =
     (case (if os_stat p h = None then os_remove p h else (None, h)) of
        (Some e, h1) \<Rightarrow> (Some (''Failed to remove file '' @ p @ '': '' @ err_text e), h1)
      | (None, h1) \<Rightarrow> writeCertificatesToFile cr p cs h1)"

fun relabel_all :: "KeyStore \<Rightarrow> nat \<Rightarrow> string list \<Rightarrow> host \<Rightarrow> string option \<times> host" where
  "relabel_all ks i [] h = (None, h)"
| "relabel_all ks i (c # cs) h =
     (let old = trim_space (trim_quotes c); new = ''Trust'' @ nat_digits i
      in case RenameCertificate old new ks h of
           (Some e, h1) \<Rightarrow>
             (Some (''Failed to rename certificate '' @ old @ '' to '' @ new @ '' in PKCS#12 Truststore: '' @ e), h1)
         | (None, h1) \<Rightarrow> relabel_all ks (Suc i) cs h1)"

definition addCertificatesToTruststore :: "crypto \<Rightarrow> KeyStore \<Rightarrow> KeyStoreData \<Rightarrow> host \<Rightarrow> string option \<times> host" where
  "addCertificatesToTruststore cr ks d h =
     (let p = CleanPath [''/tmp'', ''trust.pem'']
      in case fresh_pem cr p (TrustedCerts d) h of
           (Some e, h1) \<Rightarrow> (Some e, h1)
         | (None, h1) \<Rightarrow>
             (case ks_AddNoLabel p ks h1 of
                (Some e, h2) \<Rightarrow> (Some (''Failed to add certificates to PKCS#12 Truststore: '' @ e), h2)
              | (None, h2) \<Rightarrow>
                  (case ListAllCertificates ks h2 of
                     (Inl e, h3) \<Rightarrow> (Some (''Failed to get any certificates from PKCS#12 Truststore: '' @ e), h3)
                   | (Inr [], h3) \<Rightarrow> (Some ''Failed to get any certificates from PKCS#12 Truststore: <nil>'', h3)
                   | (Inr cs, h3) \<Rightarrow> relabel_all ks 0 cs h3)))"

definition addCertificatesToCMSKeystore :: "crypto \<Rightarrow> KeyStore \<Rightarrow> KeyStoreData \<Rightarrow> host \<Rightarrow> string option \<times> host" where
  "addCertificatesToCMSKeystore cr ks d h =
     (let p = CleanPath [''/tmp'', ''cmsTrust.pem'']
      in case fresh_pem cr p (TrustedCerts d) h of
           (Some e, h1) \<Rightarrow> (Some e, h1)
         | (None, h1) \<Rightarrow>
             (case ks_AddNoLabel p ks h1 of
                (Some e, h2) \<Rightarrow> (Some (''Failed to add certificates to CMS keystore: '' @ e), h2)
              | (None, h2) \<Rightarrow> (None, h2)))"

text \<open>
  The stores are used for adding only when they exist; \<open>nil_store\<close> stands for the panic of using a nil
  key store, which \<open>configure_never_nil\<close> excludes.
\<close>

definition nil_store :: string where
  "nil_store = ''runtime error: invalid memory address or nil pointer dereference''"

definition add_trusted_cms :: "crypto \<Rightarrow> TLSStore \<times> host \<Rightarrow> string option \<times> TLSStore \<times> host" where
  "add_trusted_cms cr th =
     (case th of (t, h) \<Rightarrow>
        if TrustedCerts (cmsStore t) = [] then (None, t, h)
        else case ksd_Keystore (cmsStore t) of
          None \<Rightarrow> (Some nil_store, t, h)
        | Some ks \<Rightarrow> (case addCertificatesToCMSKeystore cr ks (cmsStore t) h of (e, h1) \<Rightarrow> (e, t, h1)))"

definition add_trusted_p12 :: "crypto \<Rightarrow> TLSStore \<times> host \<Rightarrow> string option \<times> TLSStore \<times> host" where
  "add_trusted_p12 cr th =
     (case th of (t, h) \<Rightarrow>
        (case ksd_Keystore (p12Store t) of
           None \<Rightarrow> (None, t, h)
         | Some ks \<Rightarrow>
             if TrustedCerts (p12Store t) = [] then (None, t, h)
             else (case addCertificatesToTruststore cr ks (p12Store t) h of (e, h1) \<Rightarrow> (e, t, h1))))"

definition collect_trusted :: "crypto \<Rightarrow> string \<Rightarrow> TLSStore \<times> host \<Rightarrow> string option \<times> TLSStore" where
  "collect_trusted cr trustDir th =
     (case th of (t, h) \<Rightarrow>
        (case read_dir cr trustDir of
           (sets, None) \<Rightarrow> run_steps (trust_set cr h trustDir) sets t
         | (_, Some _) \<Rightarrow> (None, t)))"

definition processTrustCertificates :: "crypto \<Rightarrow> string \<Rightarrow> TLSStore \<times> host \<Rightarrow> string option \<times> TLSStore \<times> host" where
  "processTrustCertificates cr trustDir th =
     (case collect_trusted cr trustDir th of
        (Some e, t) \<Rightarrow> (Some e, t, snd th)
      | (None, t) \<Rightarrow>
          (case add_trusted_p12 cr (t, snd th) of
             (Some e, th1) \<Rightarrow> (Some e, th1)
           | (None, th1) \<Rightarrow> add_trusted_cms cr th1))"

section \<open>Configuration\<close>

definition valid_chars :: string where
  "valid_chars = ''ABCDEFGHIJKLMNOPQRSTUVWXYZabcdefghijklmnopqrstuvwxyz0123456789''"

definition generateRandomPassword :: "crypto \<Rightarrow> string" where
  "generateRandomPassword cr =
     map (\<lambda>b. valid_chars ! (b mod length valid_chars)) (take 16 (random_bytes cr @ replicate 16 0))"

definition haveKeysAndCerts :: "crypto \<Rightarrow> string \<Rightarrow> bool" where
  "haveKeysAndCerts cr keyDir =
     (case read_dir cr keyDir of
        (fs, None) \<Rightarrow>
          list_ex (\<lambda>f. list_ex (\<lambda>k. has_suffix k ''.key'' \<or> has_suffix k ''.crt'')
             (fst (read_dir cr (CleanPath [keyDir, f])))) fs
      | (_, Some _) \<Rightarrow> False)"

definition create_store :: "string \<Rightarrow> KeyStore \<Rightarrow> KeyStoreData \<Rightarrow> host \<Rightarrow> string option \<times> KeyStoreData \<times> host" where
  "create_store what ks d h =
     (case ks_Create ks h of
        (Some e, h1) \<Rightarrow> (Some (''Failed to create '' @ what @ '': '' @ e), d\<lparr>ksd_Keystore := Some ks\<rparr>, h1)
      | (None, h1) \<Rightarrow> (None, d\<lparr>ksd_Keystore := Some ks\<rparr>, h1))"

definition generateAllKeystores :: "crypto \<Rightarrow> bool \<Rightarrow> string \<Rightarrow> bool \<Rightarrow> bool \<Rightarrow> host \<Rightarrow> string option \<times> TLSStore \<times> host" where
  "generateAllKeystores cr fips keystoreDir createCMS p12Required h =
     (let pw = generateRandomPassword cr;
          d = no_data\<lparr>ksd_Password := pw\<rparr>
      in case os_mkdir_all keystoreDir h of
           Some e \<Rightarrow> (Some (''Failed to create Keystore directory: '' @ e), \<lparr>cmsStore = d, p12Store = d\<rparr>, h)
         | None \<Rightarrow>
             (case (if createCMS
                    then create_store ''CMS Keystore'' (NewCMSKeyStore fips (CleanPath [keystoreDir, ''key.kdb'']) pw) d h
                    else (None, d, h)) of
                (Some e, c, h1) \<Rightarrow> (Some e, \<lparr>cmsStore = c, p12Store = d\<rparr>, h1)
              | (None, c, h1) \<Rightarrow>
                  (case (if p12Required
                         then create_store ''PKCS#12 Truststore'' (NewPKCS12KeyStore fips (CleanPath [keystoreDir, ''trust.p12'']) pw) d h1
                         else (None, d, h1)) of
                     (e, p, h2) \<Rightarrow> (e, \<lparr>cmsStore = c, p12Store = p\<rparr>, h2))))"

definition process_key_dir :: "crypto \<Rightarrow> KeyStore \<Rightarrow> string \<Rightarrow> string \<Rightarrow> string list \<times> TLSStore \<times> host
    \<Rightarrow> string option \<times> string list \<times> TLSStore \<times> host" where
  "process_key_dir cr ks keystoreDir keyDir s =
     (case s of (ls, th) \<Rightarrow>
        (case processKeys cr ks keystoreDir keyDir th of
           (Inl e, th1) \<Rightarrow> (Some e, ls, th1)
         | (Inr l, th1) \<Rightarrow> (None, ls @ [l], th1)))"

definition configureTLSKeystores :: "crypto \<Rightarrow> bool \<Rightarrow> string \<Rightarrow> string list \<Rightarrow> string list \<Rightarrow> bool \<Rightarrow> host
    \<Rightarrow> (string, string list) result \<times> TLSStore \<times> host" where
  "configureTLSKeystores cr fips keystoreDir keyDirs trustDirs p12Required h =
     (case generateAllKeystores cr fips keystoreDir (list_ex (haveKeysAndCerts cr) (keyDirs @ trustDirs)) p12Required h of
        (Some e, th) \<Rightarrow> (Inl e, th)
      | (None, th) \<Rightarrow>
          (case (case ksd_Keystore (cmsStore (fst th)) of
                   None \<Rightarrow> (None, replicate (length keyDirs) [], th)
                 | Some ks \<Rightarrow> run_steps (process_key_dir cr ks keystoreDir) keyDirs ([], th)) of
             (Some e, _, th1) \<Rightarrow> (Inl e, th1)
           | (None, ls, th1) \<Rightarrow>
               (case run_steps (processTrustCertificates cr) trustDirs th1 of
                  (Some e, th2) \<Rightarrow> (Inl e, th2)
                | (None, th2) \<Rightarrow> (Inr ls, th2))))"

definition ConfigureDefaultTLSKeystores :: "crypto \<Rightarrow> bool \<Rightarrow> host \<Rightarrow> (string, string) result \<times> TLSStore \<times> host" where
  "ConfigureDefaultTLSKeystores cr fips h =
     (case configureTLSKeystores cr fips ''/run/runmqserver/tls/'' [''/etc/mqm/pki/keys''] [''/etc/mqm/pki/trust''] True h of
        (Inl e, th) \<Rightarrow> (Inl e, th)
      | (Inr ls, th) \<Rightarrow> (Inr (case ls of [] \<Rightarrow> [] | l # _ \<Rightarrow> l), th))"

definition ConfigureHATLSKeystore :: "crypto \<Rightarrow> bool \<Rightarrow> host \<Rightarrow> (string, string \<times> string) result \<times> TLSStore \<times> host" where
  "ConfigureHATLSKeystore cr fips h =
     (case configureTLSKeystores cr fips ''/run/runmqserver/ha/tls/''
             [''/etc/mqm/ha/pki/keys'', ''/etc/mqm/groupha/pki/keys''] [''/etc/mqm/groupha/pki/trust''] False h of
        (Inl e, th) \<Rightarrow> (Inl e, th)
      | (Inr [l1, l2], th) \<Rightarrow> (Inr (l1, l2), th)
      | (Inr ls, th) \<Rightarrow>
          (Inl (''incorrect number of certificate labels returned (expected 2, got '' @ nat_digits (length ls) @ '')''), th))"

definition configureTLSDev :: "template_lib \<Rightarrow> host \<Rightarrow> string option \<times> host" where
  "configureTLSDev tlib h =
     (if getenv h ''MQ_DEV'' = ''true''
      then ProcessTemplateFile tlib ''/etc/mqm/20-dev-tls.mqsc.tpl'' ''/run/20-dev-tls.mqsc'' [] h
      else (None, h))"

definition trim_suffix :: "string \<Rightarrow> string \<Rightarrow> string" where
  "trim_suffix s x = (if has_suffix s x then take (length s - length x) s else s)"

definition tls_template_data :: "string \<Rightarrow> KeyStore option \<Rightarrow> host \<Rightarrow> template_data \<times> host" where
  "tls_template_data keyLabel store h =
     (case (if keyLabel = [] then None else store) of
        None \<Rightarrow> ([(''SSLKeyR'', []), (''CertificateLabel'', keyLabel), (''SSLFips'', ''NO'')], h)
      | Some ks \<Rightarrow>
          (case ListAllCertificates ks h of
             (r, h1) \<Rightarrow>
               ([(''SSLKeyR'', case r of Inr (_ # _) \<Rightarrow> trim_suffix (ksFilename ks) ''.kdb'' | _ \<Rightarrow> []),
                 (''CertificateLabel'', keyLabel),
                 (''SSLFips'', if fipsEnabled ks then ''YES'' else ''NO'')], h1)))"

definition ConfigureTLS :: "template_lib \<Rightarrow> string \<Rightarrow> KeyStoreData \<Rightarrow> bool \<Rightarrow> host \<Rightarrow> string option \<times> host" where
  "ConfigureTLS tlib keyLabel d devMode h =
     (case tls_template_data keyLabel (ksd_Keystore d) h of
        (dat, h1) \<Rightarrow>
          (case ProcessTemplateFile tlib ''/etc/mqm/15-tls.mqsc.tpl'' ''/run/15-tls.mqsc'' dat h1 of
             (Some e, h2) \<Rightarrow> (Some e, h2)
           | (None, h2) \<Rightarrow> if devMode \<and> keyLabel \<noteq> [] then configureTLSDev tlib h2 else (None, h2)))"

section \<open>What every step keeps of the stores\<close>

text \<open>
  All the steps change the stores in four ways only: a certificate becomes known to the CMS store or to
  the trust store, a label is recorded and a private key is recorded. What these four keep, the whole
  configuration keeps.
\<close>

locale store_invariant =
  fixes cr :: crypto and keeps :: "TLSStore \<Rightarrow> bool"
  assumes keeps_cms: "keeps t \<Longrightarrow> keeps (t\<lparr>cmsStore := snd (addToKnownCertificates cr b (cmsStore t) a)\<rparr>)"
    and keeps_p12: "keeps t \<Longrightarrow> keeps (t\<lparr>p12Store := snd (addToKnownCertificates cr b (p12Store t) True)\<rparr>)"
    and keeps_labels: "keeps t \<Longrightarrow> keeps (t\<lparr>cmsStore := (cmsStore t)\<lparr>KeyLabels := ls\<rparr>\<rparr>)"
    and keeps_lookup: "keeps t \<Longrightarrow> keeps (t\<lparr>cmsStore := (cmsStore t)\<lparr>keyLabelLookup := m\<rparr>\<rparr>)"
begin

lemma keeps_know_cms: "keeps (cl_store s) \<Longrightarrow> keeps (cl_store (snd (know_cms cr b s)))"
  using keeps_cms [of "cl_store s" b False]
  by (auto simp: know_cms_def split: prod.splits sum.splits)

lemma keeps_know_p12: "keeps t \<Longrightarrow> keeps (snd (know_p12 cr b t))"
  using keeps_p12 [of t b] by (auto simp: know_p12_def split: prod.splits sum.splits)

lemma keeps_add_ca_block: "keeps (cl_store s) \<Longrightarrow> keeps (cl_store (snd (add_ca_block cr p b s)))"
  using keeps_know_cms [of s b] keeps_know_p12 [of "cl_store (snd (know_cms cr b s))" b]
  by (auto simp: add_ca_block_def split: prod.splits sum.splits option.splits)

lemma keeps_ca_blocks: "keeps (cl_store s) \<Longrightarrow> keeps (cl_store (snd (run_steps (add_ca_block cr p) bs s)))"
  by (rule run_steps_invar [where I = "\<lambda>s. keeps (cl_store s)"]) (auto intro: keeps_add_ca_block)

lemma keeps_public_file: "keeps (cl_store s) \<Longrightarrow> keeps (cl_store (snd (public_file cr p body s)))"
proof -
  assume k: "keeps (cl_store s)"
  have "keeps (cl_store (snd (know_cms cr b (s\<lparr>cl_public := Some c\<rparr>))))" for b c
    using k by (intro keeps_know_cms) simp
  then show ?thesis using k keeps_ca_blocks
    by (auto simp: public_file_def split: prod.splits sum.splits option.splits) (metis snd_conv)+
qed

lemma keeps_process_crt: "keeps (cl_store s) \<Longrightarrow> keeps (cl_store (snd (process_crt cr h kd sn pre n s)))"
  using keeps_public_file keeps_ca_blocks
  by (auto simp: process_crt_def Let_def split: sum.splits)

lemma keeps_processCertificates: "keeps t \<Longrightarrow> keeps (snd (processCertificates cr h kd sn pre ks t))"
proof -
  assume k: "keeps t"
  have "keeps (cl_store (snd (run_steps (process_crt cr h kd sn pre) ks
          \<lparr>cl_store = t, cl_public = None, cl_ca = [], cl_new = 0\<rparr>)))"
    by (rule run_steps_invar [where I = "\<lambda>s. keeps (cl_store s)"]) (auto intro: keeps_process_crt simp: k)
  then show ?thesis by (auto simp: processCertificates_def split: prod.splits option.splits)
qed

lemma keeps_processPrivateKey:
  "keeps t \<Longrightarrow> keeps (t\<lparr>cmsStore := snd (processPrivateKey cr h kd sn ks (cmsStore t))\<rparr>)"
  using keeps_lookup
  by (auto simp: processPrivateKey_def split: prod.splits option.splits)

lemma keeps_import_keys: "keeps t \<Longrightarrow> keeps (fst (snd (import_keys cr ks dir sn k pc cas t h)))"
  using keeps_labels
  by (auto simp: import_keys_def relabelCertificate_def Let_def split: prod.splits option.splits sum.splits)

lemma keeps_trust_block: "keeps t \<Longrightarrow> keeps (snd (trust_block cr b t))"
  using keeps_cms [of t b True] keeps_p12 [of "t\<lparr>cmsStore := snd (addToKnownCertificates cr b (cmsStore t) True)\<rparr>" b]
  by (auto simp: trust_block_def split: prod.splits sum.splits)

lemma keeps_trust_file: "keeps t \<Longrightarrow> keeps (snd (trust_file cr h td sn n t))"
  by (auto simp: trust_file_def Let_def split: sum.splits intro: run_steps_invar keeps_trust_block)

lemma keeps_trust_set: "keeps t \<Longrightarrow> keeps (snd (trust_set cr h td sn t))"
  unfolding trust_set_def by (rule run_steps_invar) (auto intro: keeps_trust_file)

lemma keeps_processTrustCertificates: "keeps (fst th) \<Longrightarrow> keeps (fst (snd (processTrustCertificates cr td th)))"
proof -
  assume k: "keeps (fst th)"
  have "keeps (snd (collect_trusted cr td th))"
    using k by (auto simp: collect_trusted_def split: prod.splits option.splits intro: run_steps_invar keeps_trust_set)
  then show ?thesis
    by (auto simp: processTrustCertificates_def add_trusted_p12_def add_trusted_cms_def
        split: prod.splits option.splits if_splits)
qed

lemma keeps_process_key_set:
  "keeps (fst (snd s)) \<Longrightarrow> keeps (fst (snd (snd (process_key_set cr ks dir kd sn s))))"
proof -
  obtain l t h where s: "s = (l, t, h)" by (cases s) auto
  assume "keeps (fst (snd s))"
  then have k: "keeps t" by (simp add: s)
  let ?keys = "fst (read_dir cr (CleanPath [kd, sn]))"
  obtain r d where pk: "processPrivateKey cr h kd sn ?keys (cmsStore t) = (r, d)" by (cases "processPrivateKey cr h kd sn ?keys (cmsStore t)")
  have k1: "keeps (t\<lparr>cmsStore := d\<rparr>)" using keeps_processPrivateKey [OF k, of h kd sn ?keys] pk by simp
  show ?thesis
  proof (cases r)
    case (Inl e)
    then show ?thesis using k k1 pk by (simp add: s process_key_set_def Let_def)
  next
    case (Inr q)
    obtain po pre pl pd where q: "q = (po, pre, pl, pd)" by (cases q) auto
    obtain r1 t1 where pc: "processCertificates cr h kd sn pre ?keys (t\<lparr>cmsStore := d\<rparr>) = (r1, t1)"
      by (cases "processCertificates cr h kd sn pre ?keys (t\<lparr>cmsStore := d\<rparr>)")
    have k2: "keeps t1" using keeps_processCertificates [OF k1, of h kd sn pre ?keys] pc by simp
    have k3: "keeps (fst (snd (import_keys cr ks dir sn x c cas t1 h)))" for x c cas
      by (rule keeps_import_keys [OF k2])
    show ?thesis using k k1 k2 pk pc Inr q
      by (cases po; cases r1)
         (auto simp: s process_key_set_def Let_def split: prod.splits option.splits if_splits dest!: arg_cong [where f = "\<lambda>r. keeps (fst (snd r))"] intro: k3 [simplified])
  qed
qed

lemma keeps_processKeys: "keeps (fst th) \<Longrightarrow> keeps (fst (snd (processKeys cr ks dir kd th)))"
proof -
  assume k: "keeps (fst th)"
  have "keeps (fst (snd (snd (run_steps (process_key_set cr ks dir kd) names ([], th)))))" for names
    by (rule run_steps_invar [where I = "\<lambda>s. keeps (fst (snd s))"]) (auto intro: keeps_process_key_set simp: k)
  then show ?thesis using k
    by (auto simp: processKeys_def split: prod.splits option.splits) (metis fst_conv snd_conv)+
qed

lemma keeps_configure:
  assumes "keeps (fst (snd (generateAllKeystores cr fips dir (list_ex (haveKeysAndCerts cr) (kds @ tds)) p12 h)))"
  shows "keeps (fst (snd (configureTLSKeystores cr fips dir kds tds p12 h)))"
proof -
  obtain e th where g: "generateAllKeystores cr fips dir (list_ex (haveKeysAndCerts cr) (kds @ tds)) p12 h = (e, th)"
    by (cases "generateAllKeystores cr fips dir (list_ex (haveKeysAndCerts cr) (kds @ tds)) p12 h")
  have k: "keeps (fst th)" using assms g by simp
  have dirs: "keeps (fst (snd (snd (run_steps (process_key_dir cr ks dir) kds ([], th)))))" for ks
  proof (rule run_steps_invar [where I = "\<lambda>s. keeps (fst (snd s))"])
    show "keeps (fst (snd (snd (process_key_dir cr ks dir x s))))" if "keeps (fst (snd s))" for x s
      using keeps_processKeys [of "snd s" ks dir x] that
      by (auto simp: process_key_dir_def split: prod.splits sum.splits)
  qed (use k in simp)
  have trust: "keeps (fst (snd (run_steps (processTrustCertificates cr) tds th1)))" if "keeps (fst th1)" for th1
    by (rule run_steps_invar [where I = "\<lambda>th. keeps (fst th)"]) (auto intro: keeps_processTrustCertificates that)
  define mid where "mid = (case ksd_Keystore (cmsStore (fst th)) of
      None \<Rightarrow> (None, replicate (length kds) [], th)
    | Some ks \<Rightarrow> run_steps (process_key_dir cr ks dir) kds ([], th))"
  have m: "keeps (fst (snd (snd mid)))" using k dirs by (auto simp: mid_def split: option.splits)
  obtain em ls th1 where me: "mid = (em, ls, th1)" by (cases mid) auto
  show ?thesis
    using k m trust [of th1] g me
    by (cases e; cases em)
       (auto simp: configureTLSKeystores_def mid_def [symmetric] split: prod.splits option.splits)
qed

end

section \<open>Known certificates are recorded once\<close>

definition known_ok :: "crypto \<Rightarrow> KeyStoreData \<Rightarrow> bool" where
  "known_ok cr d \<longleftrightarrow>
     distinct (KnownFingerPrints d)
     \<and> distinct (map (getCertificateFingerprint cr) (TrustedCerts d))
     \<and> getCertificateFingerprint cr ` set (TrustedCerts d) \<subseteq> Inr ` set (KnownFingerPrints d)"

lemma known_ok_add: "known_ok cr d \<Longrightarrow> known_ok cr (snd (addToKnownCertificates cr b d a))"
  by (auto simp: known_ok_def addToKnownCertificates_def Let_def split: sum.splits)

lemma known_ok_frame [simp]:
  "known_ok cr (d\<lparr>KeyLabels := ls\<rparr>) = known_ok cr d"
  "known_ok cr (d\<lparr>keyLabelLookup := m\<rparr>) = known_ok cr d"
  "known_ok cr (d\<lparr>ksd_Keystore := k\<rparr>) = known_ok cr d"
  "known_ok cr (d\<lparr>ksd_Password := pw\<rparr>) = known_ok cr d"
  by (simp_all add: known_ok_def)

definition stores_ok :: "crypto \<Rightarrow> TLSStore \<Rightarrow> bool" where
  "stores_ok cr t \<longleftrightarrow> known_ok cr (cmsStore t) \<and> known_ok cr (p12Store t)"

interpretation known_once: store_invariant cr "stores_ok cr" for cr
  by unfold_locales (auto simp: stores_ok_def intro: known_ok_add)

text \<open>The store is there from the start or not at all.\<close>

lemma add_known_store [simp]: "ksd_Keystore (snd (addToKnownCertificates cr b d a)) = ksd_Keystore d"
  by (auto simp: addToKnownCertificates_def Let_def split: sum.splits)

interpretation same_stores: store_invariant cr
  "\<lambda>t. ksd_Keystore (cmsStore t) = c \<and> ksd_Keystore (p12Store t) = p" for cr c p
  by unfold_locales auto

text \<open>What is known stays known.\<close>

lemma add_known_grows: "set (KnownFingerPrints d) \<subseteq> set (KnownFingerPrints (snd (addToKnownCertificates cr b d a)))"
  by (auto simp: addToKnownCertificates_def Let_def split: sum.splits)

interpretation known_grows: store_invariant cr
  "\<lambda>t. x \<in> set (KnownFingerPrints (cmsStore t)) \<and> (y \<in> set (KnownFingerPrints (p12Store t)) \<or> z)" for cr x y z
  by unfold_locales (use add_known_grows in fastforce)+

lemma generate_no_certificates:
  assumes "generateAllKeystores cr fips dir cms p12 h = (e, t, h1)"
  shows "TrustedCerts (cmsStore t) = []" "KnownFingerPrints (cmsStore t) = []"
    "TrustedCerts (p12Store t) = []" "KnownFingerPrints (p12Store t) = []"
    "keyLabelLookup (cmsStore t) = Map.empty" "KeyLabels (cmsStore t) = []"
    "e = None \<Longrightarrow> cms \<longleftrightarrow> ksd_Keystore (cmsStore t) \<noteq> None"
    "e = None \<Longrightarrow> p12 \<longleftrightarrow> ksd_Keystore (p12Store t) \<noteq> None"
  using assms
  by (auto simp: generateAllKeystores_def create_store_def no_data_def Let_def split: option.splits prod.splits if_splits)

text \<open>
  C18. However the configuration of the key stores ends, no certificate is recorded twice: the recorded
  fingerprints are distinct, and the certificates that are to be added as trusted have distinct
  fingerprints which are all recorded.
\<close>

theorem configure_known_once:
  "stores_ok cr (fst (snd (configureTLSKeystores cr fips dir keyDirs trustDirs p12 h)))"
proof (rule known_once.keeps_configure)
  obtain e t h1 where g: "generateAllKeystores cr fips dir (list_ex (haveKeysAndCerts cr) (keyDirs @ trustDirs)) p12 h = (e, t, h1)"
    by (cases "generateAllKeystores cr fips dir (list_ex (haveKeysAndCerts cr) (keyDirs @ trustDirs)) p12 h") auto
  then show "stores_ok cr (fst (snd (generateAllKeystores cr fips dir
      (list_ex (haveKeysAndCerts cr) (keyDirs @ trustDirs)) p12 h)))"
    using generate_no_certificates [OF g] by (simp add: stores_ok_def known_ok_def)
qed

section \<open>Trusted certificates are all added\<close>

lemma add_known_knows:
  "fst (addToKnownCertificates cr b d a) = Inr n \<Longrightarrow>
   \<exists>x \<in> set (KnownFingerPrints (snd (addToKnownCertificates cr b d a))). getCertificateFingerprint cr b = Inr x"
  by (auto simp: addToKnownCertificates_def Let_def split: sum.splits if_splits)

definition knows :: "crypto \<Rightarrow> pem_block \<Rightarrow> TLSStore \<Rightarrow> bool" where
  "knows cr b t \<longleftrightarrow>
     (\<exists>x. getCertificateFingerprint cr b = Inr x \<and> x \<in> set (KnownFingerPrints (cmsStore t))
        \<and> (x \<in> set (KnownFingerPrints (p12Store t)) \<or> ksd_Keystore (p12Store t) = None))"

interpretation knows_stays: store_invariant cr "knows cr b" for cr b
proof
  fix t c a
  show "knows cr b t \<Longrightarrow> knows cr b (t\<lparr>cmsStore := snd (addToKnownCertificates cr c (cmsStore t) a)\<rparr>)"
    using add_known_grows [of "cmsStore t" cr c a] by (auto simp: knows_def)
  show "knows cr b t \<Longrightarrow> knows cr b (t\<lparr>p12Store := snd (addToKnownCertificates cr c (p12Store t) True)\<rparr>)"
    using add_known_grows [of "p12Store t" cr c True] by (auto simp: knows_def)
qed (auto simp: knows_def)

lemma trust_block_knows: "fst (trust_block cr b t) = None \<Longrightarrow> knows cr b (snd (trust_block cr b t))"
  using add_known_knows [of cr b "cmsStore t" True] add_known_knows [of cr b "p12Store t" True]
  by (force simp: trust_block_def knows_def split: prod.splits sum.splits if_splits
      dest: arg_cong [where f = "\<lambda>r. ksd_Keystore (snd r)"])

lemma trust_file_knows:
  assumes "fst (trust_file cr h td sn n t) = None" "has_suffix n ''.crt''"
    "b \<in> set (pem_blocks cr (case files h (CleanPath [td, sn, n]) of Some c \<Rightarrow> c | None \<Rightarrow> []))"
  shows "knows cr b (snd (trust_file cr h td sn n t))"
proof -
  obtain body where f: "os_read (CleanPath [td, sn, n]) h = Inr body"
    using assms(1,2) by (auto simp: trust_file_def Let_def split: sum.splits)
  then have c: "files h (CleanPath [td, sn, n]) = Some body"
    by (auto simp: os_read_def split: option.splits)
  have eq: "trust_file cr h td sn n t = run_steps (trust_block cr) (pem_blocks cr body) t"
    using f assms(2) by (simp add: trust_file_def Let_def)
  show ?thesis unfolding eq
    by (rule run_steps_all [where Q = "knows cr"])
       (use assms eq c in \<open>auto intro: trust_block_knows knows_stays.keeps_trust_block\<close>)
qed

lemma trust_set_knows:
  assumes "fst (trust_set cr h td sn t) = None" "n \<in> set (fst (read_dir cr (CleanPath [td, sn])))"
    "has_suffix n ''.crt''"
    "b \<in> set (pem_blocks cr (case files h (CleanPath [td, sn, n]) of Some c \<Rightarrow> c | None \<Rightarrow> []))"
  shows "knows cr b (snd (trust_set cr h td sn t))"
proof -
  let ?Q = "\<lambda>n t. has_suffix n ''.crt'' \<longrightarrow>
    (\<forall>b \<in> set (pem_blocks cr (case files h (CleanPath [td, sn, n]) of Some c \<Rightarrow> c | None \<Rightarrow> [])). knows cr b t)"
  have "?Q n (snd (trust_set cr h td sn t))" unfolding trust_set_def
    by (rule run_steps_all [where Q = ?Q])
       (use assms in \<open>auto simp: trust_set_def intro: trust_file_knows knows_stays.keeps_trust_file\<close>)
  then show ?thesis using assms by blast
qed

lemma add_trusted_store:
  "fst (snd (add_trusted_p12 cr (t, h))) = t" "fst (snd (add_trusted_cms cr (t, h))) = t"
  by (auto simp: add_trusted_p12_def add_trusted_cms_def split: option.splits prod.splits)

lemma processTrust_collected:
  assumes "processTrustCertificates cr td (t, h) = (None, t', h')"
  shows "collect_trusted cr td (t, h) = (None, t')"
proof -
  obtain t1 where c: "collect_trusted cr td (t, h) = (None, t1)"
    using assms by (auto simp: processTrustCertificates_def split: prod.splits option.splits)
  obtain e t2 h2 where a: "add_trusted_p12 cr (t1, h) = (e, t2, h2)" by (cases "add_trusted_p12 cr (t1, h)") auto
  have "t2 = t1" using add_trusted_store(1) [of cr t1 h] a by simp
  moreover have "t' = t2" using assms c a add_trusted_store(2) [of cr t2 h2]
    by (auto simp: processTrustCertificates_def split: option.splits)
  ultimately show ?thesis using c by simp
qed

text \<open>
  C17. When a directory of trusted certificates has been processed without an error, every certificate of
  every \<open>.crt\<close> file in each of its subdirectories is known to the CMS store, and to the trust store if
  there is one: none was left out, whatever the number of certificates in the file.
\<close>

theorem trusted_certificates_complete:
  assumes "processTrustCertificates cr td (t, h) = (None, t', h')"
    and "read_dir cr td = (sets, None)" "sn \<in> set sets"
    and "n \<in> set (fst (read_dir cr (CleanPath [td, sn])))" "has_suffix n ''.crt''"
    and "files h (CleanPath [td, sn, n]) = Some body" "b \<in> set (pem_blocks cr body)"
  shows "knows cr b t'"
proof -
  have run: "run_steps (trust_set cr h td) sets t = (None, t')"
    using processTrust_collected [OF assms(1)] assms(2) by (simp add: collect_trusted_def)
  let ?Q = "\<lambda>sn t. \<forall>n \<in> set (fst (read_dir cr (CleanPath [td, sn]))). has_suffix n ''.crt'' \<longrightarrow>
    (\<forall>b \<in> set (pem_blocks cr (case files h (CleanPath [td, sn, n]) of Some c \<Rightarrow> c | None \<Rightarrow> [])). knows cr b t)"
  have "?Q sn (snd (run_steps (trust_set cr h td) sets t))"
    by (rule run_steps_all [where Q = ?Q])
       (use run assms(3) in \<open>auto intro: trust_set_knows knows_stays.keeps_trust_set\<close>)
  then show ?thesis using run assms(4-7) by auto
qed

text \<open>A small world: a PEM block is one character, and a certificate is its own subject and fingerprint.\<close>

definition toy_crypto :: crypto where
  "toy_crypto = \<lparr>
     read_dir = (\<lambda>p. (if p = ''/t'' then [''ca''] else if p = ''/t/ca'' then [''one.crt'', ''readme'']
                      else if p = ''/k'' then [''default''] else if p = ''/k/default'' then [''tls-ca.crt'', ''tls.crt'', ''tls.key'']
                      else if p = ''/nokey'' then [''default''] else if p = ''/nokey/default'' then [''tls.crt''] else [], None)),
     pem_decode = (\<lambda>s. case s of [] \<Rightarrow> None | c # r \<Rightarrow> Some (\<lparr>pem_type = ''CERTIFICATE'', pem_bytes = [c]\<rparr>, r)),
     pem_encode = (\<lambda>b. Inr (pem_bytes b)),
     parse_certificate = (\<lambda>s. Inr \<lparr>cert_raw = s, cert_subject = s\<rparr>),
     parse_pkcs1 = (\<lambda>s. Inl ''not PKCS1''), parse_pkcs8 = (\<lambda>s. Inr s),
     sha512_hex = (\<lambda>s. s), p12_encode = (\<lambda>k c cs pw. Inr (k @ cert_raw c @ concat (map cert_raw cs))),
     random_bytes = [0, 61, 62]\<rparr>"

definition toy_tls_host :: host where
  "toy_tls_host = copy_host\<lparr>files := [''/t/ca/one.crt'' \<mapsto> ''ABA'', ''/k/default/tls-ca.crt'' \<mapsto> ''C'',
     ''/k/default/tls.crt'' \<mapsto> ''D'', ''/k/default/tls.key'' \<mapsto> ''K'']\<rparr>"

definition toy_store :: TLSStore where
  "toy_store = \<lparr>cmsStore = no_data\<lparr>ksd_Keystore := Some (NewCMSKeyStore False ''/s/key.kdb'' ''pw'')\<rparr>, p12Store = no_data\<rparr>"

lemma trusted_certificates_complete_witness:
  "knows toy_crypto \<lparr>pem_type = ''CERTIFICATE'', pem_bytes = ''B''\<rparr>
     (fst (snd (processTrustCertificates toy_crypto ''/t'' (toy_store, toy_tls_host))))"
proof -
  let ?r = "processTrustCertificates toy_crypto ''/t'' (toy_store, toy_tls_host)"
  have "?r = (None, fst (snd ?r), snd (snd ?r))" by (simp add: prod_eq_iff) code_simp
  moreover have "read_dir toy_crypto ''/t'' = ([''ca''], None)" by (simp add: toy_crypto_def)
  moreover have "''ca'' \<in> set [''ca'']" by simp
  moreover have "''one.crt'' \<in> set (fst (read_dir toy_crypto (CleanPath [''/t'', ''ca''])))" by code_simp
  moreover have "has_suffix ''one.crt'' ''.crt''" by code_simp
  moreover have "files toy_tls_host (CleanPath [''/t'', ''ca'', ''one.crt'']) = Some ''ABA''" by code_simp
  moreover have "\<lparr>pem_type = ''CERTIFICATE'', pem_bytes = ''B''\<rparr> \<in> set (pem_blocks toy_crypto ''ABA'')" by code_simp
  ultimately show ?thesis by (rule trusted_certificates_complete)
qed

section \<open>Keys\<close>

lemma no_key_found:
  "\<forall>n \<in> set keys. \<not> has_suffix n ''.key'' \<Longrightarrow> run_steps (find_private_key cr h kd sn) keys s = (None, s)"
  by (induction keys) (auto simp: find_private_key_def)

text \<open>
  A set of keys that holds no \<open>.key\<close> file is not skipped, as the comment in the code has it: it
  makes the configuration fail, because the cast of the missing key to a comparable type comes first.
\<close>

theorem keys_without_private_key:
  assumes "read_dir cr keyDir = (setName # others, None)" "setName \<noteq> ''trust''"
    and "\<forall>n \<in> set (fst (read_dir cr (CleanPath [keyDir, setName]))). \<not> has_suffix n ''.key''"
  shows "fst (processKeys cr ks keystoreDir keyDir (t, h)) = Inl ''failed to cast private key to comparable type''"
proof -
  have "truststore_label = ''trust''" by code_simp
  then show ?thesis using assms
    by (simp add: processKeys_def process_key_set_def processPrivateKey_def no_key_found Let_def)
qed

lemma keys_without_private_key_witness:
  "fst (processKeys toy_crypto (NewCMSKeyStore False ''/s/key.kdb'' ''pw'') ''/s'' ''/nokey'' (toy_store, copy_host)) = Inl ''failed to cast private key to comparable type''"
proof (rule keys_without_private_key)
  show "read_dir toy_crypto ''/nokey'' = (''default'' # [], None)" by (simp add: toy_crypto_def)
  have "fst (read_dir toy_crypto (CleanPath [''/nokey'', ''default''])) = [''tls.crt'']" by code_simp
  moreover have "\<not> has_suffix ''tls.crt'' ''.key''" by code_simp
  ultimately show "\<forall>n \<in> set (fst (read_dir toy_crypto (CleanPath [''/nokey'', ''default'']))). \<not> has_suffix n ''.key''"
    by simp
qed simp

text \<open>Files that are neither keys nor certificates make no difference to the certificates.\<close>

lemma process_crt_filter:
  "run_steps (process_crt cr h kd sn pre) keys s
   = run_steps (process_crt cr h kd sn pre) (filter (\<lambda>n. has_suffix n ''.crt'') keys) s"
  by (induction keys arbitrary: s) (auto simp: process_crt_def split: prod.splits option.splits)

lemma single_public_file:
  assumes "has_prefix n pre" "has_suffix n ''.crt''" "os_read (CleanPath [kd, sn, n]) h = Inr body"
    and "pem_decode cr body = Some (b, [])" "parse_certificate cr (pem_bytes b) = Inr c"
    and "sha512_hex cr (cert_raw c) \<notin> set (KnownFingerPrints (cmsStore (cl_store s)))"
  shows "process_crt cr h kd sn pre n s =
    (None, s\<lparr>cl_public := Some c, cl_new := Suc (cl_new s), cl_store := (cl_store s)\<lparr>cmsStore := (cmsStore (cl_store s))
       \<lparr>KnownFingerPrints := KnownFingerPrints (cmsStore (cl_store s)) @ [sha512_hex cr (cert_raw c)]\<rparr>\<rparr>\<rparr>)"
  using assms
  by (simp add: process_crt_def public_file_def know_cms_def addToKnownCertificates_def
      getCertificateFingerprint_def pem_blocks_def Let_def)

text \<open>
  C21. When two certificate files of a set of keys both start with the name of the private key, only the
  last is used. The first is recorded as known although it is neither the public certificate nor one of
  the CA certificates that are imported; and because it is known, it is not added to the CMS store when
  it is found among the trusted certificates either.
\<close>

theorem shadowed_certificate_lost:
  assumes "filter (\<lambda>n. has_suffix n ''.crt'') keys = [n1, n2]" "has_prefix n1 pre" "has_prefix n2 pre"
    and "os_read (CleanPath [kd, sn, n1]) h = Inr body1" "pem_decode cr body1 = Some (b1, [])"
    and "parse_certificate cr (pem_bytes b1) = Inr c1"
    and "os_read (CleanPath [kd, sn, n2]) h = Inr body2" "pem_decode cr body2 = Some (b2, [])"
    and "parse_certificate cr (pem_bytes b2) = Inr c2"
    and "distinct (KnownFingerPrints (cmsStore t) @ [sha512_hex cr (cert_raw c1), sha512_hex cr (cert_raw c2)])"
  shows "\<exists>t'. processCertificates cr h kd sn pre keys t = (Inr (Some c2, [], True), t')
    \<and> TrustedCerts (cmsStore t') = TrustedCerts (cmsStore t)
    \<and> TrustedCerts (cmsStore (snd (trust_block cr b1 t'))) = TrustedCerts (cmsStore t)"
proof -
  have x: "has_suffix n1 ''.crt''" "has_suffix n2 ''.crt''"
    using assms(1) filter_set [of "\<lambda>n. has_suffix n ''.crt''" keys] by auto
  have ne: "sha512_hex cr (cert_raw c2) \<noteq> sha512_hex cr (cert_raw c1)" using assms(10) by auto
  have "processCertificates cr h kd sn pre keys t = (Inr (Some c2, [], True),
      t\<lparr>cmsStore := (cmsStore t)\<lparr>KnownFingerPrints :=
         KnownFingerPrints (cmsStore t) @ [sha512_hex cr (cert_raw c1), sha512_hex cr (cert_raw c2)]\<rparr>\<rparr>)"
    unfolding processCertificates_def process_crt_filter [of _ _ _ _ _ keys] assms(1)
    using assms(10) ne
    by (simp add: single_public_file [OF assms(2) x(1) assms(4-6)] single_public_file [OF assms(3) x(2) assms(7-9)])
  then show ?thesis using assms(6)
    by (auto simp: trust_block_def addToKnownCertificates_def getCertificateFingerprint_def split: sum.splits)
qed

lemma shadowed_certificate_lost_witness:
  "\<exists>t'. processCertificates toy_crypto toy_tls_host ''/k'' ''default'' ''tls'' [''tls-ca.crt'', ''tls.crt'', ''tls.key''] toy_store
     = (Inr (Some \<lparr>cert_raw = ''D'', cert_subject = ''D''\<rparr>, [], True), t')"
proof -
  have "filter (\<lambda>n. has_suffix n ''.crt'') [''tls-ca.crt'', ''tls.crt'', ''tls.key''] = [''tls-ca.crt'', ''tls.crt'']"
    by code_simp
  moreover have "has_prefix ''tls-ca.crt'' ''tls''" "has_prefix ''tls.crt'' ''tls''" by code_simp+
  moreover have "os_read (CleanPath [''/k'', ''default'', ''tls-ca.crt'']) toy_tls_host = Inr ''C''"
    "os_read (CleanPath [''/k'', ''default'', ''tls.crt'']) toy_tls_host = Inr ''D''" by code_simp+
  moreover have "pem_decode toy_crypto ''C'' = Some (\<lparr>pem_type = ''CERTIFICATE'', pem_bytes = ''C''\<rparr>, [])"
    "pem_decode toy_crypto ''D'' = Some (\<lparr>pem_type = ''CERTIFICATE'', pem_bytes = ''D''\<rparr>, [])"
    "parse_certificate toy_crypto (pem_bytes \<lparr>pem_type = ''CERTIFICATE'', pem_bytes = ''C''\<rparr>) = Inr \<lparr>cert_raw = ''C'', cert_subject = ''C''\<rparr>"
    "parse_certificate toy_crypto (pem_bytes \<lparr>pem_type = ''CERTIFICATE'', pem_bytes = ''D''\<rparr>) = Inr \<lparr>cert_raw = ''D'', cert_subject = ''D''\<rparr>"
    by (simp_all add: toy_crypto_def)
  moreover have "distinct (KnownFingerPrints (cmsStore toy_store)
      @ [sha512_hex toy_crypto (cert_raw \<lparr>cert_raw = ''C'', cert_subject = ''C''\<rparr>),
         sha512_hex toy_crypto (cert_raw \<lparr>cert_raw = ''D'', cert_subject = ''D''\<rparr>)])"
    by (simp add: toy_crypto_def toy_store_def no_data_def)
  ultimately show ?thesis using shadowed_certificate_lost by metis
qed

section \<open>The label of the queue manager\<close>

lemma process_key_set_label:
  assumes "process_key_set cr ks dir kd sn (l, t, h) = (None, l', t', h')"
  shows "l \<noteq> [] \<Longrightarrow> l' = l"
    and "l = [] \<Longrightarrow> l' = sn \<or> (\<exists>k info. keyLabelLookup (cmsStore t) k = Some info \<and> l' = keySetName info)"
proof -
  have f: "l' = l \<or> l = [] \<and> (l' = sn \<or> (\<exists>k info. keyLabelLookup (cmsStore t) k = Some info \<and> l' = keySetName info))"
    and g: "l = [] \<Longrightarrow> l' = sn \<or> (\<exists>k info. keyLabelLookup (cmsStore t) k = Some info \<and> l' = keySetName info)"
    using assms
    by (auto simp: process_key_set_def processPrivateKey_def Let_def
        split: prod.splits sum.splits option.splits if_splits)
  then show "l \<noteq> [] \<Longrightarrow> l' = l"
    "l = [] \<Longrightarrow> l' = sn \<or> (\<exists>k info. keyLabelLookup (cmsStore t) k = Some info \<and> l' = keySetName info)"
    by auto
qed

lemma label_stays:
  "run_steps (process_key_set cr ks dir kd) names (l, th) = (None, l', th') \<Longrightarrow> l \<noteq> [] \<Longrightarrow> l' = l"
proof (induction names arbitrary: l th)
  case (Cons n names)
  obtain t h where th: "th = (t, h)" by (cases th)
  from Cons.prems obtain l1 t1 h1 where 1: "process_key_set cr ks dir kd n (l, t, h) = (None, l1, t1, h1)"
      and 2: "run_steps (process_key_set cr ks dir kd) names (l1, t1, h1) = (None, l', th')"
    by (auto simp: th split: prod.splits option.splits)
  have "l1 = l" using process_key_set_label(1) [OF 1] Cons.prems(2) by simp
  then show ?case using Cons.IH [OF 2] Cons.prems(2) by simp
qed simp


text \<open>The key \<open>K\<close> and both certificates have been loaded before, as \<open>old\<close>.\<close>

definition toy_loaded :: TLSStore where
  "toy_loaded = toy_store\<lparr>cmsStore := (cmsStore toy_store)\<lparr>KnownFingerPrints := [''C'', ''D''],
     keyLabelLookup := [''K'' \<mapsto> \<lparr>keySetName = ''old'', directory = ''/o/old'', pkFilename = ''tls.key''\<rparr>]\<rparr>\<rparr>"


section \<open>No store is used that does not exist\<close>

lemma no_crt_no_trust:
  assumes "\<not> haveKeysAndCerts cr td"
  shows "collect_trusted cr td (t, h) = (None, t)"
proof (cases "read_dir cr td")
  case (Pair sets e)
  show ?thesis
  proof (cases e)
    case None
    have no: "\<not> has_suffix n ''.crt''" if "sn \<in> set sets" "n \<in> set (fst (read_dir cr (CleanPath [td, sn])))" for sn n
      using assms that by (auto simp: haveKeysAndCerts_def Pair None list_ex_iff)
    have fl: "run_steps (trust_file cr h td sn) ns t = (None, t)" if "\<forall>n \<in> set ns. \<not> has_suffix n ''.crt''" for sn ns
      using that by (induction ns) (auto simp: trust_file_def)
    have "run_steps (trust_set cr h td) xs t = (None, t)" if "set xs \<subseteq> set sets" for xs
      using that by (induction xs) (use no fl in \<open>auto simp: trust_set_def\<close>)
    then show ?thesis using Pair None by (simp add: collect_trusted_def)
  qed (simp add: collect_trusted_def Pair)
qed

text \<open>
  C19. A nil key store is never used: whenever trusted certificates have been recorded for the CMS store,
  that store was created, because the search for keys and certificates that decides on creating it and
  the reading of the directories agree.
\<close>

theorem configure_never_nil:
  "TrustedCerts (cmsStore (fst (snd (configureTLSKeystores cr fips dir kds tds p12 h)))) = []
   \<or> (\<exists>ks. ksd_Keystore (cmsStore (fst (snd (configureTLSKeystores cr fips dir kds tds p12 h)))) = Some ks)"
proof -
  let ?need = "list_ex (haveKeysAndCerts cr) (kds @ tds)"
  obtain e t h1 where g: "generateAllKeystores cr fips dir ?need p12 h = (e, t, h1)"
    by (cases "generateAllKeystores cr fips dir ?need p12 h") auto
  note gen = generate_no_certificates [OF g]
  show ?thesis
  proof (cases "ksd_Keystore (cmsStore t)")
    case (Some ks)
    have "ksd_Keystore (cmsStore (fst (snd (configureTLSKeystores cr fips dir kds tds p12 h)))) = Some ks"
      using same_stores.keeps_configure [where c = "Some ks" and p = "ksd_Keystore (p12Store t)"] g Some by simp
    then show ?thesis by simp
  next
    case None
    show ?thesis
    proof (cases e)
      case (Some x)
      then show ?thesis using g gen by (simp add: configureTLSKeystores_def)
    next
      case e: None
      then have no: "\<not> haveKeysAndCerts cr td" if "td \<in> set tds" for td
        using gen(7) None that by (auto simp: list_ex_iff)
      have trust: "TrustedCerts (cmsStore (fst (snd (run_steps (processTrustCertificates cr) tds (t, h1))))) = []"
      proof (rule run_steps_invar [where I = "\<lambda>th. TrustedCerts (cmsStore (fst th)) = []"])
        fix td and th :: "TLSStore \<times> host"
        assume a: "td \<in> set tds" "TrustedCerts (cmsStore (fst th)) = []"
        obtain t2 h2 where th: "th = (t2, h2)" by (cases th)
        show "TrustedCerts (cmsStore (fst (snd (processTrustCertificates cr td th)))) = []"
          using a no_crt_no_trust [OF no [OF a(1)], of t2 h2] add_trusted_store
          by (auto simp: th processTrustCertificates_def split: prod.splits option.splits)
             (metis fst_conv snd_conv)+
      qed (simp add: gen)
      then show ?thesis using g e None
        by (auto simp: configureTLSKeystores_def split: prod.splits option.splits)
    qed
  qed
qed

end
