(* ===== verification/Metric_Names.thy ===== *)
theory Metric_Names
  imports Host
begin

text \<open>
  internal/metrics/mapping.go: the table of the metrics that are known, from the key of a metric to the
  name it is exported under and whether it is. The names are pairwise different.
\<close>

section \<open>The table\<close>

record metricLookup =
  lookup_name :: string
  enabled :: bool

definition generateMetricNamesMap :: "(string \<times> metricLookup) list" where
  "generateMetricNamesMap =
     [(''CPU/SystemSummary/CPU load - one minute average'', metricLookup.make ''cpu_load_one_minute_average_percentage'' True),
      (''CPU/SystemSummary/CPU load - five minute average'', metricLookup.make ''cpu_load_five_minute_average_percentage'' True),
      (''CPU/SystemSummary/CPU load - fifteen minute average'', metricLookup.make ''cpu_load_fifteen_minute_average_percentage'' True),
      (''CPU/SystemSummary/System CPU time percentage'', metricLookup.make ''system_cpu_time_percentage'' True),
      (''CPU/SystemSummary/User CPU time percentage'', metricLookup.make ''user_cpu_time_percentage'' True),
      (''CPU/SystemSummary/RAM free percentage'', metricLookup.make ''ram_free_percentage'' True),
      (''CPU/SystemSummary/RAM total bytes'', metricLookup.make ''system_ram_size_bytes'' False),
      (''CPU/QMgrSummary/System CPU time - percentage estimate for queue manager'', metricLookup.make ''system_cpu_time_estimate_for_queue_manager_percentage'' True),
      (''CPU/QMgrSummary/User CPU time - percentage estimate for queue manager'', metricLookup.make ''user_cpu_time_estimate_for_queue_manager_percentage'' True),
      (''CPU/QMgrSummary/RAM total bytes - estimate for queue manager'', metricLookup.make ''ram_usage_estimate_for_queue_manager_bytes'' True),
      (''DISK/SystemSummary/MQ trace file system - free space'', metricLookup.make ''trace_file_system_free_space_percentage'' True),
      (''DISK/SystemSummary/MQ trace file system - bytes in use'', metricLookup.make ''trace_file_system_in_use_bytes'' True),
      (''DISK/SystemSummary/MQ errors file system - free space'', metricLookup.make ''errors_file_system_free_space_percentage'' True),
      (''DISK/SystemSummary/MQ errors file system - bytes in use'', metricLookup.make ''errors_file_system_in_use_bytes'' True),
      (''DISK/SystemSummary/MQ FDC file count'', metricLookup.make ''fdc_files'' True),
      (''DISK/QMgrSummary/Queue Manager file system - free space'', metricLookup.make ''queue_manager_file_system_free_space_percentage'' True),
      (''DISK/QMgrSummary/Queue Manager file system - bytes in use'', metricLookup.make ''queue_manager_file_system_in_use_bytes'' True),
      (''DISK/Log/Log - logical bytes written'', metricLookup.make ''log_logical_written_bytes_total'' True),
      (''DISK/Log/Log - physical bytes written'', metricLookup.make ''log_physical_written_bytes_total'' True),
      (''DISK/Log/Log - current primary space in use'', metricLookup.make ''log_primary_space_in_use_percentage'' True),
      (''DISK/Log/Log - workload primary space utilization'', metricLookup.make ''log_workload_primary_space_utilization_percentage'' True),
      (''DISK/Log/Log - write latency'', metricLookup.make ''log_write_latency_seconds'' True),
      (''DISK/Log/Log - bytes max'', metricLookup.make ''log_max_bytes'' True),
      (''DISK/Log/Log - write size'', metricLookup.make ''log_write_size_bytes'' True),
      (''DISK/Log/Log - bytes in use'', metricLookup.make ''log_in_use_bytes'' True),
      (''DISK/Log/Log file system - bytes max'', metricLookup.make ''log_file_system_max_bytes'' True),
      (''DISK/Log/Log file system - bytes in use'', metricLookup.make ''log_file_system_in_use_bytes'' True),
      (''DISK/Log/Log file system - free space'', metricLookup.make ''log_file_system_free_space_percentage'' True),
      (''DISK/Log/Log - bytes occupied by reusable extents'', metricLookup.make ''log_occupied_by_reusable_extents_bytes'' True),
      (''DISK/Log/Log - bytes occupied by extents waiting to be archived'', metricLookup.make ''log_occupied_by_extents_waiting_to_be_archived_bytes'' True),
      (''DISK/Log/Log - bytes required for media recovery'', metricLookup.make ''log_required_for_media_recovery_bytes'' True),
      (''DISK/Log/Log - disk written log sequence number'', metricLookup.make ''log_sequence_number_disk_total'' True),
      (''DISK/Log/Log - quorum log sequence number'', metricLookup.make ''log_sequence_number_quorum_total'' True),
      (''DISK/Log/Log - timestamp of slowest write'', metricLookup.make ''log_slowest_write_timestamp_seconds'' True),
      (''DISK/Log/Log - slowest write since restart'', metricLookup.make ''log_slowest_write_since_restart_seconds'' True),
      (''STATMQI/SUBSCRIBE/Create durable subscription count'', metricLookup.make ''durable_subscription_create_total'' True),
      (''STATMQI/SUBSCRIBE/Alter durable subscription count'', metricLookup.make ''durable_subscription_alter_total'' True),
      (''STATMQI/SUBSCRIBE/Resume durable subscription count'', metricLookup.make ''durable_subscription_resume_total'' True),
      (''STATMQI/SUBSCRIBE/Delete durable subscription count'', metricLookup.make ''durable_subscription_delete_total'' True),
      (''STATMQI/SUBSCRIBE/Create non-durable subscription count'', metricLookup.make ''non_durable_subscription_create_total'' True),
      (''STATMQI/SUBSCRIBE/Delete non-durable subscription count'', metricLookup.make ''non_durable_subscription_delete_total'' True),
      (''STATMQI/SUBSCRIBE/Failed create/alter/resume subscription count'', metricLookup.make ''failed_subscription_create_alter_resume_total'' True),
      (''STATMQI/SUBSCRIBE/Subscription delete failure count'', metricLookup.make ''failed_subscription_delete_total'' True),
      (''STATMQI/SUBSCRIBE/MQSUBRQ count'', metricLookup.make ''mqsubrq_total'' True),
      (''STATMQI/SUBSCRIBE/Failed MQSUBRQ count'', metricLookup.make ''failed_mqsubrq_total'' True),
      (''STATMQI/SUBSCRIBE/Durable subscriber - high water mark'', metricLookup.make ''durable_subscriber_high_water_mark'' False),
      (''STATMQI/SUBSCRIBE/Durable subscriber - low water mark'', metricLookup.make ''durable_subscriber_low_water_mark'' False),
      (''STATMQI/SUBSCRIBE/Non-durable subscriber - high water mark'', metricLookup.make ''non_durable_subscriber_high_water_mark'' False),
      (''STATMQI/SUBSCRIBE/Non-durable subscriber - low water mark'', metricLookup.make ''non_durable_subscriber_low_water_mark'' False),
      (''STATMQI/PUBLISH/Topic MQPUT/MQPUT1 interval total'', metricLookup.make ''topic_mqput_mqput1_total'' True),
      (''STATMQI/PUBLISH/Interval total topic bytes put'', metricLookup.make ''topic_put_bytes_total'' True),
      (''STATMQI/PUBLISH/Failed topic MQPUT/MQPUT1 count'', metricLookup.make ''failed_topic_mqput_mqput1_total'' True),
      (''STATMQI/PUBLISH/Persistent - topic MQPUT/MQPUT1 count'', metricLookup.make ''persistent_topic_mqput_mqput1_total'' True),
      (''STATMQI/PUBLISH/Non-persistent - topic MQPUT/MQPUT1 count'', metricLookup.make ''non_persistent_topic_mqput_mqput1_total'' True),
      (''STATMQI/PUBLISH/Published to subscribers - message count'', metricLookup.make ''published_to_subscribers_message_total'' True),
      (''STATMQI/PUBLISH/Published to subscribers - byte count'', metricLookup.make ''published_to_subscribers_bytes_total'' True),
      (''STATMQI/CONNDISC/MQCONN/MQCONNX count'', metricLookup.make ''mqconn_mqconnx_total'' True),
      (''STATMQI/CONNDISC/Failed MQCONN/MQCONNX count'', metricLookup.make ''failed_mqconn_mqconnx_total'' True),
      (''STATMQI/CONNDISC/MQDISC count'', metricLookup.make ''mqdisc_total'' True),
      (''STATMQI/CONNDISC/Concurrent connections - high water mark'', metricLookup.make ''concurrent_connections_high_water_mark'' False),
      (''STATMQI/OPENCLOSE/MQOPEN count'', metricLookup.make ''mqopen_total'' True),
      (''STATMQI/OPENCLOSE/Failed MQOPEN count'', metricLookup.make ''failed_mqopen_total'' True),
      (''STATMQI/OPENCLOSE/MQCLOSE count'', metricLookup.make ''mqclose_total'' True),
      (''STATMQI/OPENCLOSE/Failed MQCLOSE count'', metricLookup.make ''failed_mqclose_total'' True),
      (''STATMQI/INQSET/MQINQ count'', metricLookup.make ''mqinq_total'' True),
      (''STATMQI/INQSET/Failed MQINQ count'', metricLookup.make ''failed_mqinq_total'' True),
      (''STATMQI/INQSET/MQSET count'', metricLookup.make ''mqset_total'' True),
      (''STATMQI/INQSET/Failed MQSET count'', metricLookup.make ''failed_mqset_total'' True),
      (''STATMQI/PUT/Persistent message MQPUT count'', metricLookup.make ''persistent_message_mqput_total'' True),
      (''STATMQI/PUT/Persistent message MQPUT1 count'', metricLookup.make ''persistent_message_mqput1_total'' True),
      (''STATMQI/PUT/Put persistent messages - byte count'', metricLookup.make ''persistent_message_put_bytes_total'' True),
      (''STATMQI/PUT/Non-persistent message MQPUT count'', metricLookup.make ''non_persistent_message_mqput_total'' True),
      (''STATMQI/PUT/Non-persistent message MQPUT1 count'', metricLookup.make ''non_persistent_message_mqput1_total'' True),
      (''STATMQI/PUT/Put non-persistent messages - byte count'', metricLookup.make ''non_persistent_message_put_bytes_total'' True),
      (''STATMQI/PUT/Interval total MQPUT/MQPUT1 count'', metricLookup.make ''mqput_mqput1_total'' True),
      (''STATMQI/PUT/Interval total MQPUT/MQPUT1 byte count'', metricLookup.make ''mqput_mqput1_bytes_total'' True),
      (''STATMQI/PUT/Failed MQPUT count'', metricLookup.make ''failed_mqput_total'' True),
      (''STATMQI/PUT/Failed MQPUT1 count'', metricLookup.make ''failed_mqput1_total'' True),
      (''STATMQI/PUT/MQSTAT count'', metricLookup.make ''mqstat_total'' True),
      (''STATMQI/GET/Persistent message destructive get - count'', metricLookup.make ''persistent_message_destructive_get_total'' True),
      (''STATMQI/GET/Persistent message browse - count'', metricLookup.make ''persistent_message_browse_total'' True),
      (''STATMQI/GET/Got persistent messages - byte count'', metricLookup.make ''persistent_message_get_bytes_total'' True),
      (''STATMQI/GET/Persistent message browse - byte count'', metricLookup.make ''persistent_message_browse_bytes_total'' True),
      (''STATMQI/GET/Non-persistent message destructive get - count'', metricLookup.make ''non_persistent_message_destructive_get_total'' True),
      (''STATMQI/GET/Non-persistent message browse - count'', metricLookup.make ''non_persistent_message_browse_total'' True),
      (''STATMQI/GET/Got non-persistent messages - byte count'', metricLookup.make ''non_persistent_message_get_bytes_total'' True),
      (''STATMQI/GET/Non-persistent message browse - byte count'', metricLookup.make ''non_persistent_message_browse_bytes_total'' True),
      (''STATMQI/GET/Interval total destructive get- count'', metricLookup.make ''destructive_get_total'' True),
      (''STATMQI/GET/Interval total destructive get - byte count'', metricLookup.make ''destructive_get_bytes_total'' True),
      (''STATMQI/GET/Failed MQGET - count'', metricLookup.make ''failed_mqget_total'' True),
      (''STATMQI/GET/Failed browse count'', metricLookup.make ''failed_browse_total'' True),
      (''STATMQI/GET/MQCTL count'', metricLookup.make ''mqctl_total'' True),
      (''STATMQI/GET/Expired message count'', metricLookup.make ''expired_message_total'' True),
      (''STATMQI/GET/Purged queue count'', metricLookup.make ''purged_queue_total'' True),
      (''STATMQI/GET/MQCB count'', metricLookup.make ''mqcb_total'' True),
      (''STATMQI/GET/Failed MQCB count'', metricLookup.make ''failed_mqcb_total'' True),
      (''STATMQI/SYNCPOINT/Commit count'', metricLookup.make ''commit_total'' True),
      (''STATMQI/SYNCPOINT/Rollback count'', metricLookup.make ''rollback_total'' True),
      (''NHAREPLICA/REPLICATION/Catch-up log bytes sent'', metricLookup.make ''replication_catchup_log_sent_bytes'' True),
      (''NHAREPLICA/REPLICATION/MQ FDC file count'', metricLookup.make ''replication_mq_fdc_file_count'' True),
      (''NHAREPLICA/REPLICATION/Catch-up log bytes decompressed'', metricLookup.make ''replication_catch_up_log_decompressed_bytes'' True),
      (''NHAREPLICA/REPLICATION/Acknowledged log sequence number'', metricLookup.make ''replication_acknowledged_log_sequence_number_total'' True),
      (''NHAREPLICA/REPLICATION/Log file system - bytes in use'', metricLookup.make ''replication_log_file_system_in_use_bytes'' True),
      (''NHAREPLICA/REPLICATION/Log file system - free space'', metricLookup.make ''replication_log_file_system_free_space_percent'' True),
      (''NHAREPLICA/REPLICATION/Synchronous log bytes sent'', metricLookup.make ''replication_synchronous_log_sent_bytes'' True),
      (''NHAREPLICA/REPLICATION/Log write average acknowledgement size'', metricLookup.make ''replication_log_write_average_acknowledgement_size_bytes'' True),
      (''NHAREPLICA/REPLICATION/Backlog average bytes'', metricLookup.make ''replication_backlog_average_bytes'' True),
      (''NHAREPLICA/REPLICATION/Synchronous compressed log bytes sent'', metricLookup.make ''replication_synchronous_compressed_log_sent_bytes'' True),
      (''NHAREPLICA/REPLICATION/Synchronous uncompressed log bytes sent'', metricLookup.make ''replication_synchronous_uncompressed_log_sent_bytes'' True),
      (''NHAREPLICA/REPLICATION/Synchronous log data average compression time'', metricLookup.make ''replication_synchronous_log_data_average_compression_time_seconds'' True),
      (''NHAREPLICA/REPLICATION/Catch-up log data average compression time'', metricLookup.make ''replication_catch_up_log_data_average_compression_time_seconds'' True),
      (''NHAREPLICA/REPLICATION/Average network round trip time'', metricLookup.make ''replication_average_network_round_trip_time_seconds'' True),
      (''NHAREPLICA/REPLICATION/Synchronous log bytes decompressed'', metricLookup.make ''replication_synchronous_log_decompressed_bytes'' True),
      (''NHAREPLICA/REPLICATION/Synchronous log data average decompression time'', metricLookup.make ''replication_synchronous_log_data_average_decompression_time_seconds'' True),
      (''NHAREPLICA/REPLICATION/Queue Manager file system - free space'', metricLookup.make ''replication_queue_manager_file_system_free_space_percent'' True),
      (''NHAREPLICA/REPLICATION/Catch-up log data average decompression time'', metricLookup.make ''replication_catch_up_log_data_average_decompression_time_seconds'' True),
      (''NHAREPLICA/REPLICATION/Log write average acknowledgement latency'', metricLookup.make ''replication_log_write_average_acknowledgement_latency_seconds'' True),
      (''NHAREPLICA/REPLICATION/Backlog bytes'', metricLookup.make ''replication_backlog_bytes'' True),
      (''NHAREPLICA/REPLICATION/Catch-up compressed log bytes sent'', metricLookup.make ''replication_catch_up_compressed_log_sent_bytes'' True),
      (''NHAREPLICA/REPLICATION/Catch-up uncompressed log bytes sent'', metricLookup.make ''replication_catch_up_uncompressed_log_sent_bytes'' True),
      (''NHAREPLICA/REPLICATION/Queue Manager file system - bytes in use'', metricLookup.make ''replication_queue_manager_file_system_in_use_bytes'' True),
      (''NHAREPLICA/REPLICATION/Backlog long-term average bytes'', metricLookup.make ''replication_backlog_long_term_average_bytes'' True),
      (''NHAREPLICA/REPLICATION/Catch-up time percentage'', metricLookup.make ''replication_catch_up_time_percentage'' True),
      (''NHAREPLICA/REPLICATION/Throttling time percentage'', metricLookup.make ''replication_throttling_time_percentage'' True),
      (''NHAREPLICA/REPLICATION/Log - write latency'', metricLookup.make ''replication_log_write_latency_seconds'' True),
      (''NHAREPLICA/REPLICATION/Log - write size'', metricLookup.make ''replication_log_write_size_bytes'' True),
      (''NHAREPLICA/REPLICATION/Log - slowest write since restart'', metricLookup.make ''replication_log_slowest_write_since_restart_seconds'' True),
      (''NHAREPLICA/REPLICATION/Log - timestamp of slowest write'', metricLookup.make ''replication_log_slowest_write_timestamp_seconds'' True),
      (''NHAREPLICA/RECOVERY/Compressed log bytes sent'', metricLookup.make ''recovery_compressed_log_sent_bytes'' True),
      (''NHAREPLICA/RECOVERY/Backlog average bytes'', metricLookup.make ''recovery_backlog_average_bytes'' True),
      (''NHAREPLICA/RECOVERY/Rebase count'', metricLookup.make ''recovery_rebase_count'' True),
      (''NHAREPLICA/RECOVERY/Average network round trip time'', metricLookup.make ''recovery_average_network_round_trip_time_seconds'' True),
      (''NHAREPLICA/RECOVERY/Log data average compression time'', metricLookup.make ''recovery_log_data_average_compression_time_seconds'' True),
      (''NHAREPLICA/RECOVERY/Log bytes decompressed'', metricLookup.make ''recovery_log_decompressed_bytes'' True),
      (''NHAREPLICA/RECOVERY/Log data average decompression time'', metricLookup.make ''recovery_log_data_average_decompression_time_seconds'' True),
      (''NHAREPLICA/RECOVERY/Log bytes sent'', metricLookup.make ''recovery_log_sent_bytes'' True),
      (''NHAREPLICA/RECOVERY/Backlog bytes'', metricLookup.make ''recovery_backlog_bytes'' True),
      (''NHAREPLICA/RECOVERY/Recovery log sequence number'', metricLookup.make ''recovery_recovery_log_sequence_number'' True)]"

section \<open>The names are unique\<close>

text \<open>
  Distinct texts by sorting them into buckets of equal first characters, so that the table can be
  checked without comparing each name with each other.
\<close>

fun into_bucket :: "char \<Rightarrow> string \<Rightarrow> (char \<times> string list) list \<Rightarrow> (char \<times> string list) list" where
  "into_bucket c s [] = [(c, [s])]"
| "into_bucket c s ((d, ss) # bs) = (if c = d then (d, s # ss) # bs else (d, ss) # into_bucket c s bs)"

fun buckets :: "string list \<Rightarrow> (char \<times> string list) list" where
  "buckets [] = []"
| "buckets ([] # ss) = buckets ss"
| "buckets ((c # s) # ss) = into_bucket c s (buckets ss)"

fun all_different :: "nat \<Rightarrow> string list \<Rightarrow> bool" where
  "all_different 0 ss = (length ss \<le> 1)"
| "all_different (Suc n) ss =
     (case ss of
        [] \<Rightarrow> True
      | s # rest \<Rightarrow>
          (case rest of
             [] \<Rightarrow> True
           | _ \<Rightarrow> length (filter (\<lambda>x. x = []) ss) \<le> 1 \<and> list_all (\<lambda>b. all_different n (snd b)) (buckets ss)))"

definition bucket_of :: "char \<Rightarrow> string list \<Rightarrow> string list" where
  "bucket_of c ss = map tl (filter (\<lambda>s. s \<noteq> [] \<and> hd s = c) ss)"

lemma bucket_of_simps [simp]:
  "bucket_of c [] = []" "bucket_of c ([] # ss) = bucket_of c ss"
  "bucket_of c ((d # s) # ss) = (if d = c then s # bucket_of c ss else bucket_of c ss)"
  by (simp_all add: bucket_of_def)

lemma map_of_into_bucket:
  "map_of (into_bucket c s bs) =
     (map_of bs)(c \<mapsto> (case map_of bs c of None \<Rightarrow> [s] | Some ss \<Rightarrow> s # ss))"
  by (induction c s bs rule: into_bucket.induct) (auto simp: fun_eq_iff)

lemma map_of_buckets:
  "map_of (buckets ss) c = (if bucket_of c ss = [] then None else Some (bucket_of c ss))"
  by (induction ss rule: buckets.induct) (auto simp: map_of_into_bucket split: if_splits)

lemma distinct_by_buckets:
  assumes "length (filter (\<lambda>x. x = []) ss) \<le> 1" "\<And>c. distinct (bucket_of c ss)"
  shows "distinct ss"
  using assms
proof (induction ss)
  case (Cons s ss)
  have "distinct (bucket_of c ss)" for c
    using Cons.prems(2) [of c] by (auto simp: bucket_of_def split: if_splits)
  then have "distinct ss" using Cons by (auto split: if_splits)
  moreover have "s \<notin> set ss"
  proof (cases s)
    case Nil
    then show ?thesis using Cons.prems(1) by (auto simp: filter_empty_conv)
  next
    case (Cons c t)
    then show ?thesis using Cons.prems(2) [of c] by (force simp: bucket_of_def)
  qed
  ultimately show ?case by simp
qed simp

lemma all_different_sound: "all_different n ss \<Longrightarrow> distinct ss"
proof (induction n arbitrary: ss)
  case 0
  then show ?case by (cases ss) auto
next
  case (Suc n)
  show ?case
  proof (cases "length ss \<le> 1")
    case True
    then show ?thesis by (cases ss) auto
  next
    case False
    then obtain s t rest where ss: "ss = s # t # rest" by (cases ss; cases "tl ss") auto
    have b: "list_all (\<lambda>b. all_different n (snd b)) (buckets ss)"
      and e: "length (filter (\<lambda>x. x = []) ss) \<le> 1"
      using Suc.prems by (simp_all only: ss all_different.simps list.case)
    have "distinct (bucket_of c ss)" for c
    proof (cases "bucket_of c ss = []")
      case False
      then have "(c, bucket_of c ss) \<in> set (buckets ss)"
        using map_of_buckets [of ss c] by (auto dest: map_of_SomeD)
      then show ?thesis using b Suc.IH by (force simp: list_all_iff)
    qed simp
    then show ?thesis using distinct_by_buckets e by blast
  qed
qed

lemma distinct_metric_names: "distinct (map (\<lambda>p. lookup_name (snd p)) generateMetricNamesMap)"
  by (rule all_different_sound [of 100]) code_simp

lemma names_from_table:
  assumes "map_of generateMetricNamesMap k = Some l" "map_of generateMetricNamesMap k' = Some l'"
    and "lookup_name l = lookup_name l'"
  shows "k = k'"
proof -
  have "(k, l) \<in> set generateMetricNamesMap" "(k', l') \<in> set generateMetricNamesMap"
    using assms(1,2) by (auto dest: map_of_SomeD)
  moreover have "inj_on (\<lambda>p. lookup_name (snd p)) (set generateMetricNamesMap)"
    using distinct_metric_names by (simp only: distinct_map)
  ultimately have "(k, l) = (k', l')" using assms(3) by (intro inj_onD [of "\<lambda>p. lookup_name (snd p)"]) simp_all
  then show ?thesis by simp
qed

end
