(* ===== verification/Metrics.thy ===== *)
theory Metrics
  imports Metric_Names
begin

text \<open>
  internal/metrics/update.go and exporter.go. The metrics that a queue manager publishes
  are discovered by a library as a tree of classes, types and elements; the goroutine
  \<open>processMetrics\<close> keeps the values of those it knows in a map, and the exporter turns the map into
  Prometheus counters and gauges. The library's normalisation of a value, the test of label values by the
  Prometheus library and its test for a negative increment are parameters; floating point numbers are an
  arbitrary type, so a counter is the list of what was added to it.
\<close>

section \<open>Texts\<close>

text \<open>\<open>strings.ReplaceAll\<close> with a non-empty text to replace.\<close>

function replace_all :: "string \<Rightarrow> string \<Rightarrow> string \<Rightarrow> string" where
  "replace_all old new s =
     (if old \<noteq> [] \<and> prefix old s then new @ replace_all old new (drop (length old) s)
      else (case s of [] \<Rightarrow> [] | c # cs \<Rightarrow> c # replace_all old new cs))"
  by pat_completeness auto
termination
  by (relation "measure (\<lambda>(old, new, s). length s)") (auto simp: prefix_def)

declare replace_all.simps [simp del]

section \<open>The tree of published metrics\<close>

text \<open>
  \<open>mqmetric.MonClass\<close>, \<open>MonType\<close> and \<open>MonElement\<close>. A map is the list of its entries in the order of
  an iteration; the values of an element are its labels with the numbers published since they were last
  reset.
\<close>

record MonElement =
  Description :: string
  Datatype :: int
  Values :: "(string \<times> int) list"

record MonType =
  type_Name :: string
  ObjectTopic :: string
  Elements :: "MonElement list"

record MonClass =
  class_Name :: string
  Types :: "MonType list"

definition makeKey :: "string \<Rightarrow> string \<Rightarrow> string \<Rightarrow> string" where
  "makeKey c t d = c @ ''/'' @ t @ ''/'' @ d"

definition is_nha :: "MonClass \<Rightarrow> bool" where
  "is_nha c \<longleftrightarrow> class_Name c = ''NHAREPLICA''"

text \<open>Metrics of single objects, whose topic has a place for the name, are left out.\<close>

definition wanted_type :: "MonClass \<Rightarrow> MonType \<Rightarrow> bool" where
  "wanted_type c t \<longleftrightarrow> is_nha c \<or> \<not> contains (ObjectTopic t) ''%s''"

section \<open>Initial details and updates\<close>

record 'v metricData =
  md_name :: string
  md_description :: string
  objectType :: bool
  nhaType :: bool
  md_values :: "(string \<times> 'v) list"
  isDelta :: bool

type_synonym 'v metrics = "(string \<times> 'v metricData) list"

definition MQIAMO_MONITOR_DELTA :: int where "MQIAMO_MONITOR_DELTA = 2"

text \<open>The loop body of \<open>initialiseMetrics\<close>, over the map, the flag of valid metrics and the log.\<close>

definition init_element ::
    "bool \<Rightarrow> string \<Rightarrow> MonElement \<Rightarrow> 'v metrics \<times> bool \<times> host \<Rightarrow> 'v metrics \<times> bool \<times> host" where
  "init_element isNHA key e st =
     (case st of (ms, valid, h) \<Rightarrow>
        (case map_of generateMetricNamesMap key of
           None \<Rightarrow>
             (ms, False, say InfoL (''Metrics Warning: Skipping metric, unexpected key ['' @ key @ '']'') h)
         | Some l \<Rightarrow>
             if enabled l then
               (if map_of ms key = None then
                  (ms @ [(key, \<lparr>md_name = lookup_name l, md_description = Description e, objectType = False,
                                nhaType = isNHA, md_values = [],
                                isDelta = (Datatype e = MQIAMO_MONITOR_DELTA)\<rparr>)], valid, h)
                else (ms, False, say ErrorL (''Metrics Error: Found duplicate metric key ['' @ key @ '']'') h))
             else (ms, valid, say DebugL (''Metrics: Skipping metric, metric is not enabled for key ['' @ key @ '']'') h)))"

definition initialiseMetrics :: "MonClass list \<Rightarrow> host \<Rightarrow> ('v metrics \<times> string option) \<times> host" where
  "initialiseMetrics classes h =
     (case foldl (\<lambda>st c. foldl (\<lambda>st t.
               if wanted_type c t
               then foldl (\<lambda>st e. init_element (is_nha c) (makeKey (class_Name c) (type_Name t) (Description e)) e st)
                      st (Elements t)
               else st) st (Types c)) ([], True, h) classes of
        (ms, valid, h1) \<Rightarrow> ((ms, if valid then None else Some ''Invalid metrics data''), h1))"

definition set_values :: "string \<Rightarrow> (string \<times> 'v) list \<Rightarrow> 'v metrics \<Rightarrow> 'v metrics" where
  "set_values key vs ms = map (\<lambda>(k, m). (k, if k = key then m\<lparr>md_values := vs\<rparr> else m)) ms"

type_synonym 'v normaliser = "MonElement \<Rightarrow> string \<Rightarrow> int \<Rightarrow> 'v"

definition normalised :: "'v normaliser \<Rightarrow> MonElement \<Rightarrow> (string \<times> 'v) list" where
  "normalised Normalise e = map (\<lambda>(l, v). (l, Normalise e l v)) (Values e)"

text \<open>
  \<open>updateMetrics\<close>: the map takes over what was published for each element, and what was taken over is
  forgotten in the tree, also for elements that are not in the map.
\<close>

fun update_elements ::
    "'v normaliser \<Rightarrow> string \<Rightarrow> string \<Rightarrow> MonElement list \<Rightarrow> 'v metrics \<Rightarrow> MonElement list \<times> 'v metrics" where
  "update_elements Normalise c t [] ms = ([], ms)"
| "update_elements Normalise c t (e # es) ms =
     (let (es1, ms1) = update_elements Normalise c t es
                         (set_values (makeKey c t (Description e)) (normalised Normalise e) ms)
      in (e\<lparr>Values := []\<rparr> # es1, ms1))"

fun update_types :: "'v normaliser \<Rightarrow> MonClass \<Rightarrow> MonType list \<Rightarrow> 'v metrics \<Rightarrow> MonType list \<times> 'v metrics" where
  "update_types Normalise c [] ms = ([], ms)"
| "update_types Normalise c (t # ts) ms =
     (let (t1, ms1) = (if wanted_type c t
                       then (case update_elements Normalise (class_Name c) (type_Name t) (Elements t) ms of
                               (es, ms1) \<Rightarrow> (t\<lparr>Elements := es\<rparr>, ms1))
                       else (t, ms));
          (ts1, ms2) = update_types Normalise c ts ms1
      in (t1 # ts1, ms2))"

fun updateMetrics :: "'v normaliser \<Rightarrow> MonClass list \<Rightarrow> 'v metrics \<Rightarrow> MonClass list \<times> 'v metrics" where
  "updateMetrics Normalise [] ms = ([], ms)"
| "updateMetrics Normalise (c # cs) ms =
     (let (ts, ms1) = update_types Normalise c (Types c) ms;
          (cs1, ms2) = updateMetrics Normalise cs ms1
      in (c\<lparr>Types := ts\<rparr> # cs1, ms2))"

section \<open>The exporter\<close>

text \<open>
  A \<open>CounterVec\<close> or \<open>GaugeVec\<close>: its options, the names of its labels, and its children by their label
  values. A child of a counter is the list of the values added to it, a child of a gauge the value set
  last. What the exporter takes from the Prometheus library: the error for label values that do not fit
  the labels, and which values a counter refuses with a panic.
\<close>

record 'c vec =
  vec_Namespace :: string
  vec_Name :: string
  vec_Help :: string
  vec_labels :: "string list"
  children :: "string list \<rightharpoonup> 'c"

record 'v prometheus =
  label_error :: "string list \<Rightarrow> string list \<Rightarrow> string option"
  decreases :: "'v \<Rightarrow> bool"

record 'v exporter =
  qmName :: string
  gaugeMap :: "string \<rightharpoonup> 'v vec"
  counterMap :: "string \<rightharpoonup> 'v list vec"
  firstCollect :: bool

definition newExporter :: "string \<Rightarrow> 'v exporter" where
  "newExporter qm = \<lparr>qmName = qm, gaugeMap = Map.empty, counterMap = Map.empty, firstCollect = True\<rparr>"

definition getVecDetails :: "bool \<Rightarrow> bool \<Rightarrow> string \<times> string list" where
  "getVecDetails obj nha =
     (if obj then (''object'', [''object'', ''qmgr''])
      else if nha then (''nha'', [''instance'', ''qmgr''])
      else (''qmgr'', [''qmgr'']))"

definition new_vec :: "string \<Rightarrow> string \<Rightarrow> bool \<Rightarrow> bool \<Rightarrow> 'c vec" where
  "new_vec n description obj nha =
     (case getVecDetails obj nha of (prefx, labels) \<Rightarrow>
        \<lparr>vec_Namespace = ''ibmmq'', vec_Name = prefx @ ''_'' @ n, vec_Help = description,
         vec_labels = labels, children = Map.empty\<rparr>)"

definition createCounterVec :: "string \<Rightarrow> string \<Rightarrow> bool \<Rightarrow> bool \<Rightarrow> 'v list vec" where
  "createCounterVec = new_vec"

definition createGaugeVec :: "string \<Rightarrow> string \<Rightarrow> bool \<Rightarrow> bool \<Rightarrow> 'v vec" where
  "createGaugeVec = new_vec"

text \<open>\<open>Describe\<close> and the name, help text and labels that it sends for each metric of the response.\<close>

type_synonym desc = "string \<times> string \<times> string list"

definition desc_of :: "'c vec \<Rightarrow> desc" where
  "desc_of v = (vec_Namespace v @ ''_'' @ vec_Name v, vec_Help v, vec_labels v)"

fun Describe :: "'v metrics \<Rightarrow> 'v exporter \<Rightarrow> desc list \<times> 'v exporter" where
  "Describe [] e = ([], e)"
| "Describe ((key, m) # response) e =
     (let (d, e1) =
        (if isDelta m
         then (let v = createCounterVec (md_name m) (md_description m) (objectType m) (nhaType m)
               in (desc_of v, e\<lparr>counterMap := (counterMap e)(key \<mapsto> v)\<rparr>))
         else (let v = createGaugeVec (md_name m) (md_description m) (objectType m) (nhaType m)
               in (desc_of v, e\<lparr>gaugeMap := (gaugeMap e)(key \<mapsto> v)\<rparr>)));
          (ds, e2) = Describe response e1
      in (d # ds, e2))"

text \<open>The label values under which the value for a label is exported.\<close>

abbreviation (input) qmgrLabelValue :: string where "qmgrLabelValue \<equiv> ''@self''"
abbreviation (input) nhaLabelValue :: string where "nhaLabelValue \<equiv> ''@NATIVEHA@''"

definition label_values :: "string \<Rightarrow> string \<Rightarrow> string list" where
  "label_values qm label =
     (if label = qmgrLabelValue then [qm]
      else if prefix nhaLabelValue label then [replace_all nhaLabelValue [] label, qm]
      else [label, qm])"

text \<open>
  The loops over the values of a metric. A panic, here of \<open>counter.Add\<close>, ends the program: the
  result is \<open>None\<close>.
\<close>

fun add_values ::
    "'v prometheus \<Rightarrow> string \<Rightarrow> (string \<times> 'v) list \<Rightarrow> 'v list vec \<Rightarrow> host \<Rightarrow> ('v list vec \<times> host) option" where
  "add_values pr qm [] v h = Some (v, h)"
| "add_values pr qm ((label, x) # vs) v h =
     (let ls = label_values qm label
      in (case label_error pr (vec_labels v) ls of
            Some e \<Rightarrow> add_values pr qm vs v (say ErrorL (''Metrics Error: '' @ e) h)
          | None \<Rightarrow>
              if decreases pr x then None
              else add_values pr qm vs
                     (v\<lparr>children := (children v)(ls \<mapsto> (case children v ls of None \<Rightarrow> [] | Some xs \<Rightarrow> xs) @ [x])\<rparr>) h))"

fun gauge_values ::
    "'v prometheus \<Rightarrow> string \<Rightarrow> (string \<times> 'v) list \<Rightarrow> 'v vec \<Rightarrow> host \<Rightarrow> 'v vec \<times> host" where
  "gauge_values pr qm [] v h = (v, h)"
| "gauge_values pr qm ((label, x) # vs) v h =
     (let ls = label_values qm label
      in (case label_error pr (vec_labels v) ls of
            Some e \<Rightarrow> gauge_values pr qm vs v (say ErrorL (''Metrics Error: '' @ e) h)
          | None \<Rightarrow> gauge_values pr qm vs (v\<lparr>children := (children v)(ls \<mapsto> x)\<rparr>) h))"

text \<open>
  \<open>Collect\<close>. A metric without a counter or gauge in the maps makes the code dereference a nil pointer, a
  panic. What is sent for a metric is the counter or gauge as it is then.
\<close>

datatype 'v sample = CounterSample "'v list vec" | GaugeSample "'v vec"

definition collect_metric ::
    "'v prometheus \<Rightarrow> string \<Rightarrow> 'v metricData \<Rightarrow> 'v exporter \<Rightarrow> host \<Rightarrow> ('v sample \<times> 'v exporter \<times> host) option" where
  "collect_metric pr key m e h =
     (if isDelta m then
        (case counterMap e key of
           None \<Rightarrow> None
         | Some v \<Rightarrow>
             (case (if firstCollect e then Some (v, h) else add_values pr (qmName e) (md_values m) v h) of
                None \<Rightarrow> None
              | Some (v1, h1) \<Rightarrow>
                  Some (CounterSample v1, e\<lparr>counterMap := (counterMap e)(key \<mapsto> v1)\<rparr>, h1)))
      else
        (case gaugeMap e key of
           None \<Rightarrow> None
         | Some v \<Rightarrow>
             (let v0 = v\<lparr>children := Map.empty\<rparr>;
                  (v1, h1) = (if firstCollect e then (v0, h) else gauge_values pr (qmName e) (md_values m) v0 h)
              in Some (GaugeSample v1, e\<lparr>gaugeMap := (gaugeMap e)(key \<mapsto> v1)\<rparr>, h1))))"

fun collect_all ::
    "'v prometheus \<Rightarrow> 'v metrics \<Rightarrow> 'v exporter \<Rightarrow> host \<Rightarrow> ('v sample list \<times> 'v exporter \<times> host) option" where
  "collect_all pr [] e h = Some ([], e, h)"
| "collect_all pr ((key, m) # response) e h =
     (case collect_metric pr key m e h of
        None \<Rightarrow> None
      | Some (x, e1, h1) \<Rightarrow>
          (case collect_all pr response e1 h1 of
             None \<Rightarrow> None
           | Some (xs, e2, h2) \<Rightarrow> Some (x # xs, e2, h2)))"

definition Collect ::
    "'v prometheus \<Rightarrow> 'v metrics \<Rightarrow> 'v exporter \<Rightarrow> host \<Rightarrow> ('v sample list \<times> 'v exporter \<times> host) option" where
  "Collect pr response e h =
     (case collect_all pr response e h of
        None \<Rightarrow> None
      | Some (xs, e1, h1) \<Rightarrow> Some (xs, e1\<lparr>firstCollect := False\<rparr>, h1))"

section \<open>The metrics that are kept\<close>

text \<open>The elements that the loops go through, with their keys.\<close>

definition wanted_elements :: "MonClass list \<Rightarrow> (bool \<times> string \<times> MonElement) list" where
  "wanted_elements classes =
     concat (map (\<lambda>c. concat (map (\<lambda>t.
       if wanted_type c t
       then map (\<lambda>e. (is_nha c, makeKey (class_Name c) (type_Name t) (Description e), e)) (Elements t)
       else []) (Types c))) classes)"

lemma foldl_concat_map: "foldl (\<lambda>st c. foldl f st (g c)) st cs = foldl f st (concat (map g cs))"
  by (induction cs arbitrary: st) simp_all

lemma foldl_if: "(if P then foldl f st xs else st) = foldl f st (if P then xs else [])"
  by simp

lemma foldl_map: "foldl f st (map g xs) = foldl (\<lambda>st x. f st (g x)) st xs"
  by (induction xs arbitrary: st) simp_all

definition init_elements ::
    "(bool \<times> string \<times> MonElement) list \<Rightarrow> 'v metrics \<times> bool \<times> host \<Rightarrow> 'v metrics \<times> bool \<times> host" where
  "init_elements ws st = foldl (\<lambda>st w. init_element (fst w) (fst (snd w)) (snd (snd w)) st) st ws"

lemma initialise_flat:
  "initialiseMetrics classes h =
     (case init_elements (wanted_elements classes) ([], True, h) of
        (ms, valid, h1) \<Rightarrow> ((ms, if valid then None else Some ''Invalid metrics data''), h1))"
proof -
  have t: "(if wanted_type c t
        then foldl (\<lambda>st e. init_element (is_nha c) (makeKey (class_Name c) (type_Name t) (Description e)) e st)
               st (Elements t)
        else st)
      = foldl (\<lambda>st w. init_element (fst w) (fst (snd w)) (snd (snd w)) st) st
          (if wanted_type c t
           then map (\<lambda>e. (is_nha c, makeKey (class_Name c) (type_Name t) (Description e), e)) (Elements t)
           else [])" for c t and st :: "'v metrics \<times> bool \<times> host"
    by (simp add: foldl_map)
  show ?thesis
    by (simp only: initialiseMetrics_def t foldl_concat_map wanted_elements_def init_elements_def)
qed

definition table_enabled :: "string \<Rightarrow> bool" where
  "table_enabled key \<longleftrightarrow> (case map_of generateMetricNamesMap key of None \<Rightarrow> False | Some l \<Rightarrow> enabled l)"

text \<open>What holds of the map while it is built from a list of elements.\<close>

definition described :: "(bool \<times> string \<times> MonElement) list \<Rightarrow> string \<times> 'v metricData \<Rightarrow> bool" where
  "described ws km \<longleftrightarrow>
     (\<exists>nha e l. (nha, fst km, e) \<in> set ws \<and> map_of generateMetricNamesMap (fst km) = Some l \<and> enabled l
        \<and> snd km = \<lparr>md_name = lookup_name l, md_description = Description e, objectType = False,
                    nhaType = nha, md_values = [], isDelta = (Datatype e = MQIAMO_MONITOR_DELTA)\<rparr>)"

definition enabled_keys :: "(bool \<times> string \<times> MonElement) list \<Rightarrow> string list" where
  "enabled_keys ws = filter table_enabled (map (\<lambda>w. fst (snd w)) ws)"

lemma enabled_keys_append [simp]: "enabled_keys (us @ ws) = enabled_keys us @ enabled_keys ws"
  by (simp add: enabled_keys_def)

definition init_inv ::
    "(bool \<times> string \<times> MonElement) list \<Rightarrow> 'v metrics \<times> bool \<times> host \<Rightarrow> bool" where
  "init_inv ws st \<longleftrightarrow>
     (case st of (ms, valid, h) \<Rightarrow>
        distinct (map fst ms) \<and> set (map fst ms) = set (enabled_keys ws)
        \<and> list_all (described ws) ms
        \<and> valid = (distinct (enabled_keys ws)
                   \<and> list_all (\<lambda>w. map_of generateMetricNamesMap (fst (snd w)) \<noteq> None) ws))"

lemma described_mono: "described us km \<Longrightarrow> described (us @ ws) km"
  by (auto simp: described_def)

lemma init_inv_step:
  assumes "init_inv ws st"
  shows "init_inv (ws @ [w]) (init_element (fst w) (fst (snd w)) (snd (snd w)) st)"
proof -
  obtain ms valid h where st: "st = (ms, valid, h)" by (cases st)
  obtain nha key e where w: "w = (nha, key, e)" by (cases w)
  have mem: "map_of ms key = None \<longleftrightarrow> key \<notin> set (map fst ms)"
    by (simp add: map_of_eq_None_iff)
  have old: "list_all (described (ws @ [w])) ms" if "list_all (described ws) ms"
    using that by (auto simp: list_all_iff intro: described_mono)
  show ?thesis
  proof (cases "map_of generateMetricNamesMap key")
    case None
    then show ?thesis using assms old
      by (auto simp: init_inv_def init_element_def st w enabled_keys_def table_enabled_def)
  next
    case (Some l)
    show ?thesis
    proof (cases "enabled l \<and> map_of ms key = None")
      case True
      then have "described (ws @ [w]) (key, \<lparr>md_name = lookup_name l, md_description = Description e,
            objectType = False, nhaType = nha, md_values = [], isDelta = (Datatype e = MQIAMO_MONITOR_DELTA)\<rparr>)"
        using Some by (auto simp: described_def w)
      then show ?thesis using True Some assms old mem
        by (auto simp: init_inv_def init_element_def st w enabled_keys_def table_enabled_def)
    next
      case False
      then show ?thesis using Some assms old mem
        by (auto simp: init_inv_def init_element_def st w enabled_keys_def table_enabled_def)
    qed
  qed
qed

lemma init_elements_inv: "init_inv ws (init_elements ws ([], True, h))"
proof (induction ws rule: rev_induct)
  case Nil
  show ?case by (simp add: init_inv_def init_elements_def enabled_keys_def)
next
  case (snoc w ws)
  then show ?case using init_inv_step [of ws _ w] by (simp add: init_elements_def)
qed

text \<open>
  The metrics that are kept are those of the elements whose key the table enables, each once;
  the metrics are valid if and only if every wanted element has a key in the table and no enabled key
  appears twice. Each gets its name from the table, and is a counter exactly if it is published as deltas.
\<close>

theorem initialise_keeps_enabled:
  "case (initialiseMetrics classes h :: ('v metrics \<times> string option) \<times> host) of
     ((ms, err), h') \<Rightarrow>
       distinct (map fst ms) \<and> set (map fst ms) = set (enabled_keys (wanted_elements classes))
       \<and> list_all (described (wanted_elements classes)) ms
       \<and> (err = None) = (distinct (enabled_keys (wanted_elements classes))
            \<and> list_all (\<lambda>w. map_of generateMetricNamesMap (fst (snd w)) \<noteq> None) (wanted_elements classes))"
proof -
  obtain ms :: "'v metrics" and valid h1
    where i: "init_elements (wanted_elements classes) ([], True, h) = (ms, valid, h1)" by (rule prod_cases3)
  then have "init_inv (wanted_elements classes) (ms, valid, h1)"
    using init_elements_inv [of "wanted_elements classes" h] by metis
  then show ?thesis by (simp add: initialise_flat i init_inv_def)
qed

definition full_name :: "'v metricData \<Rightarrow> string" where
  "full_name m = ''ibmmq_'' @ fst (getVecDetails (objectType m) (nhaType m)) @ ''_'' @ md_name m"

lemma Describe_names: "map fst (fst (Describe ms e)) = map (\<lambda>km. full_name (snd km)) ms"
  by (induction ms e rule: Describe.induct)
    (auto simp: desc_of_def createCounterVec_def createGaugeVec_def new_vec_def full_name_def
      split: prod.splits if_splits)

lemma full_names_distinct:
  assumes "distinct (map fst ms)" "list_all (described ws) ms"
  shows "distinct (map (\<lambda>km. full_name (snd km)) ms)"
proof -
  have "km = km'" if two: "km \<in> set ms" "km' \<in> set ms" "full_name (snd km) = full_name (snd km')" for km km'
  proof -
    have "described ws km" "described ws km'" using assms(2) two by (simp_all add: list_all_iff)
    then obtain l l' where l: "map_of generateMetricNamesMap (fst km) = Some l" "md_name (snd km) = lookup_name l"
        "\<not> objectType (snd km)" "map_of generateMetricNamesMap (fst km') = Some l'"
        "md_name (snd km') = lookup_name l'" "\<not> objectType (snd km')"
      by (fastforce simp: described_def)
    then have "lookup_name l = lookup_name l'"
      using two by (auto simp: full_name_def getVecDetails_def split: if_splits)
    then have "fst km = fst km'" using l names_from_table by blast
    then show ?thesis using assms(1) two by (auto simp: distinct_map dest: inj_onD)
  qed
  then show ?thesis using assms(1) by (auto simp: distinct_map inj_on_def)
qed

lemma names_described_once:
  fixes e :: "'v exporter"
  shows "distinct (map fst (fst (Describe (fst (fst (initialiseMetrics classes h))) e)))"
proof -
  obtain ms :: "'v metrics" and err h' where i: "initialiseMetrics classes h = ((ms, err), h')"
    by (metis prod.exhaust)
  have "distinct (map fst ms) \<and> list_all (described (wanted_elements classes)) ms"
    using initialise_keeps_enabled [where 'v = 'v, of classes h] by (simp add: i)
  then show ?thesis using full_names_distinct by (simp add: i Describe_names) blast
qed

text \<open>
  C25. No two metrics that are kept are described by the same name, whatever the queue manager
  publishes, so the registration of the exporter meets no duplicate.
\<close>

theorem metric_names_unique:
  fixes e :: "'v exporter"
  shows "distinct (map fst (fst (Describe (fst (fst (initialiseMetrics classes h))) e)))"
  by (rule names_described_once)

section \<open>Taking over what was published\<close>

definition reset_class :: "MonClass \<Rightarrow> MonClass" where
  "reset_class c =
     c\<lparr>Types := map (\<lambda>t. if wanted_type c t then t\<lparr>Elements := map (\<lambda>e. e\<lparr>Values := []\<rparr>) (Elements t)\<rparr> else t) (Types c)\<rparr>"

definition keyed :: "MonClass list \<Rightarrow> (string \<times> MonElement) list" where
  "keyed cs = map snd (wanted_elements cs)"

definition set_all :: "'v normaliser \<Rightarrow> (string \<times> MonElement) list \<Rightarrow> 'v metrics \<Rightarrow> 'v metrics" where
  "set_all N ws ms = foldl (\<lambda>ms w. set_values (fst w) (normalised N (snd w)) ms) ms ws"

lemma set_all_append [simp]: "set_all N (us @ ws) ms = set_all N ws (set_all N us ms)"
  by (simp add: set_all_def)

lemma set_all_Nil [simp]: "set_all N [] ms = ms"
  by (simp add: set_all_def)

lemma keyed_simps [simp]:
  "keyed [] = []"
  "keyed (c # cs) =
     concat (map (\<lambda>t. if wanted_type c t
                      then map (\<lambda>e. (makeKey (class_Name c) (type_Name t) (Description e), e)) (Elements t)
                      else []) (Types c)) @ keyed cs"
  by (auto simp: keyed_def wanted_elements_def map_concat comp_def intro!: arg_cong [of _ _ concat])

lemma update_elements_flat:
  "update_elements N c t es ms =
     (map (\<lambda>e. e\<lparr>Values := []\<rparr>) es, set_all N (map (\<lambda>e. (makeKey c t (Description e), e)) es) ms)"
  by (induction N c t es ms rule: update_elements.induct) (simp_all add: set_all_def)

lemma update_types_flat:
  "update_types N c ts ms =
     (map (\<lambda>t. if wanted_type c t then t\<lparr>Elements := map (\<lambda>e. e\<lparr>Values := []\<rparr>) (Elements t)\<rparr> else t) ts,
      set_all N (concat (map (\<lambda>t. if wanted_type c t
                      then map (\<lambda>e. (makeKey (class_Name c) (type_Name t) (Description e), e)) (Elements t)
                      else []) ts)) ms)"
  by (induction ts arbitrary: ms) (simp_all add: update_elements_flat)

lemma updateMetrics_flat: "updateMetrics N cs ms = (map reset_class cs, set_all N (keyed cs) ms)"
  by (induction cs arbitrary: ms) (simp_all add: update_types_flat reset_class_def)

definition taken_over ::
    "'v normaliser \<Rightarrow> (string \<times> MonElement) list \<Rightarrow> string \<times> 'v metricData \<Rightarrow> string \<times> 'v metricData" where
  "taken_over N ws = (\<lambda>(k, m). (k, case map_of (rev ws) k of None \<Rightarrow> m
                                   | Some e \<Rightarrow> m\<lparr>md_values := normalised N e\<rparr>))"

lemma set_all_map: "set_all N ws ms = map (taken_over N ws) ms"
proof (induction ws rule: rev_induct)
  case Nil
  show ?case by (auto simp: set_all_def taken_over_def intro!: map_idI [symmetric])
next
  case (snoc w ws)
  have "set_all N (ws @ [w]) ms = set_values (fst w) (normalised N (snd w)) (map (taken_over N ws) ms)"
    using snoc by (simp add: set_all_def)
  also have "\<dots> = map (taken_over N (ws @ [w])) ms"
    by (cases w) (auto simp: set_values_def taken_over_def split: option.splits)
  finally show ?case .
qed

text \<open>
  An update gives every metric whose key is published exactly the normalised values of its element
  (of the last one, were there several), leaves the others alone, and empties the values of every wanted
  element, so that no published value is taken over twice.
\<close>

theorem update_takes_over_once:
  "updateMetrics N cs ms = (map reset_class cs, map (taken_over N (keyed cs)) ms)
   \<and> list_all (\<lambda>(k, e). Values e = []) (keyed (map reset_class cs))
   \<and> map fst (keyed (map reset_class cs)) = map fst (keyed cs)"
proof -
  have "list_all (\<lambda>(k, e). Values e = []) (keyed (map reset_class cs))"
    by (induction cs) (auto simp: list_all_iff reset_class_def wanted_type_def is_nha_def split: if_splits)
  moreover have "map fst (keyed (map reset_class cs)) = map fst (keyed cs)"
    by (induction cs)
      (auto simp: reset_class_def wanted_type_def is_nha_def map_concat comp_def intro!: arg_cong [of _ _ concat])
  ultimately show ?thesis by (simp add: updateMetrics_flat set_all_map)
qed

section \<open>What the exporter shows\<close>

definition child_list :: "'v list vec \<Rightarrow> string list \<Rightarrow> 'v list" where
  "child_list v L = (case children v L of None \<Rightarrow> [] | Some xs \<Rightarrow> xs)"

definition added :: "'v exporter \<Rightarrow> string \<Rightarrow> string list \<Rightarrow> 'v list" where
  "added e K L = (case counterMap e K of None \<Rightarrow> [] | Some v \<Rightarrow> child_list v L)"

text \<open>The values that are exported under given label values, of those of a metric and of a response.\<close>

definition shown :: "'v prometheus \<Rightarrow> string \<Rightarrow> string list \<Rightarrow> (string \<times> 'v) list \<Rightarrow> (string list \<times> 'v) list" where
  "shown pr qm labels vs =
     map (\<lambda>(l, x). (label_values qm l, x))
       (filter (\<lambda>(l, x). label_error pr labels (label_values qm l) = None) vs)"

definition deltas :: "'v prometheus \<Rightarrow> string \<Rightarrow> string list \<Rightarrow> string list \<Rightarrow> (string \<times> 'v) list \<Rightarrow> 'v list" where
  "deltas pr qm labels L vs = map snd (filter (\<lambda>(L', x). L' = L) (shown pr qm labels vs))"

definition response_deltas ::
    "'v prometheus \<Rightarrow> string \<Rightarrow> string list \<Rightarrow> string \<Rightarrow> string list \<Rightarrow> 'v metrics \<Rightarrow> 'v list" where
  "response_deltas pr qm labels K L response =
     concat (map (\<lambda>(k, m). if k = K \<and> isDelta m then deltas pr qm labels L (md_values m) else []) response)"

lemma shown_simps [simp]:
  "shown pr qm labels [] = []"
  "shown pr qm labels ((l, x) # vs) =
     (if label_error pr labels (label_values qm l) = None then [(label_values qm l, x)] else [])
     @ shown pr qm labels vs"
  by (simp_all add: shown_def)

lemma deltas_simps [simp]:
  "deltas pr qm labels L [] = []"
  "deltas pr qm labels L ((l, x) # vs) =
     (if label_error pr labels (label_values qm l) = None \<and> label_values qm l = L then [x] else [])
     @ deltas pr qm labels L vs"
  by (auto simp: deltas_def)

lemma child_list_update [simp]:
  "child_list (v\<lparr>children := (children v)(L' \<mapsto> xs)\<rparr>) L = (if L = L' then xs else child_list v L)"
  by (simp add: child_list_def)

lemma add_values_result:
  "add_values pr qm vs v h = Some (v', h') \<Longrightarrow>
   vec_labels v' = vec_labels v \<and> child_list v' L = child_list v L @ deltas pr qm (vec_labels v) L vs"
proof (induction vs arbitrary: v h)
  case (Cons lx vs)
  obtain l x where lx: "lx = (l, x)" by (cases lx)
  show ?case
  proof (cases "label_error pr (vec_labels v) (label_values qm l)")
    case None
    let ?v = "v\<lparr>children := (children v)(label_values qm l \<mapsto> child_list v (label_values qm l) @ [x])\<rparr>"
    have "add_values pr qm vs ?v h = Some (v', h')"
      using Cons.prems None by (simp add: lx Let_def child_list_def split: if_splits)
    from Cons.IH [OF this] show ?thesis using None by (simp add: lx)
  next
    case (Some e)
    then show ?thesis using Cons.prems Cons.IH by (simp add: lx Let_def)
  qed
qed simp

lemma add_values_panics:
  "add_values pr qm vs v h = None \<longleftrightarrow> list_ex (\<lambda>(L, x). decreases pr x) (shown pr qm (vec_labels v) vs)"
  by (induction pr qm vs v h rule: add_values.induct) (auto simp: Let_def split: option.splits)

lemma gauge_values_result:
  "fst (gauge_values pr qm vs v h) = v\<lparr>children := children v ++ map_of (rev (shown pr qm (vec_labels v) vs))\<rparr>"
  by (induction pr qm vs v h rule: gauge_values.induct)
    (auto simp: Let_def map_add_def fun_eq_iff split: option.splits)

text \<open>The two ways in which a metric is collected.\<close>

lemma collect_metric_cases:
  assumes "collect_metric pr key m e h = Some (x, e', h')"
  obtains (counter) v v1 where "isDelta m" "counterMap e key = Some v" "vec_labels v1 = vec_labels v"
      "\<And>L. child_list v1 L = child_list v L
         @ (if firstCollect e then [] else deltas pr (qmName e) (vec_labels v) L (md_values m))"
      "x = CounterSample v1" "e' = e\<lparr>counterMap := (counterMap e)(key \<mapsto> v1)\<rparr>"
  | (gauge) v v1 where "\<not> isDelta m" "gaugeMap e key = Some v"
      "v1 = v\<lparr>children := if firstCollect e then Map.empty
                        else map_of (rev (shown pr (qmName e) (vec_labels v) (md_values m)))\<rparr>"
      "x = GaugeSample v1" "e' = e\<lparr>gaugeMap := (gaugeMap e)(key \<mapsto> v1)\<rparr>"
proof (cases "isDelta m")
  case True
  then obtain v v1 h1 where v: "counterMap e key = Some v" "x = CounterSample v1"
      "e' = e\<lparr>counterMap := (counterMap e)(key \<mapsto> v1)\<rparr>"
      "(if firstCollect e then Some (v, h) else add_values pr (qmName e) (md_values m) v h) = Some (v1, h1)"
    using assms by (fastforce simp: collect_metric_def split: option.splits)
  have "vec_labels v1 = vec_labels v \<and> child_list v1 L = child_list v L
      @ (if firstCollect e then [] else deltas pr (qmName e) (vec_labels v) L (md_values m))" for L
    using v(4) add_values_result by (cases "firstCollect e") (simp, force)
  then show ?thesis using counter True v(1-3) by blast
next
  case False
  then obtain v where v: "gaugeMap e key = Some v" using assms by (auto simp: collect_metric_def split: option.splits)
  let ?v1 = "v\<lparr>children := if firstCollect e then Map.empty
                         else map_of (rev (shown pr (qmName e) (vec_labels v) (md_values m)))\<rparr>"
  have "x = GaugeSample ?v1" "e' = e\<lparr>gaugeMap := (gaugeMap e)(key \<mapsto> ?v1)\<rparr>"
    using assms False v gauge_values_result [of pr "qmName e" "md_values m" "v\<lparr>children := Map.empty\<rparr>" h]
    by (auto simp: collect_metric_def Let_def split: if_splits prod.splits)
  then show ?thesis using gauge False v by blast
qed

lemma collect_metric_frame:
  assumes "collect_metric pr key m e h = Some (x, e', h')"
  shows "qmName e' = qmName e" "firstCollect e' = firstCollect e"
    and "K \<noteq> key \<Longrightarrow> counterMap e' K = counterMap e K \<and> gaugeMap e' K = gaugeMap e K"
    and "map_option vec_labels (counterMap e' K) = map_option vec_labels (counterMap e K)"
    and "map_option vec_labels (gaugeMap e' K) = map_option vec_labels (gaugeMap e K)"
  by (rule collect_metric_cases [OF assms]; simp)+

lemma collect_metric_added:
  assumes "collect_metric pr key m e h = Some (x, e', h')" "counterMap e K = Some v"
  shows "added e' K L = added e K L
     @ (if firstCollect e then [] else response_deltas pr (qmName e) (vec_labels v) K L [(key, m)])"
  using assms(1)
proof (cases rule: collect_metric_cases)
  case (counter w w1)
  then show ?thesis using assms(2) by (auto simp: added_def response_deltas_def)
next
  case (gauge w w1)
  then show ?thesis by (simp add: added_def response_deltas_def)
qed

lemma collect_all_Cons:
  assumes "collect_all pr ((key, m) # r) e h = Some (xs, e', h')"
  obtains x e1 h1 xs1 where "collect_metric pr key m e h = Some (x, e1, h1)"
    "collect_all pr r e1 h1 = Some (xs1, e', h')" "xs = x # xs1"
  using assms by (auto split: option.splits)

lemma collect_all_frame:
  assumes "collect_all pr r e h = Some (xs, e', h')"
  shows "qmName e' = qmName e \<and> firstCollect e' = firstCollect e
    \<and> map_option vec_labels (counterMap e' K) = map_option vec_labels (counterMap e K)
    \<and> map_option vec_labels (gaugeMap e' K) = map_option vec_labels (gaugeMap e K)"
  using assms
proof (induction r arbitrary: e h xs)
  case (Cons km r)
  obtain x e1 h1 xs1 where s: "collect_metric pr (fst km) (snd km) e h = Some (x, e1, h1)"
      "collect_all pr r e1 h1 = Some (xs1, e', h')"
    using Cons.prems by (metis collect_all_Cons prod.collapse)
  show ?case using Cons.IH [OF s(2)] collect_metric_frame [OF s(1)] by simp
qed simp

lemma collect_all_added:
  assumes "collect_all pr r e h = Some (xs, e', h')" "counterMap e K = Some v"
  shows "added e' K L = added e K L
     @ (if firstCollect e then [] else response_deltas pr (qmName e) (vec_labels v) K L r)"
  using assms
proof (induction r arbitrary: e h xs v)
  case (Cons km r)
  obtain x e1 h1 xs1 where s: "collect_metric pr (fst km) (snd km) e h = Some (x, e1, h1)"
      "collect_all pr r e1 h1 = Some (xs1, e', h')"
    using Cons.prems(1) by (metis collect_all_Cons prod.collapse)
  obtain v1 where v1: "counterMap e1 K = Some v1" "vec_labels v1 = vec_labels v"
    using collect_metric_frame(4) [OF s(1), of K] Cons.prems(2) by auto
  show ?case
    using Cons.IH [OF s(2) v1(1)] collect_metric_added [OF s(1) Cons.prems(2), of L]
      collect_metric_frame(1,2) [OF s(1)] v1(2)
    by (auto simp: response_deltas_def)
qed (simp add: response_deltas_def)

section \<open>Scrapes\<close>

text \<open>
  A scrape by Prometheus: the queue manager has published something meanwhile (\<open>p\<close> changes the tree),
  \<open>processMetrics\<close> takes it over, and the exporter collects.
\<close>

fun scrapes ::
    "'v normaliser \<Rightarrow> 'v prometheus \<Rightarrow> (MonClass list \<Rightarrow> MonClass list) list \<Rightarrow> MonClass list \<Rightarrow> 'v metrics
     \<Rightarrow> 'v exporter \<Rightarrow> host \<Rightarrow> ('v exporter \<times> host) option" where
  "scrapes N pr [] cs ms e h = Some (e, h)"
| "scrapes N pr (p # ps) cs ms e h =
     (case updateMetrics N (p cs) ms of
        (cs1, ms1) \<Rightarrow>
          (case Collect pr ms1 e h of
             None \<Rightarrow> None
           | Some (xs, e1, h1) \<Rightarrow> scrapes N pr ps cs1 ms1 e1 h1))"

text \<open>The trees as they are when they are taken over: each starts from the emptied one before it.\<close>

fun published :: "(MonClass list \<Rightarrow> MonClass list) list \<Rightarrow> MonClass list \<Rightarrow> MonClass list list" where
  "published [] cs = []"
| "published (p # ps) cs = p cs # published ps (map reset_class (p cs))"

definition tree_deltas ::
    "'v normaliser \<Rightarrow> 'v prometheus \<Rightarrow> string \<Rightarrow> string list \<Rightarrow> string \<Rightarrow> string list \<Rightarrow> MonClass list \<Rightarrow> 'v list" where
  "tree_deltas N pr qm labels K L cs =
     (case map_of (rev (keyed cs)) K of None \<Rightarrow> [] | Some el \<Rightarrow> deltas pr qm labels L (normalised N el))"

lemma Collect_added:
  assumes "Collect pr r e h = Some (xs, e', h')" "counterMap e K = Some v"
  shows "added e' K L = added e K L
     @ (if firstCollect e then [] else response_deltas pr (qmName e) (vec_labels v) K L r)
     \<and> qmName e' = qmName e \<and> \<not> firstCollect e'
     \<and> (\<exists>v'. counterMap e' K = Some v' \<and> vec_labels v' = vec_labels v)"
proof -
  obtain e1 where e1: "collect_all pr r e h = Some (xs, e1, h')" "e' = e1\<lparr>firstCollect := False\<rparr>"
    using assms(1) by (auto simp: Collect_def split: option.splits)
  have "added e' K L = added e1 K L" by (simp add: e1(2) added_def)
  moreover have "map_option vec_labels (counterMap e1 K) = Some (vec_labels v)" "qmName e1 = qmName e"
    using collect_all_frame [OF e1(1), of K] assms(2) by simp_all
  ultimately show ?thesis using collect_all_added [OF e1(1) assms(2), of L] by (auto simp: e1(2))
qed

lemma response_deltas_single:
  assumes "distinct (map fst ms)" "(K, m) \<in> set ms" "isDelta m"
  shows "response_deltas pr qm labels K L ms = deltas pr qm labels L (md_values m)"
  using assms
proof (induction ms)
  case (Cons km ms)
  have none: "response_deltas pr qm labels K L ms = []" if "K \<notin> fst ` set ms"
    using that by (induction ms) (auto simp: response_deltas_def)
  show ?case
  proof (cases "km = (K, m)")
    case True
    then show ?thesis using none Cons.prems by (simp add: response_deltas_def)
  next
    case False
    then have "(K, m) \<in> set ms" using Cons.prems(2) by auto
    moreover from this have "K \<in> fst ` set ms" by force
    then have "fst km \<noteq> K" using Cons.prems(1) by auto
    ultimately show ?thesis using Cons by (cases km) (auto simp: response_deltas_def)
  qed
qed simp

lemma taken_over_keys [simp]: "map fst (map (taken_over N ws) ms) = map fst ms"
  by (auto simp: taken_over_def)

text \<open>
  C24. Over any sequence of scrapes, what is added to the counter of a delta metric for some label values is
  exactly what was published for its element under them, every scrape once and in order; only the first
  scrape of the exporter is left out.
\<close>

theorem published_deltas_counted_once:
  assumes "scrapes N pr ps cs ms e h = Some (e', h')" "distinct (map fst ms)"
    and "(K, m) \<in> set ms" "isDelta m" "counterMap e K = Some v"
    and "list_all (\<lambda>cs. K \<in> fst ` set (keyed cs)) (published ps cs)"
  shows "added e' K L = added e K L
     @ concat (map (tree_deltas N pr (qmName e) (vec_labels v) K L)
                (if firstCollect e then tl (published ps cs) else published ps cs))"
  using assms
proof (induction ps arbitrary: cs ms e h v m)
  case (Cons p ps)
  let ?cs = "p cs" and ?ms = "map (taken_over N (keyed (p cs))) ms"
  have up: "updateMetrics N ?cs ms = (map reset_class ?cs, ?ms)" using update_takes_over_once by blast
  obtain xs e1 h1 where c: "Collect pr ?ms e h = Some (xs, e1, h1)"
      "scrapes N pr ps (map reset_class ?cs) ?ms e1 h1 = Some (e', h')"
    using Cons.prems(1) up by (auto split: option.splits)
  obtain el where el: "map_of (rev (keyed ?cs)) K = Some el"
    using Cons.prems(6) by (cases "map_of (rev (keyed ?cs)) K") (auto simp: map_of_eq_None_iff)
  let ?m = "m\<lparr>md_values := normalised N el\<rparr>"
  have m: "(K, ?m) \<in> set ?ms" "isDelta ?m" "distinct (map fst ?ms)"
    using Cons.prems(2-4) el by (force simp: taken_over_def, simp, simp only: taken_over_keys)
  note a = Collect_added [OF c(1) Cons.prems(5), of L]
  then obtain v1 where v1: "counterMap e1 K = Some v1" "vec_labels v1 = vec_labels v" by blast
  have "added e' K L = added e1 K L
     @ concat (map (tree_deltas N pr (qmName e1) (vec_labels v1) K L) (published ps (map reset_class ?cs)))"
    using Cons.IH [OF c(2) m(3,1,2) v1(1)] Cons.prems(6) a by simp
  moreover have "tree_deltas N pr (qmName e) (vec_labels v) K L ?cs
      = response_deltas pr (qmName e) (vec_labels v) K L ?ms"
    using response_deltas_single [OF m(3,1,2)] by (simp add: tree_deltas_def el)
  ultimately show ?case using a v1(2) by simp
qed simp

text \<open>
  From the second scrape on, the gauge of a metric shows the values of the last response alone: what was
  shown before is gone, and of values with the same label values the last one is shown.
\<close>

theorem gauge_shows_last:
  assumes "Collect pr r e h = Some (xs, e', h')" "\<not> firstCollect e" "distinct (map fst r)"
    and "(K, m) \<in> set r" "\<not> isDelta m" "gaugeMap e K = Some v"
  shows "\<exists>v'. gaugeMap e' K = Some v' \<and> GaugeSample v' \<in> set xs
     \<and> children v' = map_of (rev (shown pr (qmName e) (vec_labels v) (md_values m)))"
proof -
  obtain e1 where e1: "collect_all pr r e h = Some (xs, e1, h')" "e' = e1\<lparr>firstCollect := False\<rparr>"
    using assms(1) by (auto simp: Collect_def split: option.splits)
  have "\<exists>v'. gaugeMap e1 K = Some v' \<and> GaugeSample v' \<in> set xs
     \<and> children v' = map_of (rev (shown pr (qmName e) (vec_labels v) (md_values m)))"
    using e1(1) assms(2-6)
  proof (induction r arbitrary: e h xs v)
    case (Cons km r)
    obtain x ea ha xsa where s: "collect_metric pr (fst km) (snd km) e h = Some (x, ea, ha)"
        "collect_all pr r ea ha = Some (xsa, e1, h')" "xs = x # xsa"
      using Cons.prems(1) by (metis collect_all_Cons prod.collapse)
    have keep: "gaugeMap e1 K = gaugeMap ea K" if "K \<notin> fst ` set r"
      using s(2) that
    proof (induction r arbitrary: ea ha xsa)
      case (Cons kn r)
      obtain y eb hb ys where t: "collect_metric pr (fst kn) (snd kn) ea ha = Some (y, eb, hb)"
          "collect_all pr r eb hb = Some (ys, e1, h')"
        using Cons.prems(1) by (metis collect_all_Cons prod.collapse)
      then show ?case using Cons.IH [OF t(2)] Cons.prems(2) collect_metric_frame(3) [OF t(1), of K] by auto
    qed simp
    show ?case
    proof (cases "km = (K, m)")
      case True
      then show ?thesis using s Cons.prems keep
        by (auto elim!: collect_metric_cases)
    next
      case False
      then have o: "(K, m) \<in> set r" using Cons.prems(4) by auto
      then have "K \<in> fst ` set r" by force
      moreover have "fst km \<notin> fst ` set r" using Cons.prems(3) by simp
      ultimately have "K \<noteq> fst km" by metis
      then have "gaugeMap ea K = Some v" using collect_metric_frame(3) [OF s(1)] Cons.prems(6) by simp
      then show ?thesis
        using Cons.IH [OF s(2) _ _ o Cons.prems(5)] Cons.prems(2,3) collect_metric_frame(1,2) [OF s(1)] s(3)
        by auto
    qed
  qed simp
  then show ?thesis by (simp add: e1(2))
qed

text \<open>
  A collection panics if and only if a metric of the response has no counter or gauge of its own in the
  exporter, or after the first collection a counter would have to go down.
\<close>

definition metric_panics :: "'v prometheus \<Rightarrow> 'v exporter \<Rightarrow> string \<times> 'v metricData \<Rightarrow> bool" where
  "metric_panics pr e km \<longleftrightarrow>
     (if isDelta (snd km) then
        (case counterMap e (fst km) of
           None \<Rightarrow> True
         | Some v \<Rightarrow> \<not> firstCollect e
             \<and> list_ex (\<lambda>(L, x). decreases pr x) (shown pr (qmName e) (vec_labels v) (md_values (snd km))))
      else gaugeMap e (fst km) = None)"

lemma collect_metric_panics: "collect_metric pr k m e h = None \<longleftrightarrow> metric_panics pr e (k, m)"
proof (cases "isDelta m")
  case True
  then show ?thesis
  proof (cases "counterMap e k")
    case (Some v)
    then show ?thesis using True add_values_panics [of pr "qmName e" "md_values m" v h]
      by (cases "add_values pr (qmName e) (md_values m) v h")
        (auto simp: collect_metric_def metric_panics_def)
  qed (simp add: collect_metric_def metric_panics_def)
next
  case False
  then show ?thesis
    by (auto simp: collect_metric_def metric_panics_def Let_def split: option.splits prod.splits)
qed

lemma metric_panics_cong:
  assumes "qmName e' = qmName e" "firstCollect e' = firstCollect e"
    and "map_option vec_labels (counterMap e' (fst km)) = map_option vec_labels (counterMap e (fst km))"
    and "map_option vec_labels (gaugeMap e' (fst km)) = map_option vec_labels (gaugeMap e (fst km))"
  shows "metric_panics pr e' km = metric_panics pr e km"
  using assms by (auto simp: metric_panics_def split: option.splits)

theorem collect_panics_iff: "Collect pr r e h = None \<longleftrightarrow> list_ex (metric_panics pr e) r"
proof -
  have "collect_all pr r e h = None \<longleftrightarrow> list_ex (metric_panics pr e) r"
  proof (induction r arbitrary: e h)
    case (Cons km r)
    show ?case
    proof (cases "collect_metric pr (fst km) (snd km) e h")
      case None
      then show ?thesis using collect_metric_panics [of pr "fst km" "snd km" e h] by (cases km) simp
    next
      case (Some s)
      obtain x e1 h1 where s: "s = (x, e1, h1)" by (cases s)
      have "\<not> metric_panics pr e km"
        using collect_metric_panics [of pr "fst km" "snd km" e h] Some by simp
      moreover have "metric_panics pr e1 = metric_panics pr e"
        using collect_metric_frame [OF Some [unfolded s]] by (intro ext metric_panics_cong) simp_all
      ultimately show ?thesis using Cons.IH [of e1 h1] Some by (cases km) (auto simp: s split: option.splits)
    qed
  qed simp
  then show ?thesis by (auto simp: Collect_def split: option.splits)
qed

lemma Describe_state:
  "snd (Describe ((key, m) # response) e) =
     snd (Describe response
       (if isDelta m
        then e\<lparr>counterMap := (counterMap e)(key \<mapsto>
               createCounterVec (md_name m) (md_description m) (objectType m) (nhaType m))\<rparr>
        else e\<lparr>gaugeMap := (gaugeMap e)(key \<mapsto>
               createGaugeVec (md_name m) (md_description m) (objectType m) (nhaType m))\<rparr>))"
  by (simp add: Let_def split: prod.splits)


section \<open>An example\<close>

definition toy_prometheus :: "int prometheus" where
  "toy_prometheus =
     \<lparr>label_error = (\<lambda>labels vs. if length labels = length vs then None else Some ''inconsistent label cardinality''),
      decreases = (\<lambda>x. x < 0)\<rparr>"

definition toy_tree :: "int \<Rightarrow> MonClass list" where
  "toy_tree n =
     [\<lparr>class_Name = ''C'',
       Types = [\<lparr>type_Name = ''T'', ObjectTopic = ''t'',
                 Elements = [\<lparr>Description = ''d'', Datatype = 2, Values = [(''@self'', n)]\<rparr>]\<rparr>]\<rparr>]"

definition toy_metric :: "bool \<Rightarrow> int metricData" where
  "toy_metric delta =
     \<lparr>md_name = ''n'', md_description = ''d'', objectType = False, nhaType = False, md_values = [(''@self'', 7)],
      isDelta = delta\<rparr>"

definition toy_exporter :: "bool \<Rightarrow> int exporter" where
  "toy_exporter delta = snd (Describe [(''C/T/d'', toy_metric delta)] (newExporter ''QM1''))"

definition toy_machine :: host where
  "toy_machine =
     \<lparr>env = Map.empty, files = Map.empty, faults = (\<lambda>_. None), clock = 0, hostname = None,
      exec = (\<lambda>_ _. \<lparr>cmd_out = [], cmd_rc = 0, cmd_err = None\<rparr>), cmds = [], logs = []\<rparr>"

lemma published_deltas_counted_once_witness:
  "\<exists>e' h'. scrapes (\<lambda>_ _ x. x) toy_prometheus [\<lambda>_. toy_tree 4, \<lambda>_. toy_tree 5, \<lambda>_. toy_tree 6] (toy_tree 0)
      [(''C/T/d'', toy_metric True)] (toy_exporter True) toy_machine = Some (e', h')
    \<and> added e' ''C/T/d'' [''QM1''] = [5, 6]"
proof -
  let ?r = "scrapes (\<lambda>_ _ x. x) toy_prometheus [\<lambda>_. toy_tree 4, \<lambda>_. toy_tree 5, \<lambda>_. toy_tree 6] (toy_tree 0)
      [(''C/T/d'', toy_metric True)] (toy_exporter True) toy_machine"
  let ?v = "createCounterVec ''n'' ''d'' False False :: int list vec"
  have "\<not> Option.is_none ?r" by code_simp
  then obtain e' h' where r: "?r = Some (e', h')" by (auto simp: Option.is_none_def)
  have c: "counterMap (toy_exporter True) ''C/T/d'' = Some ?v" "qmName (toy_exporter True) = ''QM1''"
      "added (toy_exporter True) ''C/T/d'' [''QM1''] = []" "firstCollect (toy_exporter True)"
    by (simp_all add: Let_def toy_exporter_def toy_metric_def newExporter_def added_def child_list_def
        createCounterVec_def new_vec_def getVecDetails_def)
  have p: "list_all (\<lambda>cs. ''C/T/d'' \<in> fst ` set (keyed cs))
      (published [\<lambda>_. toy_tree 4, \<lambda>_. toy_tree 5, \<lambda>_. toy_tree 6] (toy_tree 0))" by code_simp
  have d: "concat (map (tree_deltas (\<lambda>_ _ x. x) toy_prometheus ''QM1'' (vec_labels ?v) ''C/T/d'' [''QM1''])
      (tl (published [\<lambda>_. toy_tree 4, \<lambda>_. toy_tree 5, \<lambda>_. toy_tree 6] (toy_tree 0)))) = [5, 6]" by code_simp
  have "added e' ''C/T/d'' [''QM1''] = [5, 6]"
    using published_deltas_counted_once [OF r _ _ _ c(1) p, of "toy_metric True" "[''QM1'']"] d
    by (simp add: c toy_metric_def)
  then show ?thesis using r by blast
qed

lemma gauge_shows_last_witness:
  "\<exists>xs e' h'. Collect toy_prometheus [(''C/T/d'', toy_metric False)]
       ((toy_exporter False)\<lparr>firstCollect := False\<rparr>) toy_machine = Some (xs, e', h')
     \<and> (\<exists>v. GaugeSample v \<in> set xs \<and> children v [''QM1''] = Some 7)"
proof -
  let ?e = "(toy_exporter False)\<lparr>firstCollect := False\<rparr>"
  let ?r = "Collect toy_prometheus [(''C/T/d'', toy_metric False)] ?e toy_machine"
  have "\<not> Option.is_none ?r" by code_simp
  then obtain xs e' h' where r: "?r = Some (xs, e', h')" by (cases ?r) (auto simp: Option.is_none_def)
  have g: "gaugeMap ?e ''C/T/d'' = Some (createGaugeVec ''n'' ''d'' False False)"
    by (simp add: Let_def toy_exporter_def toy_metric_def newExporter_def)
  have "map_of (rev (shown toy_prometheus (qmName ?e) (vec_labels (createGaugeVec ''n'' ''d'' False False :: int vec))
      (md_values (toy_metric False)))) [''QM1''] = Some 7" by code_simp
  then show ?thesis using gauge_shows_last [OF r _ _ _ _ g, of "toy_metric False"] r
    by (fastforce simp: toy_metric_def)
qed


end
