(* ===== verification/Metrics_Loop.thy ===== *)
theory Metrics_Loop
  imports Metrics
begin

text \<open>
  The goroutine \<open>processMetrics\<close> of internal/metrics/update.go: it connects, then alternates between
  processing publications and waiting for a request, a stop or a timeout; after an error it closes the
  connection and waits before it tries again. What the library answers, what it discovers and publishes, and
  which case of a select is taken are arbitrary.
\<close>

section \<open>State and steps\<close>

datatype pm_pc = Connecting | Publishing | Waiting | Retrying | Returned

text \<open>
  \<open>startSignals\<close> counts what was sent on \<open>startChannel\<close>, \<open>responses\<close> holds what was sent on
  \<open>responseChannel\<close>, and \<open>stops\<close> is the number of stop requests in the buffer of \<open>stopChannel\<close>.
\<close>

record 'v processing =
  pm_at :: pm_pc
  firstConnect :: bool
  connected :: bool
  tree :: "MonClass list"
  current :: "'v metrics"
  startSignals :: nat
  responses :: "'v metrics list"
  stops :: nat
  machine :: host

definition doConnect :: "string \<Rightarrow> string option \<Rightarrow> string option \<Rightarrow> string option" where
  "doConnect qm initError discoverError =
     (case initError of
        Some e \<Rightarrow> Some (''Failed to connect to queue manager '' @ qm @ '': '' @ e)
      | None \<Rightarrow>
          (case discoverError of
             Some e \<Rightarrow> Some (''Failed to discover and subscribe to metrics: '' @ e)
           | None \<Rightarrow> None))"

definition processing_start :: "host \<Rightarrow> 'v processing" where
  "processing_start h =
     \<lparr>pm_at = Connecting, firstConnect = True, connected = False, tree = [], current = [], startSignals = 0,
      responses = [], stops = 0, machine = h\<rparr>"

text \<open>What follows a successful connection that discovered a tree of metrics.\<close>

definition on_connect :: "MonClass list \<Rightarrow> 'v processing \<Rightarrow> 'v processing" where
  "on_connect cs s =
     (case initialiseMetrics cs (machine s) of
        ((ms, err), h) \<Rightarrow>
          s\<lparr>pm_at := Publishing, connected := True, tree := cs, current := ms, machine := h,
            startSignals := (if firstConnect s then Suc (startSignals s) else startSignals s),
            firstConnect := False\<rparr>)"

definition on_error :: "string \<Rightarrow> 'v processing \<Rightarrow> 'v processing" where
  "on_error e s =
     s\<lparr>pm_at := Retrying, connected := False, machine := say ErrorL (''Metrics Error: '' @ e) (machine s)\<rparr>"

definition on_request :: "'v normaliser \<Rightarrow> bool \<Rightarrow> 'v processing \<Rightarrow> 'v processing" where
  "on_request N collect s =
     (case (if collect then updateMetrics N (tree s) (current s) else (tree s, current s)) of
        (cs, ms) \<Rightarrow> s\<lparr>pm_at := Publishing, tree := cs, current := ms, responses := responses s @ [ms]\<rparr>)"

definition on_stop :: "'v processing \<Rightarrow> 'v processing" where
  "on_stop s =
     s\<lparr>pm_at := Returned, connected := False, stops := stops s - 1,
       machine := say InfoL ''Stopping metrics gathering'' (machine s)\<rparr>"

inductive pm_step :: "'v normaliser \<Rightarrow> string \<Rightarrow> 'v processing \<Rightarrow> 'v processing \<Rightarrow> bool"
  for N :: "'v normaliser" and qm :: string where
  connects: "pm_at s = Connecting \<Longrightarrow> doConnect qm None None = None \<Longrightarrow> pm_step N qm s (on_connect cs s)"
| connect_fails: "pm_at s = Connecting \<Longrightarrow> doConnect qm i d = Some e \<Longrightarrow> pm_step N qm s (on_error e s)"
| publishes: "pm_at s = Publishing \<Longrightarrow> map fst (keyed cs) = map fst (keyed (tree s)) \<Longrightarrow>
    pm_step N qm s (s\<lparr>pm_at := Waiting, tree := cs\<rparr>)"
| publication_fails: "pm_at s = Publishing \<Longrightarrow> pm_step N qm s (on_error e s)"
| request: "pm_at s = Waiting \<Longrightarrow> pm_step N qm s (on_request N collect s)"
| timeout: "pm_at s = Waiting \<Longrightarrow> pm_step N qm s (s\<lparr>pm_at := Publishing, machine :=
    say DebugL ''Metrics: No requests received within timeout period (10 seconds)'' (machine s)\<rparr>)"
| stop_taken: "pm_at s = Waiting \<or> pm_at s = Retrying \<Longrightarrow> 0 < stops s \<Longrightarrow> pm_step N qm s (on_stop s)"
| retries: "pm_at s = Retrying \<Longrightarrow>
    pm_step N qm s (s\<lparr>pm_at := Connecting, machine := say InfoL ''Retrying metrics gathering'' (machine s)\<rparr>)"
| stop_sent: "stops s < 2 \<Longrightarrow> pm_step N qm s (s\<lparr>stops := Suc (stops s)\<rparr>)"

lemmas pm_ops = on_connect_def on_error_def on_request_def on_stop_def

section \<open>The invariant\<close>

definition pm_inv :: "'v processing \<Rightarrow> bool" where
  "pm_inv s \<longleftrightarrow>
     startSignals s = (if firstConnect s then 0 else 1)
     \<and> (firstConnect s \<longrightarrow> responses s = [] \<and> pm_at s \<notin> {Publishing, Waiting})
     \<and> connected s = (pm_at s \<in> {Publishing, Waiting})
     \<and> stops s \<le> 2
     \<and> distinct (map (\<lambda>km. full_name (snd km)) (current s))
     \<and> list_all (\<lambda>ms. distinct (map (\<lambda>km. full_name (snd km)) ms)) (responses s)"

lemma pm_inv_start: "pm_inv (processing_start h)"
  by (simp add: pm_inv_def processing_start_def)

lemma initialise_names: "distinct (map (\<lambda>km. full_name (snd km)) (fst (fst (initialiseMetrics cs h :: ('v metrics \<times> string option) \<times> host))))"
  using names_described_once [of cs h "newExporter [] :: 'v exporter"] by (simp add: Describe_names)

lemma full_name_taken_over [simp]: "full_name (snd (taken_over N ws km)) = full_name (snd km)"
  by (cases km) (simp add: taken_over_def full_name_def split: option.splits)

lemma pm_inv_step:
  fixes s :: "'v processing"
  shows "pm_step N qm s s' \<Longrightarrow> pm_inv s \<Longrightarrow> pm_inv s'"
proof (induction rule: pm_step.induct)
  case (connects s cs)
  obtain ms :: "'v metrics" and err h where i: "initialiseMetrics cs (machine s) = ((ms, err), h)" by (metis prod.exhaust)
  then have "distinct (map (\<lambda>km. full_name (snd km)) ms)"
    using initialise_names [where 'v = 'v, of cs "machine s"] by simp
  then show ?case using connects by (simp add: pm_inv_def pm_ops i)
next
  case (request s collect)
  then show ?case
    using update_takes_over_once [of N "tree s" "current s"]
    by (auto simp: pm_inv_def pm_ops comp_def split: prod.splits)
qed (auto simp: pm_inv_def pm_ops)

lemma pm_reachable: "(pm_step N qm)\<^sup>*\<^sup>* (processing_start h) s \<Longrightarrow> pm_inv s"
  by (induction rule: rtranclp_induct) (auto intro: pm_inv_step pm_inv_start)

text \<open>
  C27. In every reachable state of the goroutine: the start is signalled exactly once, at the first connection
  and before any answer; every answer has metrics with different names; the connection is open exactly while
  publications are processed or requests awaited, and is closed when the goroutine returns.
\<close>

theorem metrics_loop_safe:
  assumes "(pm_step N qm)\<^sup>*\<^sup>* (processing_start h) s"
  shows "startSignals s \<le> 1 \<and> (responses s = [] \<or> startSignals s = 1)
    \<and> connected s = (pm_at s \<in> {Publishing, Waiting})
    \<and> list_all (\<lambda>ms. distinct (map (\<lambda>km. full_name (snd km)) ms)) (responses s)"
  using pm_reachable [OF assms] by (simp add: pm_inv_def split: if_splits)

section \<open>Answers and the end\<close>

definition answers_frozen :: "'v normaliser \<Rightarrow> string \<Rightarrow> 'v processing \<Rightarrow> bool" where
  "answers_frozen N qm s \<longleftrightarrow> (\<forall>t. (pm_step N qm)\<^sup>*\<^sup>* s t \<longrightarrow> responses t = responses s \<and> pm_at t = Returned)"

lemma returned_frozen:
  assumes "pm_at s = Returned"
  shows "answers_frozen N qm s"
proof -
  have "responses t = responses s \<and> pm_at t = Returned" if "(pm_step N qm)\<^sup>*\<^sup>* s t" for t
    using that
  proof (induction rule: rtranclp_induct)
    case (step t u)
    from step(2,3) show ?case by (cases rule: pm_step.cases) simp_all
  qed (simp add: assms)
  then show ?thesis unfolding answers_frozen_def by blast
qed



lemma metrics_loop_safe_witness:
  "\<exists>s. (pm_step (\<lambda>_ _ x. x) ''QM1'')\<^sup>*\<^sup>* (processing_start toy_machine) s \<and> connected s \<and> startSignals s = 1"
proof -
  let ?s = "on_connect (toy_tree 1) (processing_start toy_machine) :: int processing"
  have "pm_step (\<lambda>_ _ x. x) ''QM1'' (processing_start toy_machine) ?s"
    by (rule connects) (simp_all add: processing_start_def doConnect_def)
  then have r: "(pm_step (\<lambda>_ _ x. x) ''QM1'')\<^sup>*\<^sup>* (processing_start toy_machine) ?s" by blast
  have "pm_at ?s = Publishing" "startSignals ?s = 1"
    by (simp_all add: on_connect_def processing_start_def split: prod.splits)
  then show ?thesis using metrics_loop_safe [OF r] r by blast
qed

end
