(* ===== verification/Metrics_Server.thy ===== *)
theory Metrics_Server
  imports Metrics_Loop Metrics_Audit Paths Ready
begin

text \<open>
  internal/metrics/metrics.go, the start and stop of the metrics server, and internal/metrics/tlswatch.go, the
  certificate of the server that is read again when its files change. The parsing of a key pair and of its
  leaf certificate, the listing of the key directory and what the Prometheus registry, the HTTP server and the
  file watcher report are parameters.
\<close>

section \<open>Configuration\<close>

abbreviation (input) keyDirMetrics :: string where "keyDirMetrics \<equiv> ''/etc/mqm/metrics/pki/keys''"

datatype curve = X25519MLKEM768 | SecP256r1MLKEM768 | SecP384r1MLKEM1024

definition quantumSafeCurvePreferences :: "curve list" where
  "quantumSafeCurvePreferences = [X25519MLKEM768, SecP256r1MLKEM768, SecP384r1MLKEM1024]"

text \<open>\<open>isHTTPSMetricsEnabled\<close>, given the listing of the key directory.\<close>

definition isHTTPSMetricsEnabled ::
    "string \<Rightarrow> (string, string list) result \<Rightarrow> host \<Rightarrow> (string, bool) result \<times> host" where
  "isHTTPSMetricsEnabled keyDirectory listing h =
     (case listing of
        Inl e \<Rightarrow>
          if contains e ''no such file or directory'' then (Inr False, h)
          else (Inl (''Unable to read files in '' @ CHR 0x27 # keyDirectory @ CHR 0x27 # '': '' @ e), h)
      | Inr names \<Rightarrow>
          (let certFile = (''tls.crt'' \<in> set names); keyFile = (''tls.key'' \<in> set names)
           in if names = [] then (Inr False, h)
              else if certFile \<and> keyFile then (Inr True, h)
              else
                (let h1 = (if certFile then h
                           else say ErrorL (''Metrics Error: Unable to find required file '' @ CHR 0x27 # ''tls.crt''
                                  @ CHR 0x27 # '' in '' @ CHR 0x27 # keyDirectory @ [CHR 0x27]) h);
                     h2 = (if keyFile then h1
                           else say ErrorL (''Metrics Error: Unable to find required file '' @ CHR 0x27 # ''tls.key''
                                  @ CHR 0x27 # '' in '' @ CHR 0x27 # keyDirectory @ [CHR 0x27]) h1)
                 in (Inl ''Missing files required for HTTPS'', h2))))"

text \<open>The curves of the TLS configuration; the empty list is the default of the library.\<close>

definition curve_preferences :: "host \<Rightarrow> curve list \<times> host" where
  "curve_preferences h =
     (case env h ''MQ_METRICS_REQUIRE_QUANTUM_SAFE'' of
        None \<Rightarrow> ([], h)
      | Some v \<Rightarrow>
          if equal_fold v ''true'' \<or> equal_fold v ''1'' then
            (quantumSafeCurvePreferences,
             say InfoL ''Metrics server configured to require quantum-safe key exchange'' h)
          else if \<not> equal_fold v ''false'' \<and> \<not> equal_fold v ''0'' then
            ([], say InfoL (''Invalid value '' @ CHR 0x27 # v @ CHR 0x27 # '' was specified for MQ_METRICS_REQUIRE_QUANTUM_SAFE. Valid values are ''
                   @ CHR 0x27 # ''true'' @ CHR 0x27 # '', '' @ CHR 0x27 # ''1'' @ CHR 0x27 # '', '' @ CHR 0x27 # ''false'' @ CHR 0x27
                   # '', or '' @ CHR 0x27 # ''0'' @ CHR 0x27 # ''. The metrics server will not require quantum-safe key exchange'') h)
          else ([], h))"

section \<open>The certificate\<close>

record 'c certificateMonitor =
  certDir :: string
  cert :: "'c option"
  certSerial :: string

record 'c tls_parser =
  X509KeyPair :: "string \<Rightarrow> string \<Rightarrow> (string, 'c) result"
  leaf_serial :: "'c \<Rightarrow> (string, string) result"

definition newCertificateMonitor :: "string \<Rightarrow> 'c certificateMonitor" where
  "newCertificateMonitor d = \<lparr>certDir = d, cert = None, certSerial = []\<rparr>"

abbreviation latestCert :: "'c certificateMonitor \<Rightarrow> 'c option" where "latestCert \<equiv> cert"

text \<open>The loop over the certificate files: a missing file is left out, another error ends it.\<close>

fun read_certs :: "string list \<Rightarrow> host \<Rightarrow> string \<Rightarrow> (string, string) result" where
  "read_certs [] h certPEM = Inr certPEM"
| "read_certs (p # ps) h certPEM =
     (case os_read (path_clean p) h of
        Inl NotExist \<Rightarrow> read_certs ps h certPEM
      | Inl (IoErr e) \<Rightarrow> Inl (''failed to read cert file ('' @ p @ ''): '' @ e)
      | Inr c \<Rightarrow>
          read_certs ps h
            (certPEM @ (if certPEM \<noteq> [] \<and> last certPEM \<noteq> newline then c @ [newline] else c)))"

definition updateCert ::
    "'c tls_parser \<Rightarrow> string \<Rightarrow> 'c certificateMonitor \<Rightarrow> host \<Rightarrow> string option \<times> 'c certificateMonitor \<times> host" where
  "updateCert tp trigger cm h =
     (case read_certs [certDir cm @ ''/tls.crt'', certDir cm @ ''/ca.crt''] h [] of
        Inl e \<Rightarrow> (Some e, cm, h)
      | Inr certPEM \<Rightarrow>
          (case os_read (path_clean (certDir cm @ ''/tls.key'')) h of
             Inl e \<Rightarrow> (Some (''failed to read key file ('' @ certDir cm @ ''/tls.key'' @ ''): '' @ err_text e), cm, h)
           | Inr keyPEM \<Rightarrow>
               (case X509KeyPair tp certPEM keyPEM of
                  Inl e \<Rightarrow> (Some e, cm, say ErrorL (''error loading key pair: '' @ e) h)
                | Inr c \<Rightarrow>
                    (case leaf_serial tp c of
                       Inl e \<Rightarrow> (Some e, cm, say ErrorL (''error reading certificate serial: '' @ e) h)
                     | Inr serial \<Rightarrow>
                         (None, cm\<lparr>cert := Some c, certSerial := serial\<rparr>,
                          if serial \<noteq> certSerial cm
                          then say InfoL (''HTTPS metrics TLS certificate reload triggered by '' @ trigger
                                 @ '', Loaded new certificate (serial: '' @ serial @ '')'') h
                          else h)))))"

definition loadAndWatchCertificates ::
    "'c tls_parser \<Rightarrow> string option \<Rightarrow> string \<Rightarrow> host \<Rightarrow> (string, 'c certificateMonitor) result \<times> host" where
  "loadAndWatchCertificates tp watchError d h =
     (case updateCert tp ''startup'' (newCertificateMonitor d) h of
        (Some e, cm, h1) \<Rightarrow> (Inl e, h1)
      | (None, cm, h1) \<Rightarrow> (case watchError of Some e \<Rightarrow> (Inl e, h1) | None \<Rightarrow> (Inr cm, h1)))"

text \<open>\<open>GetCertificate\<close> of the TLS configuration.\<close>

definition GetCertificate :: "'c certificateMonitor \<Rightarrow> (string, 'c) result" where
  "GetCertificate cm = (case latestCert cm of None \<Rightarrow> Inl ''no certificate loaded'' | Some c \<Rightarrow> Inr c)"

section \<open>Starting and stopping\<close>

record 'c metrics_server =
  https :: bool
  audited :: bool
  curves :: "curve list"
  monitor :: "'c certificateMonitor option"
  started :: bool

text \<open>
  \<open>startMetricsGathering\<close>: the errors of the registration and of the watcher are arguments. The first part of
  the result is the returned error, the second what has been set up, where \<open>started\<close> says whether
  \<open>processMetrics\<close> was started.
\<close>

definition auditLog :: "(nat \<Rightarrow> string) \<Rightarrow> RotatingLogger" where
  "auditLog auditLogFilenameFormat = NewRotatingLogger ''/var/mqm/errors'' auditLogFilenameFormat (4 * 1024 * 1024) 3"

definition startMetricsGathering ::
    "'c tls_parser \<Rightarrow> (nat \<Rightarrow> string) \<Rightarrow> (string, string list) result \<Rightarrow> string option \<Rightarrow> string option \<Rightarrow> host
     \<Rightarrow> string option \<times> 'c metrics_server \<times> host" where
  "startMetricsGathering tp fmt listing registerError watchError h =
     (let none = \<lparr>https = False, audited = False, curves = [], monitor = None, started = False\<rparr> in
      case isHTTPSMetricsEnabled keyDirMetrics listing h of
        (Inl e, h1) \<Rightarrow> (Some (''Failed to validate HTTPS metrics configuration: '' @ e), none, h1)
      | (Inr httpsEnabled, h1) \<Rightarrow>
          (let audit = (getenv h1 ''MQ_LOGGING_METRICS_AUDIT_ENABLED'' = ''true'') in
           case (if audit then Init (auditLog fmt) h1 else (None, h1)) of
             (Some e, h2) \<Rightarrow> (Some (''Failed to set up metric audit log: '' @ err_text e), none, h2)
           | (None, h2) \<Rightarrow>
               (let h3 = say InfoL (if httpsEnabled then ''Starting HTTPS metrics gathering''
                                    else ''Starting HTTP (insecure) metrics gathering'') h2;
                    s = none\<lparr>https := httpsEnabled, audited := audit, started := True\<rparr>
                in case registerError of
                     Some e \<Rightarrow> (Some (''Failed to register metrics: '' @ e), s, h3)
                   | None \<Rightarrow>
                       if \<not> httpsEnabled then (None, s, h3)
                       else (case loadAndWatchCertificates tp watchError keyDirMetrics h3 of
                               (Inl e, h4) \<Rightarrow> (Some (''failed to set up TLS certificate monitor: '' @ e), s, h4)
                             | (Inr cm, h4) \<Rightarrow>
                                 (case curve_preferences h4 of
                                    (cs, h5) \<Rightarrow> (None, s\<lparr>monitor := Some cm, curves := cs\<rparr>, h5))))))"

text \<open>
  \<open>StopMetricsGathering\<close>: a stop request for the goroutine, when metrics were enabled, and the shutdown of the
  HTTP server, which may report an error.
\<close>

definition StopMetricsGathering :: "bool \<Rightarrow> string option \<Rightarrow> nat \<Rightarrow> host \<Rightarrow> nat \<times> host" where
  "StopMetricsGathering metricsEnabled shutdownError stopRequests h =
     (if metricsEnabled then
        (Suc stopRequests,
         (case shutdownError of
            None \<Rightarrow> h
          | Some e \<Rightarrow> say ErrorL (''Failed to shutdown metrics server: '' @ e) h))
      else (stopRequests, h))"

text \<open>
  \<open>GatherMetrics\<close>: the status is asked for until the queue manager is active; the argument is the number of
  rounds that are looked at, and the result \<open>None\<close> that it was not active in any.
\<close>

fun wait_active :: "nat \<Rightarrow> string \<Rightarrow> host \<Rightarrow> host option" where
  "wait_active 0 qm h = None"
| "wait_active (Suc n) qm h =
     (case ReadyStatus qm h of
        ((st, e), h1) \<Rightarrow> if ActiveQM st then Some h1 else wait_active n qm h1)"

definition GatherMetrics ::
    "'c tls_parser \<Rightarrow> (nat \<Rightarrow> string) \<Rightarrow> (string, string list) result \<Rightarrow> string option \<Rightarrow> string option \<Rightarrow> string option
     \<Rightarrow> nat \<Rightarrow> string \<Rightarrow> host \<Rightarrow> (nat \<times> 'c metrics_server \<times> host) option" where
  "GatherMetrics tp fmt listing registerError watchError shutdownError rounds qm h =
     map_option
       (\<lambda>h1. case startMetricsGathering tp fmt listing registerError watchError h1 of
               (None, s, h2) \<Rightarrow> (0, s, h2)
             | (Some e, s, h2) \<Rightarrow>
                 (case StopMetricsGathering True shutdownError 0 (say ErrorL (''Metrics Error: '' @ e) h2) of
                    (n, h3) \<Rightarrow> (n, s, h3)))
       (wait_active rounds qm h)"

section \<open>What the certificate is\<close>

text \<open>What an update loads from the files of a directory, if it succeeds.\<close>

definition loads :: "'c tls_parser \<Rightarrow> string \<Rightarrow> host \<Rightarrow> 'c option" where
  "loads tp d h =
     (case updateCert tp [] (newCertificateMonitor d) h of
        (None, cm, h1) \<Rightarrow> cert cm
      | (Some e, cm, h1) \<Rightarrow> None)"

lemma updateCert_loads:
  "case updateCert tp t cm h of
     (e, cm', h') \<Rightarrow>
       certDir cm' = certDir cm
       \<and> cert cm' = (case loads tp (certDir cm) h of None \<Rightarrow> cert cm | Some c \<Rightarrow> Some c)
       \<and> (e = None \<longleftrightarrow> loads tp (certDir cm) h \<noteq> None) \<and> (e \<noteq> None \<longrightarrow> cm' = cm)"
proof (cases "read_certs [certDir cm @ ''/tls.crt'', certDir cm @ ''/ca.crt''] h []")
  case (Inl e)
  then show ?thesis by (simp add: updateCert_def loads_def newCertificateMonitor_def del: read_certs.simps)
next
  case pem: (Inr certPEM)
  note d = updateCert_def loads_def newCertificateMonitor_def
  show ?thesis
  proof (cases "os_read (path_clean (certDir cm @ ''/tls.key'')) h")
    case (Inl e)
    then show ?thesis using pem by (simp add: d del: read_certs.simps)
  next
    case key: (Inr keyPEM)
    show ?thesis
    proof (cases "X509KeyPair tp certPEM keyPEM")
      case (Inl e)
      then show ?thesis using pem key by (simp add: d del: read_certs.simps)
    next
      case (Inr c)
      then show ?thesis using pem key
        by (cases "leaf_serial tp c") (simp_all add: d del: read_certs.simps)
    qed
  qed
qed

lemma updateCert_result:
  assumes "updateCert tp t cm h = (e, cm', h')"
  shows "certDir cm' = certDir cm"
    and "cert cm' = (case loads tp (certDir cm) h of None \<Rightarrow> cert cm | Some c \<Rightarrow> Some c)"
    and "e = None \<longleftrightarrow> loads tp (certDir cm) h \<noteq> None"
    and "e \<noteq> None \<Longrightarrow> cm' = cm"
  using updateCert_loads [where tp = tp and t = t and cm = cm and h = h] by (simp_all add: assms)

definition update_step :: "'c tls_parser \<Rightarrow> 'c certificateMonitor \<Rightarrow> string \<times> host \<Rightarrow> 'c certificateMonitor" where
  "update_step tp cm ev = fst (snd (updateCert tp (fst ev) cm (snd ev)))"

definition loads_step :: "'c tls_parser \<Rightarrow> string \<Rightarrow> 'c option \<Rightarrow> string \<times> host \<Rightarrow> 'c option" where
  "loads_step tp d c ev = (case loads tp d (snd ev) of None \<Rightarrow> c | Some x \<Rightarrow> Some x)"

lemma update_step_result:
  "certDir (update_step tp cm ev) = certDir cm"
  "cert (update_step tp cm ev) = loads_step tp (certDir cm) (cert cm) ev"
  using updateCert_loads [where tp = tp and t = "fst ev" and cm = cm and h = "snd ev"]
  by (cases "updateCert tp (fst ev) cm (snd ev)" rule: prod_cases3; simp add: update_step_def loads_step_def)+

interpretation certificate: refined_handler "update_step tp" "newCertificateMonitor d" "\<lambda>cm. certDir cm = d"
  "loads_step tp d" cert
  for tp :: "'c tls_parser" and d
  by unfold_locales (simp_all add: update_step_result newCertificateMonitor_def)

lemma certificate_served:
  assumes "loadAndWatchCertificates tp watchError d h = (Inr cm, h')"
  shows "\<exists>c. GetCertificate (foldl (update_step tp) cm evs) = Inr c
    \<and> foldl (loads_step tp d) None ((''startup'', h) # evs) = Some c"
proof -
  have cm: "updateCert tp ''startup'' (newCertificateMonitor d) h = (None, cm, h')"
    using assms by (auto simp: loadAndWatchCertificates_def split: prod.splits option.splits)
  then have s: "cm = update_step tp (newCertificateMonitor d) (''startup'', h)" by (simp add: update_step_def)
  then have run: "cert (foldl (update_step tp) cm evs) = foldl (loads_step tp d) None ((''startup'', h) # evs)"
    using certificate.abs_run [of tp d "(''startup'', h) # evs"] by (simp add: newCertificateMonitor_def)
  have "loads tp d h \<noteq> None"
    using updateCert_result(3) [OF cm] by (simp add: newCertificateMonitor_def)
  then have "loads_step tp d None (''startup'', h) \<noteq> None" by (auto simp: loads_step_def)
  moreover have "foldl (loads_step tp d) c evs \<noteq> None" if "c \<noteq> None" for c
    using that by (induction evs arbitrary: c) (auto simp: loads_step_def split: option.splits)
  ultimately show ?thesis using run by (force simp: GetCertificate_def)
qed

text \<open>
  C29. Whatever updates follow the start of the server, and whether they succeed or not, the certificate that
  it presents is that of the last update that succeeded; there always is one.
\<close>

theorem certificate_is_last_loaded:
  assumes "loadAndWatchCertificates tp watchError d h = (Inr cm, h')"
  shows "\<exists>c. GetCertificate (foldl (update_step tp) cm evs) = Inr c
    \<and> foldl (loads_step tp d) None ((''startup'', h) # evs) = Some c"
  using assms by (rule certificate_served)

text \<open>
  When the certificate file does not end with a newline, the one that is meant to separate it from the CA
  certificates is put after these: the last line of the one and the first line of the others are joined.
\<close>

theorem certificates_joined:
  assumes "healthy_host h" "files h (path_clean (d @ ''/tls.crt'')) = Some a"
    and "files h (path_clean (d @ ''/ca.crt'')) = Some b" "a \<noteq> []" "last a \<noteq> newline"
  shows "read_certs [d @ ''/tls.crt'', d @ ''/ca.crt''] h [] = Inr (a @ b @ [newline])"
  using assms by simp

section \<open>Which server is started\<close>

text \<open>
  The HTTPS server is chosen exactly when the directory has both files; a directory with other files only
  is an error, an empty or missing one means plain HTTP.
\<close>

theorem https_decision:
  "fst (isHTTPSMetricsEnabled d listing h) =
     (case listing of
        Inl e \<Rightarrow> if contains e ''no such file or directory'' then Inr False
                 else Inl (''Unable to read files in '' @ CHR 0x27 # d @ CHR 0x27 # '': '' @ e)
      | Inr ns \<Rightarrow> if {''tls.crt'', ''tls.key''} \<subseteq> set ns then Inr True
                  else if ns = [] then Inr False else Inl ''Missing files required for HTTPS'')"
  by (auto simp: isHTTPSMetricsEnabled_def Let_def split: sum.splits)

definition asks_quantum_safe :: "host \<Rightarrow> bool" where
  "asks_quantum_safe h \<longleftrightarrow>
     (case env h ''MQ_METRICS_REQUIRE_QUANTUM_SAFE'' of
        None \<Rightarrow> False
      | Some v \<Rightarrow> equal_fold v ''true'' \<or> equal_fold v ''1'')"

lemma fst_curve_preferences:
  "fst (curve_preferences h) = (if asks_quantum_safe h then quantumSafeCurvePreferences else [])"
  by (simp add: curve_preferences_def asks_quantum_safe_def split: option.splits)

lemma env_create_from [simp]: "env (snd (create_from r is h)) = env h"
proof (induction "is" arbitrary: h)
  case (Cons i "is")
  have "env h1 = env h" if "os_open_create p h = (e, h1)" for p e h1
    using env_frame(4) [of p h] that by simp
  then show ?case using Cons by (auto split: prod.splits option.splits)
qed simp

lemma env_startup [simp]:
  "env (snd (isHTTPSMetricsEnabled d listing h)) = env h"
  "env (snd (Init r h)) = env h"
  "env (snd (snd (updateCert tp t cm h))) = env h"
  "env (snd (loadAndWatchCertificates tp w d h)) = env h"
proof -
  show u: "env (snd (snd (updateCert tp t cm h))) = env h" for tp :: "'a tls_parser" and t cm h
    by (simp add: updateCert_def del: read_certs.simps split: sum.splits)
  show "env (snd (loadAndWatchCertificates tp w d h)) = env h"
    using u [of tp "''startup''" "newCertificateMonitor d" h]
    by (auto simp: loadAndWatchCertificates_def split: prod.splits option.splits)
qed (auto simp: isHTTPSMetricsEnabled_def Init_def Let_def split: sum.splits)

text \<open>
  A start without an error has started the goroutine, and serves HTTPS exactly when the keys are there; then
  there is a certificate, and the quantum-safe curves are required if and only if the variable asks for them.
\<close>

theorem started_server:
  assumes "startMetricsGathering tp fmt listing registerError watchError h = (None, s, h')"
  shows "started s \<and> https s = (fst (isHTTPSMetricsEnabled keyDirMetrics listing h) = Inr True)
    \<and> (if https s then (\<exists>cm. monitor s = Some cm \<and> latestCert cm \<noteq> None)
         \<and> curves s = (if asks_quantum_safe h then quantumSafeCurvePreferences else [])
       else monitor s = None \<and> curves s = [])"
proof -
  obtain en h1 where en: "isHTTPSMetricsEnabled keyDirMetrics listing h = (Inr en, h1)"
    using assms by (auto simp: startMetricsGathering_def Let_def split: sum.splits prod.splits)
  let ?i = "if getenv h1 ''MQ_LOGGING_METRICS_AUDIT_ENABLED'' = ''true'' then Init (auditLog fmt) h1 else (None, h1)"
  obtain h2 where h2: "?i = (None, h2)"
    using assms by (cases ?i; cases "fst ?i") (auto simp: startMetricsGathering_def en Let_def)
  have env: "env h1 = env h" "env h2 = env h"
  proof -
    show "env h1 = env h" using env_startup(1) [of keyDirMetrics listing h] by (simp add: en)
    then show "env h2 = env h" using arg_cong [OF h2, of "\<lambda>p. env (snd p)"] by (simp split: if_splits)
  qed
  let ?h3 = "say InfoL (if en then ''Starting HTTPS metrics gathering''
               else ''Starting HTTP (insecure) metrics gathering'') h2"
  note start = assms [unfolded startMetricsGathering_def, simplified en Let_def h2 prod.case sum.case option.case]
  show ?thesis
  proof (cases en)
    case False
    then show ?thesis using start by (auto simp: en split: option.splits)
  next
    case True
    then obtain cm h4 where cm: "loadAndWatchCertificates tp watchError keyDirMetrics ?h3 = (Inr cm, h4)"
        "monitor s = Some cm" "curves s = fst (curve_preferences h4)" "started s" "https s"
      using start by (auto split: option.splits sum.splits prod.splits)
    have "env h4 = env h"
      using env_startup(4) [of tp watchError keyDirMetrics ?h3] env by (simp add: cm(1))
    then have "asks_quantum_safe h4 = asks_quantum_safe h" by (simp add: asks_quantum_safe_def)
    then have "curves s = (if asks_quantum_safe h then quantumSafeCurvePreferences else [])"
      using cm(3) by (simp add: fst_curve_preferences)
    moreover have "latestCert cm \<noteq> None"
      using certificate_served [OF cm(1), of "[]"] by (auto simp: GetCertificate_def split: option.splits)
    ultimately show ?thesis using cm True by (simp add: en)
  qed
qed

section \<open>Watching the files\<close>

text \<open>
  The two goroutines of \<open>watch\<close>. One takes events of the file system and ticks and offers them to the other,
  which takes an offer only when it is idle, waits until the changes settle, reads the files and puts the
  certificate in place. A change of the files, in any state, leads to an event. The ghost \<open>missed\<close> says that an
  event was ignored while the files had already been read.
\<close>

datatype 'd updater = Idle | Debouncing | Updating 'd

record 'd watching =
  on_disk :: 'd
  last_read :: 'd
  fs_events :: nat
  updater :: "'d updater"
  missed :: bool

definition watch_start :: "'d \<Rightarrow> 'd watching" where
  "watch_start d = \<lparr>on_disk = d, last_read = d, fs_events = 0, updater = Idle, missed = False\<rparr>"

definition triggerUpdate :: "'d watching \<Rightarrow> 'd watching" where
  "triggerUpdate w =
     (case updater w of
        Idle \<Rightarrow> w\<lparr>updater := Debouncing\<rparr>
      | Debouncing \<Rightarrow> w
      | Updating d \<Rightarrow> w\<lparr>missed := True\<rparr>)"

inductive watch_step :: "'d watching \<Rightarrow> 'd watching \<Rightarrow> bool" where
  files_change: "watch_step w (w\<lparr>on_disk := d, fs_events := Suc (fs_events w)\<rparr>)"
| fs_event: "fs_events w = Suc n \<Longrightarrow> watch_step w (triggerUpdate (w\<lparr>fs_events := n\<rparr>))"
| poll_tick: "watch_step w (triggerUpdate w)"
| settled: "updater w = Debouncing \<Longrightarrow> watch_step w (w\<lparr>updater := Updating (on_disk w), missed := False\<rparr>)"
| updated: "updater w = Updating d \<Longrightarrow> watch_step w (w\<lparr>updater := Idle, last_read := d\<rparr>)"

definition watch_inv :: "'d watching \<Rightarrow> bool" where
  "watch_inv w \<longleftrightarrow>
     0 < fs_events w \<or> missed w
     \<or> (case updater w of Idle \<Rightarrow> last_read w = on_disk w | Debouncing \<Rightarrow> True | Updating d \<Rightarrow> d = on_disk w)"

lemma watch_inv_step: "watch_step w w' \<Longrightarrow> watch_inv w \<Longrightarrow> watch_inv w'"
  by (induction rule: watch_step.induct)
    (auto simp: watch_inv_def triggerUpdate_def split: updater.splits)

lemma watch_inv_start: "watch_inv (watch_start d)"
  by (simp add: watch_inv_def watch_start_def)

lemma watch_reachable: "watch_step\<^sup>*\<^sup>* (watch_start d) w \<Longrightarrow> watch_inv w"
  by (induction rule: rtranclp_induct) (auto intro: watch_inv_step watch_inv_start)


section \<open>An example\<close>

definition toy_parser :: "string tls_parser" where
  "toy_parser =
     \<lparr>X509KeyPair = (\<lambda>c k. if c = [] \<or> k = [] then Inl ''no certificate'' else Inr c), leaf_serial = (\<lambda>c. Inr ''1f'')\<rparr>"

definition toy_server_host :: host where
  "toy_server_host = toy_machine\<lparr>files :=
     [keyDirMetrics @ ''/tls.crt'' \<mapsto> ''A'', keyDirMetrics @ ''/ca.crt'' \<mapsto> ''B'', keyDirMetrics @ ''/tls.key'' \<mapsto> ''K'']\<rparr>"

lemma toy_loaded_server:
  "loadAndWatchCertificates toy_parser None keyDirMetrics toy_server_host
   = (Inr \<lparr>certDir = keyDirMetrics, cert = Some (''AB'' @ [newline]), certSerial = ''1f''\<rparr>,
      toy_server_host\<lparr>logs := [(InfoL, ''HTTPS metrics TLS certificate reload triggered by startup, Loaded new certificate (serial: 1f)'')]\<rparr>)"
proof -
  have p: "path_clean (keyDirMetrics @ ''/tls.crt'') = keyDirMetrics @ ''/tls.crt''"
    "path_clean (keyDirMetrics @ ''/ca.crt'') = keyDirMetrics @ ''/ca.crt''"
    "path_clean (keyDirMetrics @ ''/tls.key'') = keyDirMetrics @ ''/tls.key''" by code_simp+
  have h: "healthy_host toy_server_host" by (simp add: healthy_host_def toy_server_host_def toy_machine_def)
  show ?thesis
    using p h
    by (simp add: loadAndWatchCertificates_def updateCert_def newCertificateMonitor_def toy_parser_def say_def)
      (simp add: toy_server_host_def toy_machine_def say_def)
qed

lemma certificate_is_last_loaded_witness:
  "\<exists>cm h'. loadAndWatchCertificates toy_parser None keyDirMetrics toy_server_host = (Inr cm, h')
    \<and> (\<exists>c. GetCertificate (foldl (update_step toy_parser) cm [(''poll'', toy_machine)]) = Inr c)"
  using certificate_is_last_loaded [OF toy_loaded_server] toy_loaded_server by blast

lemma certificates_joined_witness:
  "read_certs [''/k'' @ ''/tls.crt'', ''/k'' @ ''/ca.crt'']
     (toy_machine\<lparr>files := [''/k/tls.crt'' \<mapsto> ''-----END CERTIFICATE-----'', ''/k/ca.crt'' \<mapsto> ''-----BEGIN CERTIFICATE-----'']\<rparr>) []
   = Inr (''-----END CERTIFICATE-----'' @ ''-----BEGIN CERTIFICATE-----'' @ [newline])"
proof (rule certificates_joined)
  have p: "path_clean (''/k'' @ ''/tls.crt'') = ''/k/tls.crt''" "path_clean (''/k'' @ ''/ca.crt'') = ''/k/ca.crt''"
    by code_simp+
  let ?h = "toy_machine\<lparr>files := [''/k/tls.crt'' \<mapsto> ''-----END CERTIFICATE-----'', ''/k/ca.crt'' \<mapsto> ''-----BEGIN CERTIFICATE-----'']\<rparr>"
  show "healthy_host ?h" by (simp add: healthy_host_def toy_machine_def)
  show "files ?h (path_clean (''/k'' @ ''/tls.crt'')) = Some ''-----END CERTIFICATE-----''"
    "files ?h (path_clean (''/k'' @ ''/ca.crt'')) = Some ''-----BEGIN CERTIFICATE-----''"
    by (simp_all add: p del: append.simps)
qed simp_all

lemma started_server_witness:
  "\<exists>s h'. startMetricsGathering toy_parser (\<lambda>_. ''metricaudit.json'') (Inr []) None None toy_machine = (None, s, h')
     \<and> started s \<and> \<not> https s"
proof -
  obtain s h' where r: "startMetricsGathering toy_parser (\<lambda>_. ''metricaudit.json'') (Inr []) None None toy_machine
      = (None, s, h')"
    by (simp add: startMetricsGathering_def isHTTPSMetricsEnabled_def toy_machine_def getenv_def)
  then show ?thesis using started_server [OF r] by (auto simp: https_decision isHTTPSMetricsEnabled_def)
qed


end
