(* ===== verification/Container_Runtime.thy ===== *)
theory Container_Runtime
  imports Paths
begin

text \<open>
  internal/containerruntime, internal/user and pkg/containerruntimelogger: what the server finds out about the
  container it runs in from files under /proc, and the checks of the volumes it makes with that. What the
  kernel answers to system calls (identity, capabilities, prctl, statfs) is a parameter. The iteration over a
  map is over the list of its entries.
\<close>

section \<open>Files of the kernel\<close>

definition readProc :: "string \<Rightarrow> host \<Rightarrow> (string, string) result" where
  "readProc p h = (case os_read p h of Inl e \<Rightarrow> Inl (err_text e) | Inr buf \<Rightarrow> Inr (trim_space buf))"

definition rt_fileExists :: "string \<Rightarrow> host \<Rightarrow> bool" where
  "rt_fileExists p h \<longleftrightarrow> os_stat p h \<noteq> Some NotExist"

text \<open>No bytes stand for the nil slice.\<close>

definition readFile :: "string \<Rightarrow> host \<Rightarrow> string option" where
  "readFile p h =
     (if \<not> rt_fileExists p h then None
      else (case os_read (path_clean p) h of Inl e \<Rightarrow> None | Inr b \<Rightarrow> Some b))"

definition readFileString :: "string \<Rightarrow> host \<Rightarrow> string" where
  "readFileString p h = (case readFile p h of None \<Rightarrow> [] | Some b \<Rightarrow> trim_space b)"

definition GetBaseImage :: "host \<Rightarrow> (string, string) result" where
  "GetBaseImage h =
     (case os_read ''/etc/os-release'' h of
        Inl e \<Rightarrow> Inl (''Failed to read /etc/os-release: '' @ err_text e)
      | Inr buf \<Rightarrow>
          (case find (\<lambda>l. has_prefix l ''PRETTY_NAME='' \<and> length (split_on CHR 0x22 l) \<ge> 2) (split_on newline buf) of
             None \<Rightarrow> Inr ''unknown''
           | Some l \<Rightarrow> Inr (split_on CHR 0x22 l ! 1)))"

definition GetSecurityAttributes :: "host \<Rightarrow> string" where
  "GetSecurityAttributes h =
     (case readProc ''/proc/self/attr/current'' h of
        Inl e \<Rightarrow> ''none''
      | Inr a \<Rightarrow> if a = [] then ''none'' else a)"

definition GetKernelVersion :: "host \<Rightarrow> (string, string) result" where
  "GetKernelVersion = readProc ''/proc/sys/kernel/osrelease''"

definition GetMaxFileHandles :: "host \<Rightarrow> (string, string) result" where
  "GetMaxFileHandles = readProc ''/proc/sys/fs/file-max''"

section \<open>Mounts\<close>

text \<open>
  A line of /proc/mounts with fewer than three fields makes the code index out of range: \<open>None\<close> is that
  panic. A mount point that comes twice keeps the type it has last.
\<close>

type_synonym mounts = "(string \<times> string) list"

definition put_mount :: "string \<Rightarrow> string \<Rightarrow> mounts \<Rightarrow> mounts" where
  "put_mount p t m = filter (\<lambda>e. fst e \<noteq> p) m @ [(p, t)]"

fun mount_lines :: "string list \<Rightarrow> mounts \<Rightarrow> mounts option" where
  "mount_lines [] m = Some m"
| "mount_lines (l # ls) m =
     (let parts = split_on CHR '' '' l
      in if length parts < 3 then None
         else mount_lines ls
                (if contains (parts ! 1) ''/mnt/mqm'' then put_mount (parts ! 1) (parts ! 2) m else m))"

definition GetMounts :: "host \<Rightarrow> (string, mounts) result option" where
  "GetMounts h =
     (case readProc ''/proc/mounts'' h of
        Inl e \<Rightarrow> Some (Inl (''Couldn'' @ CHR 0x27 # ''t read /proc/mounts''))
      | Inr all \<Rightarrow> map_option Inr (mount_lines (split_on newline all) []))"

definition SupportedFilesystem :: "string \<Rightarrow> bool" where
  "SupportedFilesystem fsType \<longleftrightarrow> fsType \<notin> {''aufs'', ''overlayfs'', ''tmpfs''}"

definition ValidMultiInstanceFilesystem :: "string \<Rightarrow> bool" where
  "ValidMultiInstanceFilesystem fsType \<longleftrightarrow> SupportedFilesystem fsType"

definition fsTypes :: "(int \<times> string) list" where
  "fsTypes =
     [(0x61756673, ''aufs''),
      (0xef53, ''ext''),
      (0x6969, ''nfs''),
      (0x65735546, ''fuse''),
      (0x9123683e, ''btrfs''),
      (0x01021994, ''tmpfs''),
      (0x794c7630, ''overlayfs''),
      (0x58465342, ''xfs''),
      (0xadf5, ''adfs''),
      (0xadff, ''affs''),
      (0x5346414f, ''afs''),
      (0x0187, ''autofs''),
      (0x73757245, ''coda''),
      (0x28cd3d45, ''cramfs''),
      (0x453dcd28, ''cramfs''),
      (0x64626720, ''debugfs''),
      (0x73636673, ''securityfs''),
      (0xf97cff8c, ''selinux''),
      (0x43415d53, ''smack''),
      (0x858458f6, ''ramfs''),
      (0x958458f6, ''hugetlbfs''),
      (0x73717368, ''squashfs''),
      (0xf15f, ''ecryptfs''),
      (0x414a53, ''efs''),
      (0xabba1974, ''xenfs''),
      (0x3434, ''nilfs''),
      (0xf2f52010, ''f2fs''),
      (0xf995e849, ''hpfs''),
      (0x9660, ''isofs''),
      (0x72b6, ''jffs2''),
      (0x6165676c, ''pstorefs''),
      (0xde5e81e4, ''efivarfs''),
      (0x00c0ffee, ''hostfs''),
      (0x137f, ''minix_14''),
      (0x138f, ''minix_30''),
      (0x2468, ''minix2_14''),
      (0x2478, ''minix2_30''),
      (0x4d5a, ''minix3_60''),
      (0x4d44, ''msdos''),
      (0x564c, ''ncp''),
      (0x7461636f, ''ocfs2''),
      (0x9fa1, ''openprom''),
      (0x002f, ''qnx4''),
      (0x68191122, ''qnx6''),
      (0x6b414653, ''afs_fs''),
      (0x52654973, ''reiserfs''),
      (0x517b, ''smb''),
      (0x27e0eb, ''cgroup''),
      (0x63677270, ''cgroup2''),
      (0x7655821, ''rdtgroup''),
      (0x57ac6e9d, ''stack_end''),
      (0x74726163, ''tracefs''),
      (0x01021997, ''v9fs''),
      (0x62646576, ''bdevfs''),
      (0x64646178, ''daxfs''),
      (0x42494e4d, ''binfmtfs''),
      (0x1cd1, ''devpts''),
      (0xbad1dea, ''futexfs''),
      (0x50495045, ''pipefs''),
      (0x9fa0, ''proc''),
      (0x534f434b, ''sockfs''),
      (0x62656572, ''sysfs''),
      (0x9fa2, ''usbdevice''),
      (0x11307854, ''mtd_inode''),
      (0x09041934, ''anon_inode''),
      (0x73727279, ''btrfs''),
      (0x6e736673, ''nsfs''),
      (0xcafe4a11, ''bpf''),
      (0x5a3c69f0, ''aafs''),
      (0x15013346, ''udf''),
      (0x13661366, ''balloon_kvm''),
      (0x58295829, ''zsmalloc'')]"

text \<open>\<open>GetFilesystem\<close>, for the answer of statfs.\<close>

definition GetFilesystem :: "(string, int) result \<Rightarrow> (string, string) result" where
  "GetFilesystem statfs =
     (case statfs of
        Inl e \<Rightarrow> Inl e
      | Inr t \<Rightarrow> Inr (case map_of fsTypes t of None \<Rightarrow> ''unknown'' | Some n \<Rightarrow> n))"

section \<open>The container runtime\<close>

definition ContainerRuntimes :: "string list" where
  "ContainerRuntimes =
     [''docker'', ''rkt'', ''systemd-nspawn'', ''lxc'', ''lxc-libvirt'', ''openvz'', ''kube'', ''garden'', ''podman'']"

definition getContainerRuntime :: "string \<Rightarrow> string" where
  "getContainerRuntime inp =
     (if trim_space inp = [] then ''not-found''
      else (case find (contains inp) ContainerRuntimes of None \<Rightarrow> ''not-found'' | Some r \<Rightarrow> r))"

definition GetContainerRuntime :: "int \<Rightarrow> int \<Rightarrow> host \<Rightarrow> string" where
  "GetContainerRuntime tgid pid h =
     (let file = (if pid > 0 then
                    (if tgid > 0 then ''/proc/'' @ itoa tgid @ ''/task/'' @ itoa pid @ ''/cgroup''
                     else ''/proc/'' @ itoa pid @ ''/cgroup'')
                  else ''/proc/self/cgroup'');
          r1 = getContainerRuntime (readFileString file h);
          r2 = getContainerRuntime (getenv h ''container'');
          r3 = getContainerRuntime (readFileString ''/run/systemd/container'' h)
      in if r1 \<noteq> ''not-found'' then r1
         else if rt_fileExists ''/proc/vz'' h \<and> \<not> rt_fileExists ''/proc/bc'' h then ''openvz''
         else if r2 \<noteq> ''not-found'' then r2
         else if r3 \<noteq> ''not-found'' then r3
         else ''not-found'')"

definition DetectContainerRuntime :: "host \<Rightarrow> string" where
  "DetectContainerRuntime = GetContainerRuntime 0 1"

section \<open>Seccomp and capabilities\<close>

definition deleteEmpty :: "string list \<Rightarrow> string list" where
  "deleteEmpty s = map trim_space (filter (\<lambda>x. trim_space x \<noteq> []) s)"

text \<open>The regular expression finds the first colon of a line and what follows it; a line holds no newline.\<close>

definition after_colon :: "string \<Rightarrow> string option" where
  "after_colon l = (case dropWhile (\<lambda>c. c \<noteq> CHR '':'') l of [] \<Rightarrow> None | c # r \<Rightarrow> Some r)"

definition getStatusEntry :: "string \<Rightarrow> string \<Rightarrow> string" where
  "getStatusEntry inp key =
     (case find (\<lambda>l. contains l key \<and> after_colon l \<noteq> None) (deleteEmpty (split_on newline inp)) of
        None \<Rightarrow> []
      | Some l \<Rightarrow> (case after_colon l of None \<Rightarrow> [] | Some r \<Rightarrow> trim_space r))"

definition seccompModes :: "(string \<times> string) list" where
  "seccompModes = [(''0'', ''disabled''), (''1'', ''strict''), (''2'', ''filtering'')]"

text \<open>The kernel: its identity and capability answers, and whether the two prctl calls give EINVAL.\<close>

record kernel =
  goos :: string
  goarch :: string
  euid :: int
  gid :: int
  groups :: "(string, int list) result"
  capabilities :: "(string, string list \<times> string list \<times> string list) result"
  get_einval :: bool
  set_einval :: bool

definition getSeccompEnforcingMode :: "kernel \<Rightarrow> string \<Rightarrow> string" where
  "getSeccompEnforcingMode k inp =
     (case map_of seccompModes (getStatusEntry inp ''Seccomp:'') of
        Some sm \<Rightarrow> sm
      | None \<Rightarrow> if \<not> get_einval k \<and> \<not> set_einval k then ''strict'' else ''disabled'')"

definition GetSeccompEnforcingMode :: "kernel \<Rightarrow> int \<Rightarrow> host \<Rightarrow> string" where
  "GetSeccompEnforcingMode k pid h =
     getSeccompEnforcingMode k
       (readFileString (if pid > 0 then ''/proc/'' @ itoa pid @ ''/status'' else ''/proc/self/status'') h)"

definition GetSeccomp :: "kernel \<Rightarrow> host \<Rightarrow> string" where
  "GetSeccomp k = GetSeccompEnforcingMode k 1"

definition GetCapabilities :: "kernel \<Rightarrow> (string, (string \<times> string list) list) result" where
  "GetCapabilities k =
     (case capabilities k of
        Inl e \<Rightarrow> Inl e
      | Inr (caps, bounding, ambient) \<Rightarrow>
          Inr [(''EFFECTIVE | PERMITTED | INHERITABLE'', caps), (''BOUNDING'', bounding), (''AMBIENT'', ambient)])"

section \<open>The log of the details\<close>

record User =
  UID :: int
  PrimaryGID :: int
  SupplementalGID :: "int list"

definition GetUser :: "kernel \<Rightarrow> User \<times> string option" where
  "GetUser k =
     (let u = \<lparr>UID = euid k, PrimaryGID = gid k, SupplementalGID = []\<rparr>
      in case groups k of Inl e \<Rightarrow> (u, Some e) | Inr gs \<Rightarrow> (u\<lparr>SupplementalGID := gs\<rparr>, None))"

definition log_user :: "kernel \<Rightarrow> host \<Rightarrow> host" where
  "log_user k h =
     (case GetUser k of
        (u, Some e) \<Rightarrow>
          say InfoL (''Error: '' @ e @ [newline] @ ''User:'' @ [newline] @ ''  uid: '' @ itoa (UID u) @ [newline]
            @ ''  gid: '' @ itoa (PrimaryGID u) @ [newline] @ ''  supGid: ['' @ join '' '' (map itoa (SupplementalGID u)) @ '']'') h
      | (u, None) \<Rightarrow>
          say InfoL (''Running as user ID '' @ itoa (UID u) @ '' with primary group '' @ itoa (PrimaryGID u)
            @ (if SupplementalGID u = [] then []
               else '', and supplementary groups '' @ join '','' (map itoa (SupplementalGID u)))) h)"

definition log_capabilities :: "kernel \<Rightarrow> host \<Rightarrow> host" where
  "log_capabilities k h =
     (case GetCapabilities k of
        Inl e \<Rightarrow> say ErrorL (''Error getting capabilities: '' @ e) h
      | Inr caps \<Rightarrow>
          (let shown = filter (\<lambda>c. snd c \<noteq> []) caps
           in if shown = [] then say InfoL ''Capabilities: none'' h
              else foldl (\<lambda>h c. say InfoL (''Capabilities ('' @ to_lower (fst c) @ '' set): '' @ join '','' (snd c)) h) h shown))"

fun log_mounts :: "mounts \<Rightarrow> host \<Rightarrow> string option \<times> host" where
  "log_mounts [] h = (None, h)"
| "log_mounts ((p, t) # m) h =
     (let h1 = say InfoL (''Detected '' @ CHR 0x27 # t @ CHR 0x27 # '' volume mounted to '' @ p) h
      in if SupportedFilesystem t then log_mounts m h1
         else (Some (p @ '' uses unsupported filesystem type: '' @ t), h1))"

fun required_mounts :: "mounts \<Rightarrow> string list \<Rightarrow> string option" where
  "required_mounts m [] = None"
| "required_mounts m (p # ps) =
     (case map_of m p of
        None \<Rightarrow> Some (''Missing required mount '' @ CHR 0x27 # p @ CHR 0x27 # '' for a multi-instance queue manager'')
      | Some t \<Rightarrow>
          if ValidMultiInstanceFilesystem t then required_mounts m ps
          else Some (p @ '' uses filesystem type '' @ CHR 0x27 # t @ CHR 0x27
                 # '' which is invalid for a multi-instance queue manager''))"

abbreviation (input) reqMounts :: "string list" where
  "reqMounts \<equiv> [''/mnt/mqm'', ''/mnt/mqm-log'', ''/mnt/mqm-data'']"

definition log_start :: "kernel \<Rightarrow> host \<Rightarrow> host" where
  "log_start k h =
     (let h1 = say InfoL (''CPU architecture: '' @ goarch k) h;
          h2 = (case GetKernelVersion h1 of Inl e \<Rightarrow> h1 | Inr kv \<Rightarrow> say InfoL (''Linux kernel version: '' @ kv) h1);
          h3 = (case GetBaseImage h2 of Inl e \<Rightarrow> h2 | Inr bi \<Rightarrow> say InfoL (''Base image: '' @ bi) h2);
          h4 = log_capabilities k (log_user k h3);
          h5 = say InfoL (''seccomp enforcing mode: '' @ GetSeccomp k h4) h4
      in say InfoL (''Process security attributes: '' @ GetSecurityAttributes h5) h5)"

text \<open>\<open>LogContainerDetails\<close>: the returned error; the outer \<open>None\<close> is the panic of \<open>GetMounts\<close>.\<close>

definition LogContainerDetails :: "kernel \<Rightarrow> host \<Rightarrow> (string option \<times> host) option" where
  "LogContainerDetails k h =
     (if goos k \<noteq> ''linux'' then Some (Some (''Unsupported platform: '' @ goos k), h)
      else
        (let h1 = log_start k h in
         case GetMounts h1 of
           None \<Rightarrow> None
         | Some r \<Rightarrow>
             (let m = (case r of Inl e \<Rightarrow> [] | Inr m \<Rightarrow> m);
                  checked = (case r of
                               Inl e \<Rightarrow> (None, h1)
                             | Inr [] \<Rightarrow> (None, say InfoL ''No volume detected. Persistent messages may be lost'' h1)
                             | Inr (e # es) \<Rightarrow> log_mounts (e # es) h1)
              in Some (case checked of
                   (Some e, h2) \<Rightarrow> (Some e, h2)
                 | (None, h2) \<Rightarrow>
                     (let multi = (getenv h2 ''MQ_MULTI_INSTANCE'' = ''true'');
                          h3 = (if multi then say InfoL ''Multi-instance queue manager: enabled'' h2 else h2)
                      in case (if multi then required_mounts m reqMounts else None) of
                           Some e \<Rightarrow> (Some e, h3)
                         | None \<Rightarrow>
                             (None, if getenv h3 ''MQ_LOGGING_CONSOLE_FORMAT'' = [] \<and> getenv h3 ''LOG_FORMAT'' \<noteq> []
                                    then say InfoL ''Environment variable LOG_FORMAT is deprecated. Use MQ_LOGGING_CONSOLE_FORMAT instead.'' h3
                                    else h3))))))"

section \<open>Only the log changes\<close>

definition only_logs :: "host \<Rightarrow> host \<Rightarrow> bool" where
  "only_logs h h' \<longleftrightarrow> (\<exists>l. h' = h\<lparr>logs := l\<rparr>)"

lemma only_logs_refl [intro, simp]: "only_logs h h"
  unfolding only_logs_def by (intro exI [of _ "logs h"]) simp

lemma only_logs_say [simp]: "only_logs h (say l m h') = only_logs h h'"
proof
  assume "only_logs h (say l m h')"
  then obtain ls where "say l m h' = h\<lparr>logs := ls\<rparr>" by (auto simp: only_logs_def)
  then have "h' = h\<lparr>logs := logs h'\<rparr>" by (cases h; cases h') (simp add: say_def)
  then show "only_logs h h'" unfolding only_logs_def by blast
qed (auto simp: only_logs_def say_def)

lemma only_logs_trans: "only_logs h h1 \<Longrightarrow> only_logs h1 h2 \<Longrightarrow> only_logs h h2"
  by (auto simp: only_logs_def)

lemma only_logs_reads:
  assumes "only_logs h h'"
  shows "os_read p h' = os_read p h" "getenv h' k = getenv h k" "GetMounts h' = GetMounts h"
proof -
  obtain l where l: "h' = h\<lparr>logs := l\<rparr>" using assms by (auto simp: only_logs_def)
  have r: "os_read q h' = os_read q h" for q by (simp add: l os_read_def cong: option.case_cong)
  show "os_read p h' = os_read p h" "GetMounts h' = GetMounts h" by (simp_all only: r GetMounts_def readProc_def)
  show "getenv h' k = getenv h k" by (simp add: l getenv_def)
qed

lemma only_logs_foldl: "only_logs h h0 \<Longrightarrow> (\<And>s c. only_logs h (f s c) = only_logs h s) \<Longrightarrow> only_logs h (foldl f h0 cs)"
  by (induction cs arbitrary: h0) auto

lemma only_logs_log_start: "only_logs h (log_start k h)"
proof -
  have u: "only_logs h (log_user k h') = only_logs h h'" for h'
    by (simp add: log_user_def split: prod.splits option.splits)
  have c: "only_logs h (log_capabilities k h')" if "only_logs h h'" for h'
    using that by (auto simp: log_capabilities_def Let_def intro!: only_logs_foldl split: sum.splits)
  show ?thesis
    unfolding log_start_def Let_def
    by (auto simp: u intro!: c split: sum.splits)
qed

lemma log_mounts_result:
  "fst (log_mounts m h) = None \<longleftrightarrow> list_all (\<lambda>e. SupportedFilesystem (snd e)) m"
  "only_logs h0 (snd (log_mounts m h)) = only_logs h0 h"
  by (induction m h rule: log_mounts.induct) (auto simp: Let_def)

declare required_mounts.simps [simp del]

lemma required_mounts_result:
  "required_mounts m ps = None \<longleftrightarrow>
     list_all (\<lambda>p. case map_of m p of None \<Rightarrow> False | Some t \<Rightarrow> ValidMultiInstanceFilesystem t) ps"
  by (induction ps) (auto simp: required_mounts.simps split: option.splits)

lemma container_details_only_log:
  assumes "LogContainerDetails k h = Some (r, h')"
  shows "only_logs h h'"
proof (cases "goos k = ''linux''")
  case True
  note o = only_logs_log_start [of h k]
  have m: "only_logs h h2" if "log_mounts m (log_start k h) = (x, h2)" for m x h2
    using log_mounts_result(2) [of h m "log_start k h"] o that by simp
  show ?thesis
    using assms True o
    by (auto simp: LogContainerDetails_def Let_def dest!: m simp del: log_mounts.simps
        split: option.splits sum.splits list.splits prod.splits if_splits)
qed (use assms in \<open>auto simp: LogContainerDetails_def\<close>)

section \<open>Properties\<close>

text \<open>
  The server goes on after the check of the container only if every volume it sees has a supported file
  system, and for a multi-instance queue manager the three volumes are all there, on such file systems.
\<close>

theorem container_details_ok:
  assumes "LogContainerDetails k h = Some (None, h')"
  shows "only_logs h h' \<and> goos k = ''linux''
    \<and> (\<exists>m. (GetMounts h = Some (Inr m) \<or> (\<exists>e. GetMounts h = Some (Inl e) \<and> m = []))
         \<and> list_all (\<lambda>e. SupportedFilesystem (snd e)) m
         \<and> (getenv h ''MQ_MULTI_INSTANCE'' = ''true'' \<longrightarrow>
              list_all (\<lambda>p. case map_of m p of None \<Rightarrow> False | Some t \<Rightarrow> SupportedFilesystem t) reqMounts))"
proof -
  note o = only_logs_log_start [of h k]
  have linux: "goos k = ''linux''" using assms by (auto simp: LogContainerDetails_def split: if_splits)
  note d = assms [unfolded LogContainerDetails_def Let_def, simplified linux only_logs_reads(3) [OF o], simplified]
  obtain r where r: "GetMounts h = Some r" using d by (auto split: option.splits)
  define m where "m = (case r of Inl e \<Rightarrow> [] | Inr m \<Rightarrow> m)"
  obtain h2 where h2: "(case r of Inl e \<Rightarrow> (None, log_start k h)
        | Inr [] \<Rightarrow> (None, say InfoL ''No volume detected. Persistent messages may be lost'' (log_start k h))
        | Inr (e # es) \<Rightarrow> log_mounts (e # es) (log_start k h)) = (None, h2)"
    using d r by (auto split: option.splits prod.splits)
  have o2: "only_logs h h2" "list_all (\<lambda>e. SupportedFilesystem (snd e)) m"
    using h2 o log_mounts_result(1) [of m "log_start k h"] log_mounts_result(2) [of h m "log_start k h"]
    by (auto simp: m_def split: sum.splits list.splits)
  have e: "getenv h2 x = getenv h x" for x using only_logs_reads(2) [OF o2(1)] .
  have "required_mounts m reqMounts = None" if "getenv h ''MQ_MULTI_INSTANCE'' = ''true''"
    using d that by (auto simp: r h2 e m_def [symmetric] split: option.splits)
  then have "getenv h ''MQ_MULTI_INSTANCE'' = ''true'' \<longrightarrow>
      list_all (\<lambda>p. case map_of m p of None \<Rightarrow> False | Some t \<Rightarrow> SupportedFilesystem t) reqMounts"
    unfolding required_mounts_result ValidMultiInstanceFilesystem_def by blast
  moreover have "only_logs h h'"
    using d o2(1) by (auto simp: r h2 split: option.splits if_splits)
  moreover have "GetMounts h = Some (Inr m) \<or> (\<exists>e. GetMounts h = Some (Inl e) \<and> m = [])"
    using r by (cases r) (simp_all add: m_def)
  ultimately show ?thesis using linux o2(2) by blast
qed

text \<open>
  Reading the mounts panics if and only if the file can be read and one of its lines has fewer than three
  fields; an empty file is such a case. Otherwise a mount point has the type of the last line that names it.
\<close>

lemma mount_lines_result:
  "mount_lines ls m = None \<longleftrightarrow> list_ex (\<lambda>l. length (split_on CHR '' '' l) < 3) ls"
  by (induction ls m rule: mount_lines.induct) (auto simp: Let_def)

theorem GetMounts_panics_iff:
  "GetMounts h = None \<longleftrightarrow>
     (case readProc ''/proc/mounts'' h of
        Inl e \<Rightarrow> False
      | Inr all \<Rightarrow> list_ex (\<lambda>l. length (split_on CHR '' '' l) < 3) (split_on newline all))"
  by (simp add: GetMounts_def mount_lines_result split: sum.splits)

section \<open>An example\<close>

definition proc_host :: "string \<Rightarrow> host" where
  "proc_host m =
     \<lparr>env = Map.empty, files = [''/proc/mounts'' \<mapsto> m], faults = (\<lambda>_. None), clock = 0, hostname = None,
      exec = (\<lambda>_ _. \<lparr>cmd_out = [], cmd_rc = 0, cmd_err = None\<rparr>), cmds = [], logs = []\<rparr>"

definition toy_kernel :: kernel where
  "toy_kernel =
     \<lparr>goos = ''linux'', goarch = ''amd64'', euid = 1001, gid = 0, groups = Inr [], capabilities = Inr ([], [], []),
      get_einval = True, set_einval = True\<rparr>"

lemma container_details_ok_witness:
  "\<exists>h'. LogContainerDetails toy_kernel (proc_host ''/dev/v /mnt/mqm xfs rw'') = Some (None, h')
     \<and> GetMounts (proc_host ''/dev/v /mnt/mqm xfs rw'') = Some (Inr [(''/mnt/mqm'', ''xfs'')])
     \<and> only_logs (proc_host ''/dev/v /mnt/mqm xfs rw'') h'"
proof -
  let ?h = "proc_host ''/dev/v /mnt/mqm xfs rw''"
  have "map_option fst (LogContainerDetails toy_kernel ?h) = Some None" by code_simp
  then obtain h' where r: "LogContainerDetails toy_kernel ?h = Some (None, h')" by auto
  moreover have "GetMounts ?h = Some (Inr [(''/mnt/mqm'', ''xfs'')])" by code_simp
  ultimately show ?thesis using container_details_ok [OF r] by blast
qed

end
