(* ===== verification/Qmgr.thy ===== *)
theory Qmgr
  imports Container_Runtime Mq_Version Ready Redact
begin

text \<open>
  cmd/runmqserver/qmgr.go: creating, starting and stopping the queue manager, cmd/runmqserver/process.go and
  version.go. The commands of MQ are those of the host; the diagnostics of a debug run, the text of a number
  that does not parse and the limit of open files are parameters.
\<close>

section \<open>The directories\<close>

definition symlink_warning :: string where
  "symlink_warning =
     ''The filesystem object '' @ CHR 0x27
       # ''/mnt/mqm/data/web/installations/Installation1/servers/mqweb/mqwebuser.xml'' @ CHR 0x27 # '' is a symbolic link.''"

definition createDirStructure :: "(host \<Rightarrow> host) \<Rightarrow> host \<Rightarrow> string option \<times> host" where
  "createDirStructure logDiagnostics h =
     (case run_cmd [''/opt/mqm/bin/crtmqdir'', ''-f'', ''-a''] (logDiagnostics h) of
        (r, h1) \<Rightarrow>
          (let finish = (\<lambda>h2. (None, logDiagnostics (say InfoL ''Created directory structure under /var/mqm'' h2))) in
           case cmd_err r of
             None \<Rightarrow> finish h1
           | Some e \<Rightarrow>
               if cmd_rc r = 10 then
                 finish (if join '' '' (str_fields (cmd_out r)) = symlink_warning then h1
                         else say InfoL (''Warning creating directory structure: '' @ cmd_out r @ [newline]) h1)
               else (Some e, say InfoL (''Error creating directory structure: the '' @ CHR 0x27 # ''crtmqdir'' @ CHR 0x27
                               # '' command returned with code: '' @ itoa (cmd_rc r) @ ''. Reason: '' @ cmd_out r @ [newline]) h1)))"

definition replaceCharsInQMName :: "string \<Rightarrow> string" where
  "replaceCharsInQMName qmname = replace_char CHR ''/'' ''&'' (replace_char CHR ''.'' ''!'' qmname)"

definition getQueueManagerDataDir :: "mounts \<Rightarrow> string \<Rightarrow> string" where
  "getQueueManagerDataDir m name =
     (if map_of m ''/mnt/mqm-data'' \<noteq> None then CleanPath [''/mnt/mqm-data/qmgrs'', name]
      else CleanPath [''/var/mqm/qmgrs'', name])"

section \<open>Creating\<close>

definition readQMIni :: "string \<Rightarrow> host \<Rightarrow> (io_error, string) result" where
  "readQMIni dataDir h = os_read (CleanPath [dataDir, ''qm.ini'']) h"

definition validateLogFilePageSetting :: "string \<Rightarrow> string \<Rightarrow> bool" where
  "validateLogFilePageSetting ini logFilePages \<longleftrightarrow> contains ini (''LogFilePages='' @ logFilePages)"

text \<open>The arguments but for those that depend on the number of log file pages, and the name.\<close>

definition create_flags :: "mounts \<Rightarrow> bool \<Rightarrow> string \<Rightarrow> host \<Rightarrow> string list" where
  "create_flags m devMode oaVal h =
     [''-ii'', ''/etc/mqm/'', ''-ic'', ''/etc/mqm/'', ''-q'', ''-p'', ''1414'']
     @ (if getenv h ''MQ_NATIVE_HA'' = ''true'' then [''-lr'', getenv h ''HOSTNAME''] else [])
     @ (if devMode then [''-oa'', oaVal] else [])
     @ (if map_of m ''/mnt/mqm-log'' \<noteq> None then [''-ld'', ''/mnt/mqm-log/log''] else [])
     @ (if map_of m ''/mnt/mqm-data'' \<noteq> None then [''-md'', ''/mnt/mqm-data/qmgrs''] else [])"

text \<open>The error of a comparison comes with the result 0.\<close>

definition getCreateQueueManagerArgs ::
    "(string \<Rightarrow> string) \<Rightarrow> mounts \<Rightarrow> string \<Rightarrow> bool \<Rightarrow> host \<Rightarrow> string list \<times> host" where
  "getCreateQueueManagerArgs atoi_error m name devMode h =
     (case Compare ''9.2.1.0'' h of
        (r, h1) \<Rightarrow>
          (let h2 = (case r of Inl e \<Rightarrow> say InfoL ''Error comparing MQ versions for oa,rc: 0'' h1 | Inr _ \<Rightarrow> h1);
               oaVal = (if (case r of Inl e \<Rightarrow> 0 | Inr c \<Rightarrow> c) \<ge> 0 then ''UserExternal'' else ''user'');
               args = create_flags m devMode oaVal h2;
               lfp = getenv h2 ''MQ_QMGR_LOG_FILE_PAGES''
           in if lfp = [] then (args @ [name], h2)
              else if parse_int64 lfp = None then
                (args @ [name],
                 say InfoL (''Error processing MQ_QMGR_LOG_FILE_PAGES, the default value for LogFilePages will be used. Err: ''
                            @ atoi_error lfp) h2)
              else (args @ [''-lf'', lfp] @ [name], h2)))"

definition getCreateStandbyQueueManagerArgs :: "string \<Rightarrow> string list" where
  "getCreateStandbyQueueManagerArgs name =
     [''-s'', ''QueueManager'', ''-v'', ''Name='' @ name, ''-v'', ''Directory='' @ name, ''-v'', ''Prefix=/var/mqm'',
      ''-v'', ''DataPath=/mnt/mqm-data/qmgrs/'' @ name]"

definition command_failed :: "string \<Rightarrow> string \<Rightarrow> cmd_result \<Rightarrow> string" where
  "command_failed what command r =
     ''Error '' @ what @ '': the '' @ CHR 0x27 # command @ CHR 0x27 # '' command returned with code: '' @ itoa (cmd_rc r)
       @ ''. Reason: '' @ cmd_out r"

definition check_log_file_pages :: "string \<Rightarrow> host \<Rightarrow> (string, bool) result \<times> host" where
  "check_log_file_pages dataDir h =
     (let lfp = getenv h ''MQ_QMGR_LOG_FILE_PAGES''
      in if lfp = [] then (Inr False, h)
         else (case readQMIni dataDir h of
                 Inl e \<Rightarrow> (Inl (err_text e), say InfoL (''Error reading qm.ini : '' @ err_text e) h)
               | Inr ini \<Rightarrow>
                   (Inr False,
                    if validateLogFilePageSetting ini lfp then h
                    else say InfoL (''Warning: the value of MQ_QMGR_LOG_FILE_PAGES does not match the value of '' @ CHR 0x27
                           # ''LogFilePages'' @ CHR 0x27 # '' in the qm.ini. This setting cannot be altered after Queue Manager creation.'') h)))"

text \<open>\<open>createQueueManager\<close>: whether one was created; the outer \<open>None\<close> is the panic of \<open>GetMounts\<close>.\<close>

definition createQueueManager ::
    "(string \<Rightarrow> string) \<Rightarrow> string \<Rightarrow> bool \<Rightarrow> host \<Rightarrow> ((string, bool) result \<times> host) option" where
  "createQueueManager atoi_error name devMode h0 =
     (let h = say InfoL (''Creating queue manager '' @ name) h0 in
      case GetMounts h of
        None \<Rightarrow> None
      | Some (Inl e) \<Rightarrow> Some (Inl e, say InfoL ''Error getting mounts for queue manager'' h)
      | Some (Inr m) \<Rightarrow>
          (let dataDir = getQueueManagerDataDir m (replaceCharsInQMName name) in
           Some (case run_cmd [''dspmqinf'', name] h of
             (found, h1) \<Rightarrow>
               if cmd_err found = None then
                 check_log_file_pages dataDir (say InfoL (''Detected existing queue manager '' @ name) h1)
               else if os_stat (CleanPath [dataDir, ''qm.ini'']) h1 \<noteq> None then
                 (case getCreateQueueManagerArgs atoi_error m name devMode h1 of
                    (args, h2) \<Rightarrow>
                      (case run_cmd (''crtmqm'' # args) h2 of
                         (r, h3) \<Rightarrow>
                           (case cmd_err r of
                              Some e \<Rightarrow> (Inl e, say InfoL (command_failed ''creating queue manager'' ''crtmqm'' r) h3)
                            | None \<Rightarrow> (Inr True, say InfoL ''Created queue manager'' h3))))
               else
                 (case run_cmd (''addmqinf'' # getCreateStandbyQueueManagerArgs name) h1 of
                    (r, h3) \<Rightarrow>
                      (case cmd_err r of
                         Some e \<Rightarrow> (Inl e, say InfoL (command_failed ''creating standby queue manager'' ''addmqinf'' r) h3)
                       | None \<Rightarrow> (Inr True, say InfoL ''Created standby queue manager'' h3))))))"

section \<open>Starting and stopping\<close>

definition updateCommandLevel :: "host \<Rightarrow> string option \<times> host" where
  "updateCommandLevel h =
     (case env h ''MQ_CMDLEVEL'' of
        None \<Rightarrow> (None, h)
      | Some level \<Rightarrow>
          if level = [] then (None, h)
          else (case run_cmd [''strmqm'', ''-e'', ''CMDLEVEL='' @ level] (say InfoL (''Setting CMDLEVEL to '' @ level) h) of
                  (r, h1) \<Rightarrow>
                    (case cmd_err r of
                       None \<Rightarrow> (None, h1)
                     | Some e \<Rightarrow> (Some e, say InfoL (command_failed ''setting CMDLEVEL for queue manager'' ''strmqm'' r) h1))))"

text \<open>
  \<open>setNoFileSoftLimitEqualToHardLimit\<close>, with what the two system calls answer as arguments: its error, and the limits it
  set, if it came so far. In the functions below its error is an argument.
\<close>

record rlimit =
  rl_Cur :: nat
  rl_Max :: nat

definition setNoFileSoftLimitEqualToHardLimit ::
    "(string, rlimit) result \<Rightarrow> (rlimit \<Rightarrow> string option) \<Rightarrow> string option \<times> rlimit option" where
  "setNoFileSoftLimitEqualToHardLimit getrlimit setrlimit =
     (case getrlimit of
        Inl e \<Rightarrow> (Some e, None)
      | Inr l \<Rightarrow>
          (let l1 = l\<lparr>rl_Cur := rl_Max l\<rparr>
           in case setrlimit l1 of Some e \<Rightarrow> (Some e, None) | None \<Rightarrow> (None, Some l1)))"

lemma soft_limit_raised:
  "setNoFileSoftLimitEqualToHardLimit getrlimit setrlimit = (e, limits) \<Longrightarrow>
     (e = None \<longleftrightarrow> (\<exists>l. getrlimit = Inr l \<and> limits = Some (l\<lparr>rl_Cur := rl_Max l\<rparr>)))"
  by (auto simp: setNoFileSoftLimitEqualToHardLimit_def Let_def dest: sym split: sum.splits option.splits)

definition raise_file_limit :: "string option \<Rightarrow> host \<Rightarrow> host" where
  "raise_file_limit limitError h =
     (if getenv h ''MQ_ENABLE_SOFT_FILE_LIMIT_INCREASE'' = ''true'' then
        (case limitError of
           None \<Rightarrow> h
         | Some e \<Rightarrow> say InfoL (''Warning: Unable to increase the soft limit for the number of open files. Err: '' @ e) h)
      else h)"

definition startQueueManager :: "string option \<Rightarrow> string \<Rightarrow> host \<Rightarrow> string option \<times> host" where
  "startQueueManager limitError name h =
     (case run_cmd [''strmqm'', ''-x'', name] (say InfoL ''Starting queue manager'' (raise_file_limit limitError h)) of
        (r, h1) \<Rightarrow>
          (case cmd_err r of
             None \<Rightarrow> (None, say InfoL ''Started queue manager'' h1)
           | Some e \<Rightarrow>
               if cmd_rc r = 30 then (None, say InfoL ''Started standby queue manager'' h1)
               else if cmd_rc r = 94 then (None, say InfoL ''Started replica queue manager'' h1)
               else (Some e, say InfoL (command_failed ''starting queue manager'' ''strmqm'' r) h1)))"

definition endmqm_args :: "host \<Rightarrow> bool \<Rightarrow> string \<Rightarrow> string \<Rightarrow> string list" where
  "endmqm_args h isStandby qmGracePeriodStr name =
     (if getenv h ''MQ_MULTI_INSTANCE'' = ''true'' then
        (if isStandby then [''-x'', name] else [''-s'', ''-w'', ''-tp'', qmGracePeriodStr, name])
      else [''-w'', ''-r'', ''-tp'', qmGracePeriodStr, name])"

definition stopQueueManager :: "(string \<Rightarrow> string) \<Rightarrow> string \<Rightarrow> host \<Rightarrow> string option \<times> host" where
  "stopQueueManager atoi_error name h0 =
     (let h = say InfoL ''Stopping queue manager'' h0;
          given = getenv h ''MQ_GRACE_PERIOD'';
          h1 = (if parse_int64 given = None
                then say InfoL (''Error processing MQ_GRACE_PERIOD, the default value for QM Grace Period will be used. Err: ''
                                @ atoi_error given) h
                else h);
          qmGracePeriod = (case parse_int64 given of None \<Rightarrow> 30 | Some n \<Rightarrow> n)
      in case ReadyStatus name h1 of
           ((status, Some e), h2) \<Rightarrow>
             (Some e, say InfoL (''Error getting status for queue manager '' @ name @ ''. The '' @ CHR 0x27 # ''dspmq'' @ CHR 0x27
                                 # '' command returned reason: '' @ e) h2)
         | ((status, None), h2) \<Rightarrow>
             (case run_cmd (''endmqm'' # endmqm_args h2 (StandbyQM status) (itoa qmGracePeriod) name) h2 of
                (r, h3) \<Rightarrow>
                  (case cmd_err r of
                     Some e \<Rightarrow> (Some e, say InfoL (''Error stopping queue manager: the '' @ CHR 0x27 # ''endmqm'' @ CHR 0x27
                                   # '' command returned with code: '' @ itoa (cmd_rc r) @ ''.  Reason: '' @ cmd_out r) h3)
                   | None \<Rightarrow> (None, say InfoL (if StandbyQM status then ''Stopped standby queue manager''
                                               else ''Stopped queue manager'') h3))))"

definition mq_trace :: "string \<Rightarrow> string \<Rightarrow> string \<Rightarrow> string \<Rightarrow> host \<Rightarrow> string option \<times> host" where
  "mq_trace doing begin_text end_text command h =
     (case run_cmd [command] (say InfoL begin_text h) of
        (r, h1) \<Rightarrow>
          (case cmd_err r of
             Some e \<Rightarrow> (Some e, say InfoL (''Error '' @ doing @ '' MQ trace: the '' @ CHR 0x27 # command @ CHR 0x27
                                 # '' command returned with code: '' @ itoa (cmd_rc r) @ ''.  Reason: '' @ cmd_out r) h1)
           | None \<Rightarrow> (None, say InfoL end_text h1)))"

definition startMQTrace :: "host \<Rightarrow> string option \<times> host" where
  "startMQTrace = mq_trace ''starting'' ''Starting MQ trace'' ''Started MQ trace'' ''strmqtrc''"

definition endMQTrace :: "host \<Rightarrow> string option \<times> host" where
  "endMQTrace = mq_trace ''ending'' ''Ending MQ Trace'' ''Ended MQ trace'' ''endmqtrc''"

definition formatMQSCOutput :: "string \<Rightarrow> string" where
  "formatMQSCOutput out = replace_char newline [newline, CHR 0x09] (Redact out)"

definition isStandbyQueueManager :: "string \<Rightarrow> host \<Rightarrow> (string, bool) result \<times> host" where
  "isStandbyQueueManager name h =
     (case run_cmd [''dspmq'', ''-n'', ''-m'', name] h of
        (r, h1) \<Rightarrow>
          (case cmd_err r of
             Some e \<Rightarrow> (Inl e, say InfoL (''Error while getting status for queue manager '' @ name @ '': the '' @ CHR 0x27
                          # ''dspmq'' @ CHR 0x27 # '' command returned with code: '' @ itoa (cmd_rc r) @ ''.  Reason: '' @ cmd_out r) h1)
           | None \<Rightarrow> (Inr (contains (cmd_out r) ''(RUNNING AS STANDBY)''), h1)))"

section \<open>The service component of simple authentication\<close>

text \<open>
  \<open>updateQMini\<close>. The regular expression matches five lines that follow each other and contain the five words; the
  line break after the last one stays. \<open>strconv.ParseBool\<close> is applied to lower-case text.
\<close>

definition parse_bool_lower :: "string \<Rightarrow> bool option" where
  "parse_bool_lower v =
     (if v \<in> {''1'', ''t'', ''true''} then Some True
      else if v \<in> {''0'', ''f'', ''false''} then Some False else None)"

definition component_words :: "string list" where
  "component_words = [''ServiceComponent'', ''Service'', ''Name'', ''Module'', ''ComponentDataSize'']"

definition component_lines :: "string list \<Rightarrow> bool" where
  "component_lines ls \<longleftrightarrow> list_all2 contains ls component_words"

function strip_components :: "string list \<Rightarrow> string list" where
  "strip_components ls =
     (if component_lines (take 5 ls) then [] # strip_components (drop 5 ls)
      else (case ls of [] \<Rightarrow> [] | l # ls1 \<Rightarrow> l # strip_components ls1))"
  by pat_completeness auto
termination
  by (relation "measure length") (auto simp: component_lines_def component_words_def dest: list_all2_lengthD)

declare strip_components.simps [simp del]

definition updateQMini :: "(string \<Rightarrow> string) \<Rightarrow> string \<Rightarrow> host \<Rightarrow> (string option \<times> host) option" where
  "updateQMini parse_bool_error qmname h =
     (case env h ''MQ_CONNAUTH_USE_HTP'' of
        None \<Rightarrow> Some (None, h)
      | Some val \<Rightarrow>
          (case parse_bool_lower (to_lower val) of
             None \<Rightarrow> Some (Some (parse_bool_error (to_lower val)), h)
           | Some False \<Rightarrow> Some (None, h)
           | Some True \<Rightarrow>
               (let h1 = say InfoL ''Removing existing ServiceComponent configuration'' h in
                case GetMounts h1 of
                  None \<Rightarrow> None
                | Some (Inl e) \<Rightarrow> Some (Some e, say InfoL ''Error getting mounts for queue manager'' h1)
                | Some (Inr m) \<Rightarrow>
                    (let p = CleanPath [getQueueManagerDataDir m (replaceCharsInQMName qmname), ''qm.ini''] in
                     Some (case os_read p h1 of
                       Inl e \<Rightarrow> (Some (err_text e), h1)
                     | Inr ini \<Rightarrow>
                         if contains ini ''ServiceComponent:'' then
                           (case os_write p (join [newline] (strip_components (split_on newline ini))) h1 of
                              (Some e, h2) \<Rightarrow> (Some (err_text e), h2)
                            | (None, h2) \<Rightarrow> (None, h2))
                         else (None, h1))))))"

section \<open>One instance only\<close>

definition verifyOnlyOne :: "string \<Rightarrow> host \<Rightarrow> (nat \<times> string option) \<times> host" where
  "verifyOnlyOne programName h =
     (case run_cmd [''pgrep'', programName] h of
        (r, h1) \<Rightarrow>
          (case cmd_err r of
             Some e \<Rightarrow> ((1, None), say DebugL (''Failed to confirm single process: '' @ e) h1)
           | None \<Rightarrow>
               (let numOfProg = count_list (cmd_out r) newline
                in if numOfProg \<noteq> 1
                   then ((numOfProg, Some (''Expected there to be only 1 instance of '' @ programName @ '' but found ''
                            @ itoa (int numOfProg))), h1)
                   else ((numOfProg, None), h1))))"

text \<open>The program's own path is an argument; \<open>filepath.Split\<close> gives what follows the last slash.\<close>

definition determineExecutable :: "(string, string) result \<Rightarrow> (string, string) result" where
  "determineExecutable executable =
     map_sum id (\<lambda>file. rev (takeWhile (\<lambda>c. c \<noteq> CHR ''/'') (rev file))) executable"

definition verifySingleProcess :: "(string, string) result \<Rightarrow> host \<Rightarrow> string option \<times> host" where
  "verifySingleProcess executable h =
     (case determineExecutable executable of
        Inl e \<Rightarrow> (Some (''Failed to determine name of this program - '' @ e), h)
      | Inr programName \<Rightarrow>
          (case verifyOnlyOne programName h of
             ((n, Some e), h1) \<Rightarrow> (Some ''You cannot run more than one instance of this program'', h1)
           | ((n, None), h1) \<Rightarrow> (None, h1)))"

section \<open>Versions in the log\<close>

record image_info =
  ImageCreated :: string
  ImageTag :: string

definition trim_newline :: "string \<Rightarrow> string" where
  "trim_newline s = (if s \<noteq> [] \<and> last s = newline then butlast s else s)"

definition logMQVersion :: "host \<Rightarrow> host" where
  "logMQVersion h =
     (case GetVersion h of
        (v, h1) \<Rightarrow>
          (let mqVersion = (case v of Inl e \<Rightarrow> [] | Inr s \<Rightarrow> s);
               h2 = (case v of Inl e \<Rightarrow> say InfoL ''Error Getting MQ version: '' h1 | Inr s \<Rightarrow> h1) in
           case run_cmd [''dspmqver'', ''-b'', ''-f'', ''4''] h2 of
             (b, h3) \<Rightarrow>
               (let h4 = (if cmd_err b = None then h3
                          else say InfoL (''Error Getting MQ build: '' @ trim_newline (cmd_out b)) h3) in
                case run_cmd [''dspmqver'', ''-b'', ''-f'', ''8192''] h4 of
                  (l, h5) \<Rightarrow>
                    (let h6 = (if cmd_err l = None then h5
                               else say InfoL (''Error Getting MQ license: '' @ trim_newline (cmd_out l)) h5)
                     in say InfoL (''MQ license: '' @ trim_newline (cmd_out l))
                          (say InfoL (''MQ level: '' @ trim_newline (cmd_out b))
                            (say InfoL (''MQ version: '' @ trim_newline mqVersion) h6))))))"

definition logVersionInfo :: "image_info \<Rightarrow> host \<Rightarrow> host" where
  "logVersionInfo i h =
     logMQVersion (say InfoL (''Image tag: '' @ ImageTag i) (say InfoL (''Image created: '' @ ImageCreated i) h))"

section \<open>What is created\<close>

lemma cmds_say [simp]: "cmds (say l m h) = cmds h" "exec (say l m h) = exec h"
  by (simp_all add: say_def)

lemma os_stat_frame [simp]:
  "os_stat p (say l m h) = os_stat p h" "os_stat p (h\<lparr>cmds := c\<rparr>) = os_stat p h"
  by (simp_all add: os_stat_def say_def cong: option.case_cong)

lemma GetMounts_say [simp]: "GetMounts (say l m h) = GetMounts h"
  by (rule only_logs_reads(3)) simp

lemma Compare_host: "snd (Compare v h) = h\<lparr>cmds := cmds h @ [[''dspmqver'', ''-b'', ''-f'', ''2'']]\<rparr>"
  by (auto simp: Compare_def GetVersion_def run_cmd_def split: option.splits sum.splits)

lemma create_args:
  assumes "getCreateQueueManagerArgs ae m name dev h = (args, h')"
  shows "cmds h' = cmds h @ [[''dspmqver'', ''-b'', ''-f'', ''2'']]" "files h' = files h" "exec h' = exec h" "last args = name"
proof -
  obtain q where c: "Compare ''9.2.1.0'' h = (q, h\<lparr>cmds := cmds h @ [[''dspmqver'', ''-b'', ''-f'', ''2'']]\<rparr>)"
    using Compare_host [of "''9.2.1.0''" h] by (metis prod.collapse)
  show "cmds h' = cmds h @ [[''dspmqver'', ''-b'', ''-f'', ''2'']]" "files h' = files h" "exec h' = exec h" "last args = name"
    using assms by (auto simp: getCreateQueueManagerArgs_def c Let_def split: if_splits sum.splits)
qed

lemma check_log_file_pages_result:
  assumes "check_log_file_pages d h = (r, h')"
  shows "cmds h' = cmds h \<and> files h' = files h \<and> r \<noteq> Inr True"
  using assms by (auto simp: check_log_file_pages_def Let_def split: sum.splits if_splits)

text \<open>
  C31. A queue manager is created with crtmqm only when it is neither registered nor has a qm.ini file in its data
  directory; with that file it is registered as a standby with addmqinf; a registered one is left alone. No other
  command runs (but the question for the version), and no file is changed.
\<close>

theorem creation_command:
  assumes "createQueueManager atoi_error name devMode h = Some (r, h')"
  shows "files h' = files h
    \<and> (case GetMounts h of
         Some (Inr m) \<Rightarrow>
           (if cmd_err (exec h (cmds h) [''dspmqinf'', name]) = None then
              cmds h' = cmds h @ [[''dspmqinf'', name]] \<and> r \<noteq> Inr True
            else if os_stat (CleanPath [getQueueManagerDataDir m (replaceCharsInQMName name), ''qm.ini'']) h = None then
              cmds h' = cmds h @ [[''dspmqinf'', name], ''addmqinf'' # getCreateStandbyQueueManagerArgs name]
              \<and> r \<noteq> Inr False
            else (\<exists>args. cmds h' = cmds h @ [[''dspmqinf'', name], [''dspmqver'', ''-b'', ''-f'', ''2''], ''crtmqm'' # args]
                   \<and> last args = name) \<and> r \<noteq> Inr False)
       | _ \<Rightarrow> cmds h' = cmds h \<and> (\<exists>e. r = Inl e))"
proof -
  let ?h = "say InfoL (''Creating queue manager '' @ name) h"
  note d = assms [unfolded createQueueManager_def, simplified Let_def GetMounts_say]
  show ?thesis
  proof (cases "GetMounts h")
    case None
    then show ?thesis using d by simp
  next
    case (Some q)
    show ?thesis
    proof (cases q)
      case (Inl e)
      then show ?thesis using d Some by auto
    next
      case (Inr m)
      let ?p = "CleanPath [getQueueManagerDataDir m (replaceCharsInQMName name), ''qm.ini'']"
      let ?found = "exec h (cmds h) [''dspmqinf'', name]"
      let ?h1 = "?h\<lparr>cmds := cmds h @ [[''dspmqinf'', name]]\<rparr>"
      have run: "run_cmd [''dspmqinf'', name] ?h = (?found, ?h1)" by (simp add: run_cmd_def)
      consider "cmd_err ?found = None" | "cmd_err ?found \<noteq> None" "os_stat ?p h = None"
        | "cmd_err ?found \<noteq> None" "os_stat ?p h \<noteq> None" by blast
      then show ?thesis
      proof cases
        case 1
        then have "check_log_file_pages (getQueueManagerDataDir m (replaceCharsInQMName name))
            (say InfoL (''Detected existing queue manager '' @ name) ?h1) = (r, h')"
          using d Some Inr run by simp
        from check_log_file_pages_result [OF this] show ?thesis using 1 Some Inr by simp
      next
        case 2
        then show ?thesis using d Some Inr run
          by (auto simp: run_cmd_def split: option.splits)
      next
        case 3
        obtain args h2 where a: "getCreateQueueManagerArgs atoi_error m name devMode ?h1 = (args, h2)" by fastforce
        note c = create_args [OF a]
        show ?thesis using 3 d Some Inr run a c(2)
          by (auto simp: run_cmd_def c(1,4) split: option.splits)
      qed
    qed
  qed
qed

text \<open>
  The directory that a standby is registered with is the one in which its qm.ini was found only for names
  without a dot or slash, the characters that MQ replaces in the names of directories.
\<close>

lemma replace_char_id: "replace_char c [d] s = s \<longleftrightarrow> c \<notin> set s" if "c \<noteq> d"
  using that by (induction s) auto

lemma replaceChars_id: "replaceCharsInQMName name = name \<longleftrightarrow> CHR ''.'' \<notin> set name \<and> CHR ''/'' \<notin> set name"
proof -
  have l: "length (replace_char c [d] s) = length s" for c d s by (induction s) auto
  have n: "replace_char c [d] s ! i = (if s ! i = c then d else s ! i)" if "i < length s" for c d s i
    using that by (induction s arbitrary: i) (auto simp: nth_Cons split: nat.splits)
  have "replaceCharsInQMName name ! i =
      (if name ! i = CHR ''.'' then CHR ''!'' else if name ! i = CHR ''/'' then CHR ''&'' else name ! i)"
    if "i < length name" for i
    using that by (simp add: replaceCharsInQMName_def n l)
  then show ?thesis
    by (auto simp: list_eq_iff_nth_eq in_set_conv_nth l replaceCharsInQMName_def [symmetric])
      (simp_all add: replaceCharsInQMName_def l)
qed

theorem standby_data_path:
  "last (getCreateStandbyQueueManagerArgs name) = ''DataPath=/mnt/mqm-data/qmgrs/'' @ replaceCharsInQMName name
   \<longleftrightarrow> CHR ''.'' \<notin> set name \<and> CHR ''/'' \<notin> set name"
  using replaceChars_id [of name] by (auto simp: getCreateStandbyQueueManagerArgs_def)

text \<open>
  The comparison of the number of log file pages with the one in qm.ini also accepts every number that only
  starts with the one asked for.
\<close>

theorem log_file_pages_prefix:
  "validateLogFilePageSetting (before @ ''LogFilePages='' @ asked @ more_digits @ after) asked"
proof -
  have "sublist (''LogFilePages='' @ asked) (before @ (''LogFilePages='' @ asked) @ (more_digits @ after))"
    by (rule sublist_appendI)
  then show ?thesis by (simp add: validateLogFilePageSetting_def)
qed

section \<open>How it is started and stopped\<close>

text \<open>
  Stopping asks for the status and then ends the queue manager in the way that fits: without multi-instance
  it waits and lets clients reconnect, also on a standby; with it an active instance is switched over and a standby
  instance only ended itself. The grace period is 30 seconds unless a number is given.
\<close>

theorem stop_commands:
  "cmds (snd (stopQueueManager ae name h)) =
     (let status = exec h (cmds h) [''dspmq'', ''-n'', ''-m'', name];
          t = itoa (case parse_int64 (getenv h ''MQ_GRACE_PERIOD'') of None \<Rightarrow> 30 | Some n \<Rightarrow> n)
      in cmds h @ [[''dspmq'', ''-n'', ''-m'', name]]
         @ (if cmd_err status \<noteq> None then []
            else [''endmqm'' #
                  (if getenv h ''MQ_MULTI_INSTANCE'' \<noteq> ''true'' then [''-w'', ''-r'', ''-tp'', t, name]
                   else if StandbyQM (status_of_output (cmd_out status)) then [''-x'', name]
                   else [''-s'', ''-w'', ''-tp'', t, name])]))"
proof -
  have g: "getenv (h\<lparr>cmds := c\<rparr>) k = getenv h k" "getenv (say l m h) k = getenv h k" for h c k l m
    by (simp_all add: getenv_def)
  show ?thesis
    by (cases "cmd_err (exec h (cmds h) [''dspmq'', ''-n'', ''-m'', name])";
        cases "parse_int64 (getenv h ''MQ_GRACE_PERIOD'')")
      (auto simp: stopQueueManager_def ReadyStatus_def run_cmd_def Let_def g endmqm_args_def split: option.splits)
qed

text \<open>The start succeeds exactly when strmqm does, or reports a standby or a replica.\<close>

theorem start_result:
  "fst (startQueueManager le name h) = None \<longleftrightarrow>
     (case exec h (cmds h) [''strmqm'', ''-x'', name] of r \<Rightarrow> cmd_err r = None \<or> cmd_rc r \<in> {30, 94})"
  by (auto simp: startQueueManager_def run_cmd_def raise_file_limit_def split: option.splits)

section \<open>What is left in qm.ini\<close>

lemma strip_components_Nil [simp]: "strip_components [] = []"
  by (simp add: strip_components.simps component_lines_def component_words_def)

lemma strip_components_match:
  "component_lines (take 5 ls) \<Longrightarrow> strip_components ls = [] # strip_components (drop 5 ls)"
  by (simp add: strip_components.simps [of ls])

lemma strip_components_Cons:
  "\<not> component_lines (take 5 (l # ls)) \<Longrightarrow> strip_components (l # ls) = l # strip_components ls"
  by (simp add: strip_components.simps [of "l # ls"])

definition has_component :: "string list \<Rightarrow> bool" where
  "has_component ls \<longleftrightarrow> (\<exists>k. component_lines (take 5 (drop k ls)))"

lemma has_component_Cons: "has_component (l # ls) \<longleftrightarrow> component_lines (take 5 (l # ls)) \<or> has_component ls"
proof -
  have "(\<exists>k. component_lines (take 5 (drop k (l # ls)))) \<longleftrightarrow>
      component_lines (take 5 (l # ls)) \<or> (\<exists>k. component_lines (take 5 (drop (Suc k) (l # ls))))"
    by (metis drop0 not0_implies_Suc)
  then show ?thesis by (simp add: has_component_def)
qed

lemma component_lines_nonempty: "component_lines ls \<Longrightarrow> [] \<notin> set ls \<and> length ls = 5"
  by (auto simp: component_lines_def component_words_def list_all2_Cons2)

lemma take_strip_components:
  "[] \<notin> set (take k (strip_components ls)) \<Longrightarrow> take k (strip_components ls) = take k ls"
proof (induction k arbitrary: ls)
  case (Suc k)
  show ?case
  proof (cases "component_lines (take 5 ls)")
    case True
    then show ?thesis using Suc.prems by (simp add: strip_components_match)
  next
    case False
    then show ?thesis using Suc by (cases ls) (simp_all add: strip_components_Cons)
  qed
qed simp

lemma strip_components_free: "\<not> has_component (strip_components ls)"
proof (induction ls rule: strip_components.induct)
  case (1 ls)
  show ?case
  proof (cases "component_lines (take 5 ls)")
    case True
    then have "strip_components ls = [] # strip_components (drop 5 ls)" by (rule strip_components_match)
    moreover have "\<not> component_lines (take 5 ([] # strip_components (drop 5 ls)))"
      using component_lines_nonempty by fastforce
    ultimately show ?thesis using 1(1) [OF True] by (simp add: has_component_Cons)
  next
    case False
    show ?thesis
    proof (cases ls)
      case Nil
      then show ?thesis by (simp add: has_component_def component_lines_def component_words_def)
    next
      case (Cons l ls1)
      then have s: "strip_components ls = l # strip_components ls1"
        using False by (simp add: strip_components_Cons)
      have "\<not> component_lines (take 5 (l # strip_components ls1))"
      proof
        assume c: "component_lines (take 5 (l # strip_components ls1))"
        then have "[] \<notin> set (take 4 (strip_components ls1))" using component_lines_nonempty by fastforce
        then have "take 4 (strip_components ls1) = take 4 ls1" by (rule take_strip_components)
        then show False using c False Cons by (simp add: numeral_eq_Suc)
      qed
      then show ?thesis using 1(2) [OF False Cons] by (simp add: s has_component_Cons)
    qed
  qed
qed

lemma strip_components_id: "\<not> has_component ls \<Longrightarrow> strip_components ls = ls"
proof (induction ls)
  case (Cons l ls)
  then show ?case by (simp add: has_component_Cons strip_components_Cons)
qed simp

text \<open>
  After the update no five lines of a service component are left in the file, so doing it again changes
  nothing; the lines that stay are those of the file, in order, with an empty one for each component.
\<close>

theorem components_stripped:
  "\<not> has_component (strip_components ls)
   \<and> strip_components (strip_components ls) = strip_components ls
   \<and> (\<exists>ps. concat (map fst ps) = ls \<and> concat (map snd ps) = strip_components ls
        \<and> list_all (\<lambda>(old, new). old = new \<and> \<not> component_lines old \<or> component_lines old \<and> new = [[]]) ps)"
proof -
  have "\<exists>ps. concat (map fst ps) = ls \<and> concat (map snd ps) = strip_components ls
        \<and> list_all (\<lambda>(old, new). old = new \<and> \<not> component_lines old \<or> component_lines old \<and> new = [[]]) ps"
  proof (induction ls rule: strip_components.induct)
    case (1 ls)
    show ?case
    proof (cases "component_lines (take 5 ls)")
      case True
      obtain ps where ps: "concat (map fst ps) = drop 5 ls" "concat (map snd ps) = strip_components (drop 5 ls)"
          "list_all (\<lambda>(old, new). old = new \<and> \<not> component_lines old \<or> component_lines old \<and> new = [[]]) ps"
        using 1(1) [OF True] by blast
      then show ?thesis using True
        by (intro exI [of _ "(take 5 ls, [[]]) # ps"]) (simp add: strip_components_match)
    next
      case False
      show ?thesis
      proof (cases ls)
        case Nil
        then show ?thesis by (intro exI [of _ "[]"]) simp
      next
        case (Cons l ls1)
        obtain ps where ps: "concat (map fst ps) = ls1" "concat (map snd ps) = strip_components ls1"
            "list_all (\<lambda>(old, new). old = new \<and> \<not> component_lines old \<or> component_lines old \<and> new = [[]]) ps"
          using 1(2) [OF False Cons] by blast
        have "\<not> component_lines [l]" using component_lines_nonempty by fastforce
        then show ?thesis using False ps
          by (intro exI [of _ "([l], [l]) # ps"]) (simp add: Cons strip_components_Cons)
      qed
    qed
  qed
  then show ?thesis using strip_components_free strip_components_id by blast
qed

section \<open>An example\<close>

lemma creation_command_witness:
  "\<exists>r h'. createQueueManager (\<lambda>_. []) ''QM1'' False (proc_host ''/dev/v /mnt/mqm xfs rw'') = Some (r, h')
     \<and> cmds h' = [[''dspmqinf'', ''QM1'']] \<and> r \<noteq> Inr True"
proof -
  let ?h = "proc_host ''/dev/v /mnt/mqm xfs rw''"
  have m: "GetMounts ?h = Some (Inr [(''/mnt/mqm'', ''xfs'')])" by code_simp
  have "createQueueManager (\<lambda>_. []) ''QM1'' False ?h \<noteq> None" by (simp add: createQueueManager_def Let_def m)
  then obtain r h' where c: "createQueueManager (\<lambda>_. []) ''QM1'' False ?h = Some (r, h')"
    by (metis option.exhaust prod.exhaust)
  show ?thesis using creation_command [OF c] c m by (auto simp: proc_host_def)
qed

end
