(* ===== verification/Volumes.thy ===== *)
theory Volumes
  imports Templates
begin

text \<open>
  cmd/runmqserver/crtmqvol.go, which creates and cleans directories, and cmd/runmqserver/opentracing.go, which
  switches the tracing by Instana on and off. What is in a directory is a list of paths in the order in which
  \<open>filepath.WalkDir\<close> visits them; which of them can be removed is a parameter, and so are the texts of errors.
  Directories can be listed, but for the one that is cleaned.
\<close>

section \<open>Creating\<close>

definition createVolume :: "string \<Rightarrow> host \<Rightarrow> string option \<times> host" where
  "createVolume dataPath h =
     (case os_stat dataPath h of
        None \<Rightarrow> (None, h)
      | Some NotExist \<Rightarrow> (os_mkdir_all dataPath h, h)
      | Some (IoErr e) \<Rightarrow> (Some e, h))"

section \<open>Removing\<close>

record entry =
  path :: string
  is_dir :: bool

definition below :: "string \<Rightarrow> string \<Rightarrow> bool" where
  "below p q \<longleftrightarrow> q = p \<or> has_prefix q (p @ ''/'')"

text \<open>
  \<open>os.RemoveAll\<close> removes what it can: an entry goes when everything below it can be removed. It reports an error
  when something stays.
\<close>

definition RemoveAll :: "(string \<Rightarrow> bool) \<Rightarrow> string \<Rightarrow> entry list \<Rightarrow> bool \<times> entry list" where
  "RemoveAll removable p t =
     (let rest = filter (\<lambda>e. \<not> (below p (path e) \<and> list_all (\<lambda>f. below (path e) (path f) \<longrightarrow> removable (path f)) t)) t
      in (list_all (\<lambda>e. \<not> below p (path e)) rest, rest))"

text \<open>The names in a directory, and \<open>cleanVolume\<close>: a directory that does not exist is like an empty one.\<close>

definition child_of :: "string \<Rightarrow> string \<Rightarrow> bool" where
  "child_of p q \<longleftrightarrow> has_prefix q (p @ ''/'') \<and> CHR ''/'' \<notin> set (drop (length p + 1) q)"

fun remove_each :: "(string \<Rightarrow> bool) \<Rightarrow> (string \<Rightarrow> string) \<Rightarrow> string list \<Rightarrow> entry list \<Rightarrow> string option \<times> entry list" where
  "remove_each removable remove_error [] t = (None, t)"
| "remove_each removable remove_error (p # ps) t =
     (case RemoveAll removable p t of
        (ok, t1) \<Rightarrow> if ok then remove_each removable remove_error ps t1 else (Some (remove_error p), t1))"

definition cleanVolume ::
    "(string \<Rightarrow> bool) \<Rightarrow> (string \<Rightarrow> string) \<Rightarrow> io_error option \<Rightarrow> string \<Rightarrow> entry list \<Rightarrow> string option \<times> entry list" where
  "cleanVolume removable remove_error readDirError cleanPath t =
     (case readDirError of
        Some (IoErr e) \<Rightarrow> (Some e, t)
      | Some NotExist \<Rightarrow> (None, t)
      | None \<Rightarrow> remove_each removable remove_error (filter (child_of cleanPath) (map path t)) t)"

text \<open>
  The loop over a path to skip and its parent directories, which does not end when the directory is the root:
  \<open>None\<close>.
\<close>

partial_function (option) skip_parents :: "string \<Rightarrow> string \<Rightarrow> string list option" where
  "skip_parents cleanPath p =
     (if p = ''.'' \<or> \<not> has_prefix p cleanPath then Some []
      else Option.bind (skip_parents cleanPath (path_dir p)) (\<lambda>ps. Some (p # ps)))"

fun skip_all :: "string \<Rightarrow> string list \<Rightarrow> string list option" where
  "skip_all cleanPath [] = Some []"
| "skip_all cleanPath (p # ps) =
     (case skip_parents cleanPath p of
        None \<Rightarrow> None
      | Some a \<Rightarrow> map_option ((@) a) (skip_all cleanPath ps))"

text \<open>
  The walk visits an entry that is still there; after a failure it goes on below it, where the paths have just
  been tried.
\<close>

fun clean_walk ::
    "(string \<Rightarrow> bool) \<Rightarrow> (string \<Rightarrow> string) \<Rightarrow> string list \<Rightarrow> entry list \<Rightarrow> entry list \<Rightarrow> host \<Rightarrow> entry list \<times> host" where
  "clean_walk removable remove_error skips [] t h = (t, h)"
| "clean_walk removable remove_error skips (e # es) t h =
     (if e \<notin> set t then clean_walk removable remove_error skips es t h
      else if path e \<in> set skips then
        clean_walk removable remove_error skips es t (say DebugL (''Skipping deletion of: '' @ path e) h)
      else
        (let h1 = say DebugL (''Removing: '' @ path e) h in
         case RemoveAll removable (path e) t of
           (ok, t1) \<Rightarrow>
             clean_walk removable remove_error skips es t1
               (if ok then h1
                else say InfoL (''Warning: volume cleanup could not remove '' @ CHR 0x27 # path e @ CHR 0x27 # '': ''
                                @ remove_error (path e)) h1)))"

definition cleanVolumeBestEffort ::
    "(string \<Rightarrow> bool) \<Rightarrow> (string \<Rightarrow> string) \<Rightarrow> string \<Rightarrow> string list \<Rightarrow> entry list \<Rightarrow> host \<Rightarrow> (entry list \<times> host) option" where
  "cleanVolumeBestEffort removable remove_error cleanPath skipPaths t h =
     (case skip_all cleanPath skipPaths of
        None \<Rightarrow> None
      | Some skips \<Rightarrow>
          (case clean_walk removable remove_error (cleanPath # skips) (filter (\<lambda>e. below cleanPath (path e)) t) t
                  (say DebugL (''Begin cleaning path: '' @ cleanPath) h) of
             (t1, h1) \<Rightarrow> Some (t1, say DebugL (''Finished cleaning path: '' @ cleanPath) h1)))"

section \<open>Tracing\<close>

abbreviation (input) userconfig :: string where "userconfig \<equiv> ''/run/MQInstanaTracing/userconfiginstana.ini''"

definition enableInstanaTracingFiles :: "string option \<Rightarrow> host \<Rightarrow> string option \<times> host" where
  "enableInstanaTracingFiles wd h = CopyFile wd ''/opt/MQInstanaTracing/userconfiginstana.ini'' userconfig h"

definition disableInstanaTracing :: "host \<Rightarrow> string option \<times> host" where
  "disableInstanaTracing h = (case os_write userconfig [] h of (e, h1) \<Rightarrow> (map_option err_text e, h1))"

text \<open>
  The state of the loop: what is written out, the lines of the stanza that is being read, whether it has the exit
  and whether one had.
\<close>

fun ini_loop :: "string \<Rightarrow> string list \<Rightarrow> string \<times> string \<times> bool \<times> bool \<Rightarrow> string \<times> string \<times> bool \<times> bool" where
  "ini_loop exitName [] st = st"
| "ini_loop exitName (t # ts) (out, stanza, inside, found) =
     (if contains t '':'' then
        ini_loop exitName ts (if inside then out else out @ stanza, t @ [newline], False, found)
      else if contains t exitName then ini_loop exitName ts (out, stanza @ t @ [newline], True, True)
      else ini_loop exitName ts (out, stanza @ t @ [newline], inside, found))"

definition removeTracingExitINIEntry :: "string \<Rightarrow> string \<Rightarrow> bool \<times> string" where
  "removeTracingExitINIEntry exitName ini =
     (case ini_loop exitName (scan_lines ini) ([], [], False, False) of
        (out, stanza, inside, found) \<Rightarrow>
          if found then (True, if inside then out else out @ stanza) else (False, ini))"

text \<open>\<open>removeTracingExit\<close>; the outer \<open>None\<close> is the panic of reading the stanza of the queue manager.\<close>

definition removeTracingExit :: "string \<Rightarrow> string \<Rightarrow> host \<Rightarrow> (string option \<times> host) option" where
  "removeTracingExit exitName name h =
     (case GetQueueManager name h of
        (IniPanic, h1) \<Rightarrow> None
      | (IniError e, h1) \<Rightarrow> Some (None, h1)
      | (IniOk qm, h1) \<Rightarrow>
          (let p = CleanPath [GetDataDirectory qm, ''qm.ini''] in
           Some (case os_read p h1 of
             Inl e \<Rightarrow> (Some (err_text e), h1)
           | Inr b \<Rightarrow>
               (case removeTracingExitINIEntry exitName b of
                  (False, ini) \<Rightarrow> (None, h1)
                | (True, newIni) \<Rightarrow>
                    (case os_write p newIni h1 of (e, h2) \<Rightarrow> (map_option err_text e, h2))))))"

section \<open>Which stanzas stay\<close>

text \<open>The lines in groups: a line with a colon starts the next one; the first group comes before any.\<close>

fun stanza_groups :: "string list \<Rightarrow> string list list" where
  "stanza_groups [] = [[]]"
| "stanza_groups (l # ls) =
     (case stanza_groups ls of
        [] \<Rightarrow> []
      | g # gs \<Rightarrow> if contains l '':'' then [] # (l # g) # gs else (l # g) # gs)"

definition has_exit :: "string \<Rightarrow> string list \<Rightarrow> bool" where
  "has_exit exitName g \<longleftrightarrow> list_ex (\<lambda>l. \<not> contains l '':'' \<and> contains l exitName) g"

definition stanza_text :: "string list \<Rightarrow> string" where
  "stanza_text g = concat (map (\<lambda>l. l @ [newline]) g)"

definition ini_finish :: "string \<times> string \<times> bool \<times> bool \<Rightarrow> bool \<times> string" where
  "ini_finish st = (case st of (out, stanza, inside, found) \<Rightarrow> (found, if inside then out else out @ stanza))"

lemma stanza_groups_nonempty [simp]: "stanza_groups ls \<noteq> []"
  by (induction ls) (auto split: list.splits)

lemma has_exit_simps [simp]:
  "\<not> has_exit x []" "has_exit x (l # g) \<longleftrightarrow> \<not> contains l '':'' \<and> contains l x \<or> has_exit x g"
  "has_exit x (f @ g) \<longleftrightarrow> has_exit x f \<or> has_exit x g"
  by (auto simp: has_exit_def)

lemma stanza_text_simps [simp]:
  "stanza_text [] = []" "stanza_text (l # g) = l @ newline # stanza_text g"
  "stanza_text (f @ g) = stanza_text f @ stanza_text g"
  by (simp_all add: stanza_text_def)

lemma ini_loop_groups:
  assumes "has_exit x g0 \<Longrightarrow> found" "stanza_groups ls = g # gs"
  shows "ini_finish (ini_loop x ls (out, stanza_text g0, has_exit x g0, found))
    = (found \<or> list_ex (has_exit x) ((g0 @ g) # gs),
       out @ concat (map stanza_text (filter (\<lambda>f. \<not> has_exit x f) ((g0 @ g) # gs))))"
  using assms
proof (induction ls arbitrary: g0 g gs out found)
  case Nil
  then show ?case by (auto simp: ini_finish_def)
next
  case (Cons l ls)
  obtain f fs where f: "stanza_groups ls = f # fs" by (cases "stanza_groups ls") auto
  show ?case
  proof (cases "contains l '':''")
    case True
    then have g: "g = []" "gs = (l # f) # fs" using Cons.prems(2) f by auto
    have "ini_finish (ini_loop x ls (if has_exit x g0 then out else out @ stanza_text g0, stanza_text [l], has_exit x [l], found))
      = (found \<or> list_ex (has_exit x) (([l] @ f) # fs),
         (if has_exit x g0 then out else out @ stanza_text g0)
         @ concat (map stanza_text (filter (\<lambda>f. \<not> has_exit x f) (([l] @ f) # fs))))"
      using True by (intro Cons.IH f) simp
    then show ?thesis using True g Cons.prems(1) by auto
  next
    case False
    then have g: "g = l # f" "gs = fs" using Cons.prems(2) f by auto
    have "ini_finish (ini_loop x ls (out, stanza_text (g0 @ [l]), has_exit x (g0 @ [l]), found \<or> contains l x))
      = ((found \<or> contains l x) \<or> list_ex (has_exit x) (((g0 @ [l]) @ f) # fs),
         out @ concat (map stanza_text (filter (\<lambda>f. \<not> has_exit x f) (((g0 @ [l]) @ f) # fs))))"
      using False Cons.prems(1) by (intro Cons.IH f) auto
    then show ?thesis using False g by (cases "contains l x") auto
  qed
qed

lemma removed_groups:
  "removeTracingExitINIEntry x ini =
     (let gs = stanza_groups (scan_lines ini)
      in if list_ex (has_exit x) gs
         then (True, concat (map stanza_text (filter (\<lambda>g. \<not> has_exit x g) gs)))
         else (False, ini))"
proof -
  obtain g gs where g: "stanza_groups (scan_lines ini) = g # gs" by (cases "stanza_groups (scan_lines ini)") auto
  have "ini_finish (ini_loop x (scan_lines ini) ([], [], False, False))
    = (list_ex (has_exit x) (g # gs), concat (map stanza_text (filter (\<lambda>f. \<not> has_exit x f) (g # gs))))"
    using ini_loop_groups [of x "[]" False "scan_lines ini" g gs "[]"] g by simp
  then show ?thesis
    by (auto simp: removeTracingExitINIEntry_def ini_finish_def g Let_def split: prod.splits)
qed

text \<open>
  Exactly the groups of lines that name the exit in a line without a colon are removed, and the rest stays in
  order; without such a group the text is untouched.
\<close>

theorem tracing_exit_removed:
  "removeTracingExitINIEntry x ini =
     (let gs = stanza_groups (scan_lines ini)
      in if list_ex (has_exit x) gs
         then (True, concat (map stanza_text (filter (\<lambda>g. \<not> has_exit x g) gs)))
         else (False, ini))"
  by (rule removed_groups)

text \<open>
  A line with a colon that is not the head of a stanza, such as a value with one, cuts the stanza in two: when
  the exit is named after it, the head of the stanza stays behind.
\<close>

theorem colon_cuts_stanza:
  assumes "scan_lines ini = h # ls @ [v] @ ms" "contains h '':''" "contains v '':''"
    and "list_all (\<lambda>l. \<not> contains l '':'' \<and> \<not> contains l x) ls"
    and "list_all (\<lambda>l. \<not> contains l '':'') ms" "list_ex (\<lambda>l. contains l x) ms"
  shows "removeTracingExitINIEntry x ini = (True, stanza_text (h # ls))"
proof -
  have ms: "stanza_groups ms = [ms]" using assms(5) by (induction ms) auto
  have "stanza_groups (ls @ [v] @ ms) = [ls, v # ms]"
    using assms(4) assms(3) ms by (induction ls) auto
  then have g: "stanza_groups (scan_lines ini) = [[], h # ls, v # ms]" using assms(1,2) by simp
  have "\<not> has_exit x ls" using assms(4) by (auto simp: has_exit_def list_all_iff list_ex_iff)
  moreover have "has_exit x ms" using assms(5,6) by (auto simp: has_exit_def list_all_iff list_ex_iff)
  ultimately show ?thesis using assms(2,3) by (simp add: removed_groups g)
qed

section \<open>The loop over the parents ends\<close>

definition weight :: "string list \<Rightarrow> nat" where
  "weight ks = sum_list (map (\<lambda>k. length k + 1) ks)"

lemma weight_simps [simp]:
  "weight [] = 0" "weight (k # ks) = length k + 1 + weight ks" "weight (ks @ ls) = weight ks + weight ls"
  "weight (rev ks) = weight ks"
proof -
  show "weight (rev ks) = weight ks" by (induction ks) (simp_all add: weight_def)
qed (simp_all add: weight_def)

lemma weight_split_on: "weight (split_on c s) = length s + 1"
  by (induction s) (auto split: list.splits)

lemma weight_clean: "weight (foldl (clean_step rooted) kept cs) \<le> weight kept + weight cs"
proof (induction cs arbitrary: kept)
  case (Cons c cs)
  have "weight (clean_step rooted kept c) \<le> weight kept + length c + 1"
    by (cases kept) (auto simp: clean_step_def)
  then show ?case using Cons [of "clean_step rooted kept c"] by simp
qed simp

lemma length_join: "length (join ''/'' cs) = weight cs - 1"
  by (induction "''/''" cs rule: join.induct) auto

lemma length_path_clean: "length (path_clean p) \<le> max 1 (length p)"
proof -
  have w: "weight (clean_elems r q) \<le> length q + 1" for r q
    using weight_clean [of r "[]" "split_on CHR ''/'' q"] by (simp add: clean_elems_def weight_split_on)
  show ?thesis
  proof (cases "is_abs p")
    case True
    then obtain q where q: "p = CHR ''/'' # q" by (auto simp: is_abs_def prefix_def)
    then show ?thesis using w [of True q] True by (simp add: path_clean_def length_join clean_elems_slash)
  next
    case False
    then show ?thesis using w [of False p] by (simp add: path_clean_def length_join) linarith
  qed
qed

lemma path_clean_trailing: "q \<noteq> [] \<Longrightarrow> path_clean (q @ ''/'') = path_clean q"
proof -
  assume "q \<noteq> []"
  then have "is_abs (q @ ''/'') = is_abs q" by (cases q) (simp_all add: is_abs_def)
  moreover have "clean_elems r (q @ ''/'') = clean_elems r q" for r
    using split_on_append [of "CHR ''/''" q "[]"] by (simp add: clean_elems_def clean_step_def)
  ultimately show ?thesis by (simp add: path_clean_def)
qed

lemma path_dir_shorter:
  assumes "p \<noteq> ''/''"
  shows "path_dir p = ''.'' \<or> length (path_dir p) < length p"
proof -
  define d where "d = rev (dropWhile (\<lambda>c. c \<noteq> CHR ''/'') (rev p))"
  define r where "r = rev (takeWhile (\<lambda>c. c \<noteq> CHR ''/'') (rev p))"
  have p: "p = d @ r"
    unfolding d_def r_def by (metis rev_append rev_rev_ident takeWhile_dropWhile_id)
  have dir: "path_dir p = path_clean d" by (simp only: path_dir_def d_def)
  show ?thesis
  proof (cases d rule: rev_cases)
    case Nil
    then show ?thesis using dir by (simp add: path_clean_def is_abs_def clean_elems_def clean_step_def)
  next
    case (snoc q x)
    have "rev d = dropWhile (\<lambda>c. c \<noteq> CHR ''/'') (rev p)" by (simp add: d_def)
    then have dw: "dropWhile (\<lambda>c. c \<noteq> CHR ''/'') (rev p) = x # rev q" by (simp add: snoc)
    have x: "x = CHR ''/''"
      using hd_dropWhile [of "\<lambda>c. c \<noteq> CHR ''/''" "rev p"] by (simp only: dw list.sel list.distinct simp_thms)
    show ?thesis
    proof (cases "q = []")
      case True
      have "path_clean ''/'' = ''/''" by code_simp
      then have "path_dir p = ''/''" using dir snoc x True by simp
      moreover have "r \<noteq> []" using assms p snoc x True by auto
      ultimately show ?thesis using p snoc by (cases r) simp_all
    next
      case False
      have "path_dir p = path_clean q" using dir snoc x path_clean_trailing [OF False] by simp
      then have "length (path_dir p) \<le> max 1 (length q)" using length_path_clean [of q] by simp
      moreover have "length q < length p" using p snoc by simp
      moreover have "1 \<le> length q" using False by (cases q) simp_all
      ultimately show ?thesis by simp
    qed
  qed
qed

lemma skip_parents_dot [simp]: "skip_parents c ''.'' = Some []"
  by (simp add: skip_parents.simps)

lemma skip_parents_ends:
  assumes "c \<noteq> []" "c \<noteq> ''/''"
  shows "skip_parents c p \<noteq> None"
proof (induction "length p" arbitrary: p rule: less_induct)
  case less
  show ?case
  proof (cases "p = ''.'' \<or> \<not> has_prefix p c")
    case True
    then show ?thesis by (simp add: skip_parents.simps)
  next
    case False
    then have "p \<noteq> ''/''" using assms by (cases c) (auto simp: prefix_def)
    then have "skip_parents c (path_dir p) \<noteq> None" using path_dir_shorter [of p] less by auto
    then show ?thesis using False by (subst skip_parents.simps) auto
  qed
qed

text \<open>
  Cleaning a directory comes to an end for every directory but the root (and the empty path), whatever the paths
  to skip; for the root the loop over the parents of a path to skip never ends.
\<close>

theorem best_effort_ends:
  "cleanVolumeBestEffort rm re c (''/x'' # ps) t h = None \<longleftrightarrow> c = [] \<or> c = ''/''"
proof -
  have root: "skip_parents c ''/'' = None" if "c = [] \<or> c = ''/''" for c
  proof -
    have "path_dir ''/'' = ''/''" by code_simp
    then have "skip_parents c ''/'' = Option.bind (skip_parents c ''/'') (\<lambda>ps. Some (''/'' # ps))"
      using that by (subst skip_parents.simps) auto
    then show ?thesis by (cases "skip_parents c ''/''") auto
  qed
  have all: "skip_all c ps \<noteq> None" if "c \<noteq> []" "c \<noteq> ''/''" for c ps
    using skip_parents_ends [OF that] by (induction ps) (auto split: option.splits)
  have "path_dir ''/x'' = ''/''" by code_simp
  then have "skip_parents c ''/x'' = None" if "c = [] \<or> c = ''/''" for c
    using root [OF that] that by (subst skip_parents.simps) auto
  then have "skip_all c (''/x'' # ps) = None \<longleftrightarrow> c = [] \<or> c = ''/''"
    using all [of c "''/x'' # ps"] by (cases "c = [] \<or> c = ''/''") auto
  then show ?thesis by (auto simp: cleanVolumeBestEffort_def split: option.splits prod.splits)
qed

section \<open>What a cleaned directory keeps\<close>

text \<open>Absolute paths by their names.\<close>

definition abs_path :: "string list \<Rightarrow> string" where
  "abs_path ns = concat (map (\<lambda>n. CHR ''/'' # n) ns)"

definition names_ok :: "string list \<Rightarrow> bool" where
  "names_ok ns \<longleftrightarrow> ns \<noteq> [] \<and> good_elems ns"

lemma abs_path_simps [simp]:
  "abs_path [] = []" "abs_path (n # ns) = CHR ''/'' # n @ abs_path ns" "abs_path (ms @ ns) = abs_path ms @ abs_path ns"
  by (simp_all add: abs_path_def)

lemma abs_path_join: "ns \<noteq> [] \<Longrightarrow> abs_path ns = CHR ''/'' # join ''/'' ns"
  by (induction "''/''" ns rule: join.induct) auto

lemma split_abs_path: "names_ok ns \<Longrightarrow> split_on CHR ''/'' (abs_path ns) = [] # ns"
  using split_on_join [of ns "CHR ''/''"] by (simp add: names_ok_def good_elems_def abs_path_join)

lemma abs_path_inject: "names_ok ms \<Longrightarrow> names_ok ns \<Longrightarrow> abs_path ms = abs_path ns \<longleftrightarrow> ms = ns"
  by (metis split_abs_path list.inject)

lemma below_names:
  assumes "names_ok ms" "names_ok ns"
  shows "below (abs_path ms) (abs_path ns) \<longleftrightarrow> prefix ms ns"
proof
  assume b: "below (abs_path ms) (abs_path ns)"
  show "prefix ms ns"
  proof (cases "ms = ns")
    case False
    then obtain r where "abs_path ns = abs_path ms @ CHR ''/'' # r"
      using b abs_path_inject [OF assms] by (auto simp: below_def prefix_def)
    then have "[] # ns = ([] # ms) @ split_on CHR ''/'' r"
      using split_abs_path [OF assms(1)] split_abs_path [OF assms(2)] by (metis split_on_append)
    then show ?thesis by simp
  qed simp
next
  assume "prefix ms ns"
  then obtain ks where ks: "ns = ms @ ks" by (auto simp: prefix_def)
  then show "below (abs_path ms) (abs_path ns)" by (cases ks) (simp_all add: below_def)
qed

lemma path_clean_abs_path: "names_ok ns \<Longrightarrow> path_clean (abs_path ns) = abs_path ns"
proof -
  assume ok: "names_ok ns"
  then have r: "abs_path ns = render True ns" by (simp add: render_def abs_path_join names_ok_def)
  have "is_abs (render True ns)" by (simp add: render_def is_abs_def)
  moreover have "clean_elems True (render True ns) = ns"
    using elems_render [of ns True True] ok by (simp add: clean_elems_def names_ok_def)
  ultimately show ?thesis by (simp add: r path_clean_render)
qed

lemma path_dir_abs_path:
  assumes "names_ok (ns @ [n])"
  shows "path_dir (abs_path (ns @ [n])) = (if ns = [] then ''/'' else abs_path ns)"
proof -
  have "CHR ''/'' \<notin> set (rev n)" using assms by (simp add: names_ok_def good_elems_def)
  then have "dropWhile (\<lambda>c. c \<noteq> CHR ''/'') (rev (abs_path (ns @ [n]))) = CHR ''/'' # rev (abs_path ns)"
    by (simp add: dropWhile_append3)
      (smt (verit) dropWhile.simps(2) dropWhile_append2 in_set_conv_decomp set_rev)
  then have "path_dir (abs_path (ns @ [n])) = path_clean (abs_path ns @ ''/'')" by (simp add: path_dir_def)
  moreover have "path_clean ''/'' = ''/''" by code_simp
  moreover have "path_clean (abs_path ns @ ''/'') = abs_path ns" if "ns \<noteq> []"
  proof -
    have "names_ok ns" using that assms by (simp add: names_ok_def)
    moreover have "abs_path ns \<noteq> []" using that by (cases ns) simp_all
    ultimately show ?thesis using path_clean_trailing path_clean_abs_path by metis
  qed
  ultimately show ?thesis by simp
qed

lemma skip_parents_names:
  assumes "names_ok cs" "names_ok ns" "skip_parents (abs_path cs) (abs_path ns) = Some ps"
  shows "set ps \<subseteq> abs_path ` {ks. names_ok ks \<and> prefix ks ns}"
    and "\<And>ks. prefix cs ks \<Longrightarrow> prefix ks ns \<Longrightarrow> abs_path ks \<in> set ps"
  using assms(2,3)
proof (induction ns arbitrary: ps rule: rev_induct)
  case (snoc n ns)
  have dot: "abs_path (ns @ [n]) \<noteq> ''.''" by (cases ns) simp_all
  {
    case 1
    show ?case
    proof (cases "has_prefix (abs_path (ns @ [n])) (abs_path cs)")
      case False
      then show ?thesis using 1 by (simp add: skip_parents.simps)
    next
      case True
      then obtain qs where qs: "skip_parents (abs_path cs) (path_dir (abs_path (ns @ [n]))) = Some qs"
          "ps = abs_path (ns @ [n]) # qs"
        using 1(2) dot by (subst (asm) skip_parents.simps) (auto split: bind_splits)
      have "set qs \<subseteq> abs_path ` {ks. names_ok ks \<and> prefix ks ns}"
      proof (cases "ns = []")
        case True
        obtain c ds where "cs = c # ds" "c \<noteq> []"
          using assms(1) by (cases cs) (auto simp: names_ok_def good_elems_def plain_name_def)
        then have "\<not> has_prefix ''/'' (abs_path cs)" by (cases c) simp_all
        then have "qs = []" using qs(1) True path_dir_abs_path [OF 1(1)] by (simp add: skip_parents.simps)
        then show ?thesis by simp
      next
        case False
        then have "names_ok ns" using 1(1) by (simp add: names_ok_def)
        then show ?thesis using snoc.IH(1) qs(1) False path_dir_abs_path [OF 1(1)] by simp
      qed
      moreover have "abs_path (ns @ [n]) \<in> abs_path ` {ks. names_ok ks \<and> prefix ks (ns @ [n])}"
        using 1(1) by blast
      moreover have "abs_path ` {ks. names_ok ks \<and> prefix ks ns} \<subseteq> abs_path ` {ks. names_ok ks \<and> prefix ks (ns @ [n])}"
        by (rule image_mono) auto
      ultimately show ?thesis by (simp only: qs(2) list.set insert_subset) blast
    qed
  next
    case (2 ks)
    then have "has_prefix (abs_path (ns @ [n])) (abs_path cs)" by (metis abs_path_simps(3) prefix_def prefix_order.trans)
    then obtain qs where qs: "skip_parents (abs_path cs) (path_dir (abs_path (ns @ [n]))) = Some qs"
        "ps = abs_path (ns @ [n]) # qs"
      using 2(4) dot by (subst (asm) skip_parents.simps) (auto split: bind_splits)
    show ?case
    proof (cases "ks = ns @ [n]")
      case True
      then show ?thesis using qs(2) by simp
    next
      case False
      then have k: "prefix ks ns" using 2(2) by simp
      then have ne: "ns \<noteq> []" using 2(1) assms(1) by (auto simp: names_ok_def)
      then have "names_ok ns" using 2(3) by (simp add: names_ok_def)
      then have "abs_path ks \<in> set qs"
        using snoc.IH(2) [OF 2(1) k] qs(1) ne path_dir_abs_path [OF 2(3)] by simp
      then show ?thesis using qs(2) by simp
    qed
  }
qed (simp_all add: names_ok_def)

lemma skip_all_names:
  assumes "names_ok cs" "list_all names_ok sps" "skip_all (abs_path cs) (map abs_path sps) = Some skips"
  shows "set skips \<subseteq> abs_path ` {ks. names_ok ks \<and> (\<exists>ns \<in> set sps. prefix ks ns)}"
    and "ns \<in> set sps \<Longrightarrow> prefix cs ks \<Longrightarrow> prefix ks ns \<Longrightarrow> abs_path ks \<in> set skips"
  using assms(2,3)
proof (induction sps arbitrary: skips)
  case (Cons s sps)
  {
    case 1
    then obtain a b where ab: "skip_parents (abs_path cs) (abs_path s) = Some a"
        "skip_all (abs_path cs) (map abs_path sps) = Some b" "skips = a @ b"
      by (auto split: option.splits)
    have "set a \<subseteq> abs_path ` {ks. names_ok ks \<and> prefix ks s}"
      using skip_parents_names(1) [OF assms(1) _ ab(1)] 1(1) by simp
    moreover have "set b \<subseteq> abs_path ` {ks. names_ok ks \<and> (\<exists>ns \<in> set sps. prefix ks ns)}"
      using Cons.IH(1) [OF _ ab(2)] 1(1) by simp
    moreover have "abs_path ` {ks. names_ok ks \<and> prefix ks s} \<subseteq> abs_path ` {ks. names_ok ks \<and> (\<exists>ns \<in> set (s # sps). prefix ks ns)}"
      "abs_path ` {ks. names_ok ks \<and> (\<exists>ns \<in> set sps. prefix ks ns)} \<subseteq> abs_path ` {ks. names_ok ks \<and> (\<exists>ns \<in> set (s # sps). prefix ks ns)}"
      by (rule image_mono; auto)+
    ultimately show ?case by (simp only: ab(3) set_append) blast
  next
    case 2
    then obtain a b where ab: "skip_parents (abs_path cs) (abs_path s) = Some a"
        "skip_all (abs_path cs) (map abs_path sps) = Some b" "skips = a @ b"
      by (auto split: option.splits)
    show ?case
    proof (cases "ns = s")
      case True
      then show ?thesis using skip_parents_names(2) [OF assms(1) _ ab(1) 2(2)] 2(3,4) ab(3) by simp
    next
      case False
      then show ?thesis using Cons.IH(2) [OF _ 2(2,3) _ ab(2)] 2(1,4) ab(3) by simp
    qed
  }
qed simp_all

text \<open>The walk never removes a kept entry, and with everything removable leaves no other entry it visits.\<close>

lemma RemoveAll_result:
  "RemoveAll rm p t = (ok, t1) \<Longrightarrow> set t1 \<subseteq> set t \<and> (\<forall>e \<in> set t. \<not> below p (path e) \<longrightarrow> e \<in> set t1)"
  "RemoveAll (\<lambda>_. True) p t = (ok, t1) \<Longrightarrow> t1 = filter (\<lambda>e. \<not> below p (path e)) t"
  by (auto simp: RemoveAll_def Let_def list_all_iff intro!: filter_cong)

lemma clean_walk_keeps:
  assumes "clean_walk rm re skips es t h = (t', h')"
    and "\<And>e k. e \<in> set es \<Longrightarrow> path e \<notin> set skips \<Longrightarrow> k \<in> K \<Longrightarrow> \<not> below (path e) (path k)"
  shows "set t' \<subseteq> set t \<and> K \<inter> set t \<subseteq> set t'"
  using assms
proof (induction es arbitrary: t h)
  case (Cons e es)
  consider (gone) "e \<notin> set t" | (skip) "e \<in> set t" "path e \<in> set skips" | (visit) "e \<in> set t" "path e \<notin> set skips" by blast
  then show ?case
  proof cases
    case visit
    obtain ok t1 where r: "RemoveAll rm (path e) t = (ok, t1)" by fastforce
    obtain h1 where w: "clean_walk rm re skips es t1 h1 = (t', h')"
      using Cons.prems(1) visit r by (auto simp: Let_def)
    have "set t' \<subseteq> set t1 \<and> K \<inter> set t1 \<subseteq> set t'"
      using Cons.prems(2) by (intro Cons.IH [OF w]) simp
    moreover have "set t1 \<subseteq> set t" "K \<inter> set t \<subseteq> set t1"
      using RemoveAll_result(1) [OF r] Cons.prems(2) [of e] visit(2) by auto
    ultimately show ?thesis by blast
  qed (use Cons in auto)
qed simp

lemma clean_walk_removes:
  assumes "clean_walk (\<lambda>_. True) re skips es t h = (t', h')" "e \<in> set es" "path e \<notin> set skips"
  shows "e \<notin> set t'"
  using assms(1,2)
proof (induction es arbitrary: t h)
  case (Cons f es)
  have sub: "set t' \<subseteq> set t1" if "clean_walk (\<lambda>_. True) re skips es t1 h1 = (t', h')" for t1 h1
    using clean_walk_keeps [OF that, of "{}"] by simp
  show ?case
  proof (cases "e = f")
    case True
    obtain ok t1 where r: "RemoveAll (\<lambda>_. True) (path e) t = (ok, t1)" by fastforce
    show ?thesis
    proof (cases "e \<in> set t")
      case False
      then show ?thesis using Cons.prems(1) True sub by auto
    next
      case in_t: True
      then obtain h1 where "clean_walk (\<lambda>_. True) re skips es t1 h1 = (t', h')"
        using Cons.prems(1) True assms(3) r by (auto simp: Let_def)
      moreover have "e \<notin> set t1" using RemoveAll_result(2) [OF r] by (simp add: below_def)
      ultimately show ?thesis using sub by blast
    qed
  next
    case False
    then have e: "e \<in> set es" using Cons.prems(2) by simp
    obtain t1 h1 where "clean_walk (\<lambda>_. True) re skips es t1 h1 = (t', h')"
      using Cons.prems(1) by (auto simp: Let_def split: if_splits prod.splits)
    then show ?thesis using Cons.IH e by blast
  qed
qed simp

text \<open>A directory above a path that is kept is skipped.\<close>

lemma above_kept_skipped:
  assumes cs: "names_ok cs" and sps: "list_all names_ok sps"
    and sk: "skip_all (abs_path cs) (map abs_path sps) = Some skips"
    and n: "names_ok es" "names_ok ks" and p: "prefix cs es" "prefix es ks"
    and kept: "abs_path ks = abs_path cs \<or> list_ex (\<lambda>s. below (abs_path ks) (abs_path s)) sps"
  shows "abs_path es \<in> set (abs_path cs # skips)"
proof -
  consider "ks = cs" | s where "s \<in> set sps" "prefix ks s"
    using kept n cs sps by (auto simp: below_names abs_path_inject list_ex_iff list_all_iff)
  then show ?thesis
  proof cases
    case 1
    then have "es = cs" using p by (simp add: prefix_order.antisym)
    then show ?thesis by simp
  next
    case 2
    then show ?thesis using skip_all_names(2) [OF cs sps sk 2(1) p(1)] p(2) by (auto intro: prefix_order.trans)
  qed
qed

text \<open>
  C32. The best-effort cleaning of a directory keeps the directory, the paths to skip with their parent directories,
  and everything outside; it adds nothing, and when everything can be removed it removes all the rest, also what is
  below a path to skip.
\<close>

theorem best_effort_keeps:
  assumes "cleanVolumeBestEffort rm re (abs_path cs) (map abs_path sps) t h = Some (t', h')"
    and "names_ok cs" "list_all names_ok sps" "list_all (\<lambda>e. \<exists>ns. names_ok ns \<and> path e = abs_path ns) t"
  shows "set t' \<subseteq> set t
    \<and> (\<forall>e \<in> set t. \<not> below (abs_path cs) (path e) \<or> path e = abs_path cs
         \<or> list_ex (\<lambda>s. below (path e) (abs_path s)) sps \<longrightarrow> e \<in> set t')
    \<and> (rm = (\<lambda>_. True) \<longrightarrow>
         (\<forall>e \<in> set t'. \<not> below (abs_path cs) (path e) \<or> path e = abs_path cs
            \<or> list_ex (\<lambda>s. below (path e) (abs_path s)) sps))"
proof -
  obtain skips where sk: "skip_all (abs_path cs) (map abs_path sps) = Some skips"
    using assms(1) by (auto simp: cleanVolumeBestEffort_def split: option.splits)
  obtain h1 h2 where w: "clean_walk rm re (abs_path cs # skips) (filter (\<lambda>e. below (abs_path cs) (path e)) t) t h1 = (t', h2)"
    using assms(1) sk by (auto simp: cleanVolumeBestEffort_def split: prod.splits)
  note skn = skip_all_names [OF assms(2,3) sk]
  let ?kept = "\<lambda>e. \<not> below (abs_path cs) (path e) \<or> path e = abs_path cs
       \<or> list_ex (\<lambda>s. below (path e) (abs_path s)) sps"
  have names: "\<exists>ns. names_ok ns \<and> path e = abs_path ns" if "e \<in> set t" for e
    using assms(4) that by (auto simp: list_all_iff)
  have ok: "names_ok s" if "s \<in> set sps" for s using assms(3) that by (auto simp: list_all_iff)
  have skipped: "?kept k" if "path k \<in> set (abs_path cs # skips)" for k
    using that skn(1) ok by (auto simp: list_ex_iff below_names)
  have closed: "path e \<in> set (abs_path cs # skips)"
    if e: "e \<in> set t" "below (abs_path cs) (path e)" and k: "k \<in> set t" "?kept k" "below (path e) (path k)" for e k
  proof -
    obtain es ks where n: "names_ok es" "path e = abs_path es" "names_ok ks" "path k = abs_path ks"
      using names [OF e(1)] names [OF k(1)] by blast
    then have p: "prefix cs es" "prefix es ks" using e(2) k(3) assms(2) by (simp_all add: below_names)
    then have "below (abs_path cs) (abs_path ks)" using assms(2) n by (auto simp: below_names intro: prefix_order.trans)
    then show ?thesis using above_kept_skipped [OF assms(2,3) sk n(1,3) p] k(2) n(2,4) by simp
  qed
  have keep: "set t' \<subseteq> set t \<and> {e \<in> set t. ?kept e} \<inter> set t \<subseteq> set t'"
  proof (rule clean_walk_keeps [OF w])
    fix e k
    assume "e \<in> set (filter (\<lambda>e. below (abs_path cs) (path e)) t)" "path e \<notin> set (abs_path cs # skips)"
      "k \<in> {e \<in> set t. ?kept e}"
    then show "\<not> below (path e) (path k)" using closed by fastforce
  qed
  have "?kept e" if "rm = (\<lambda>_. True)" "e \<in> set t'" for e
  proof (rule ccontr)
    assume n: "\<not> ?kept e"
    then have "path e \<notin> set (abs_path cs # skips)" using skipped by blast
    moreover have "e \<in> set (filter (\<lambda>e. below (abs_path cs) (path e)) t)" using keep that(2) n by auto
    ultimately show False using clean_walk_removes [OF w [unfolded that(1)]] that(2) by blast
  qed
  then show ?thesis using keep by blast
qed

text \<open>
  Cleaning a directory that reports no error leaves nothing in it, and in any case nothing outside it is
  removed; what it reports is the first entry of the directory that could not be removed.
\<close>

lemma remove_each_result:
  "remove_each rm re ps t = (err, t') \<Longrightarrow>
   set t' \<subseteq> set t \<and> (\<forall>e \<in> set t. (\<forall>p \<in> set ps. \<not> below p (path e)) \<longrightarrow> e \<in> set t')
   \<and> (err = None \<longrightarrow> (\<forall>p \<in> set ps. \<forall>e \<in> set t'. \<not> below p (path e)))
   \<and> (\<forall>x. err = Some x \<longrightarrow> (\<exists>p \<in> set ps. x = re p \<and> (\<exists>e \<in> set t'. below p (path e))))"
proof (induction ps arbitrary: t)
  case (Cons p ps)
  obtain ok t1 where r: "RemoveAll rm p t = (ok, t1)" by fastforce
  note s = RemoveAll_result(1) [OF r]
  have "ok = list_all (\<lambda>e. \<not> below p (path e)) t1" using r by (simp only: RemoveAll_def Let_def prod.inject) blast
  then have okd: "ok = (\<forall>e \<in> set t1. \<not> below p (path e))" by (simp only: list_all_iff)
  show ?case
  proof (cases ok)
    case True
    then have "remove_each rm re ps t1 = (err, t')" using Cons.prems r by simp
    from Cons.IH [OF this] show ?thesis
      using s okd True by (intro conjI) (blast, fastforce, fastforce, fastforce)
  next
    case False
    then have "err = Some (re p)" "t' = t1" using Cons.prems r by simp_all
    then show ?thesis using s okd False by auto
  qed
qed simp

lemma child_below: "child_of d q \<Longrightarrow> below q p \<Longrightarrow> below d p \<and> p \<noteq> d"
  by (auto simp: child_of_def below_def prefix_def)

theorem cleanVolume_empties:
  assumes "cleanVolume rm re None d t = (err, t')"
    and "list_all (\<lambda>e. below d (path e) \<and> path e \<noteq> d \<longrightarrow> list_ex (\<lambda>f. child_of d (path f) \<and> below (path f) (path e)) t) t"
  shows "set t' \<subseteq> set t \<and> (\<forall>e \<in> set t. \<not> below d (path e) \<or> path e = d \<longrightarrow> e \<in> set t')
    \<and> (err = None \<longrightarrow> (\<forall>e \<in> set t'. below d (path e) \<longrightarrow> path e = d))"
proof -
  let ?ps = "filter (child_of d) (map path t)"
  have r: "remove_each rm re ?ps t = (err, t')" using assms(1) by (simp add: cleanVolume_def)
  note res = remove_each_result [OF r]
  have "path e = d" if e: "err = None" "e \<in> set t'" "below d (path e)" for e
  proof (rule ccontr)
    assume ne: "path e \<noteq> d"
    have "e \<in> set t" using res e(2) by blast
    then have "list_ex (\<lambda>f. child_of d (path f) \<and> below (path f) (path e)) t"
      using assms(2) e(3) ne by (simp add: list_all_iff)
    then obtain f where f: "f \<in> set t" "child_of d (path f)" "below (path f) (path e)" by (auto simp: list_ex_iff)
    then have "path f \<in> set ?ps" by simp
    then show False using res e(1,2) f(3) by blast
  qed
  moreover have "e \<in> set t'" if e: "e \<in> set t" "\<not> below d (path e) \<or> path e = d" for e
  proof -
    have "\<not> below p (path e)" if "p \<in> set ?ps" for p
      using that e(2) child_below [of d p "path e"] by auto
    then show ?thesis using res e(1) by blast
  qed
  ultimately show ?thesis using res by blast
qed

section \<open>An example\<close>

definition toy_entries :: "entry list" where
  "toy_entries =
     [\<lparr>path = ''/s'', is_dir = True\<rparr>, \<lparr>path = ''/s/a'', is_dir = False\<rparr>, \<lparr>path = ''/s/k'', is_dir = True\<rparr>,
      \<lparr>path = ''/s/k/l'', is_dir = False\<rparr>, \<lparr>path = ''/s/k/m'', is_dir = False\<rparr>]"

definition toy_volume_host :: host where
  "toy_volume_host =
     \<lparr>env = Map.empty, files = Map.empty, faults = (\<lambda>_. None), clock = 0, hostname = None,
      exec = (\<lambda>_ _. \<lparr>cmd_out = [], cmd_rc = 0, cmd_err = None\<rparr>), cmds = [], logs = []\<rparr>"

lemma best_effort_keeps_witness:
  "\<exists>t' h'. cleanVolumeBestEffort (\<lambda>_. True) (\<lambda>_. []) (abs_path [''s'']) (map abs_path [[''s'', ''k'', ''l'']])
       toy_entries toy_volume_host = Some (t', h')
     \<and> \<lparr>path = ''/s/k/l'', is_dir = False\<rparr> \<in> set t'"
proof -
  have n: "names_ok [''s'']" "names_ok [''s'', ''k'', ''l'']" "names_ok [''s'', ''a'']" "names_ok [''s'', ''k'']"
    "names_ok [''s'', ''k'', ''m'']"
    by (simp_all add: names_ok_def good_elems_def plain_name_def)
  have "cleanVolumeBestEffort (\<lambda>_. True) (\<lambda>_. []) (abs_path [''s'']) (map abs_path [[''s'', ''k'', ''l'']])
       toy_entries toy_volume_host \<noteq> None"
  proof -
    have "skip_all ''/s'' [''/s/k/l''] \<noteq> None" using skip_parents_ends [of "''/s''" "''/s/k/l''"] by (auto split: option.splits)
    then show ?thesis by (auto simp: cleanVolumeBestEffort_def split: option.splits prod.splits)
  qed
  then obtain t' h' where r: "cleanVolumeBestEffort (\<lambda>_. True) (\<lambda>_. []) (abs_path [''s'']) (map abs_path [[''s'', ''k'', ''l'']])
       toy_entries toy_volume_host = Some (t', h')" by (metis option.exhaust prod.exhaust)
  have paths: "list_all (\<lambda>e. \<exists>ns. names_ok ns \<and> path e = abs_path ns) toy_entries"
    using n(1) n(2) n(3) n(4) n(5)
    by (auto simp: toy_entries_def intro: exI [of _ "[''s'']"] exI [of _ "[''s'', ''a'']"] exI [of _ "[''s'', ''k'']"]
        exI [of _ "[''s'', ''k'', ''l'']"] exI [of _ "[''s'', ''k'', ''m'']"])
  have "\<lparr>path = ''/s/k/l'', is_dir = False\<rparr> \<in> set t'"
    using best_effort_keeps [OF r n(1) _ paths] n(2) by (auto simp: toy_entries_def below_def)
  then show ?thesis using r by blast
qed

lemma cleanVolume_empties_witness:
  "cleanVolume (\<lambda>_. True) (\<lambda>_. []) None ''/s'' toy_entries = (None, [\<lparr>path = ''/s'', is_dir = True\<rparr>])
   \<and> (\<forall>e \<in> set [\<lparr>path = ''/s'', is_dir = True\<rparr>]. below ''/s'' (path e) \<longrightarrow> path e = ''/s'')"
proof -
  have r: "cleanVolume (\<lambda>_. True) (\<lambda>_. []) None ''/s'' toy_entries = (None, [\<lparr>path = ''/s'', is_dir = True\<rparr>])" by code_simp
  have "list_all (\<lambda>e. below ''/s'' (path e) \<and> path e \<noteq> ''/s''
      \<longrightarrow> list_ex (\<lambda>f. child_of ''/s'' (path f) \<and> below (path f) (path e)) toy_entries) toy_entries" by code_simp
  from cleanVolume_empties [OF r this] show ?thesis using r by blast
qed

lemma colon_cuts_stanza_witness:
  "removeTracingExitINIEntry ''X'' (join [newline] [''E:'', ''D=a:b'', ''N=X'', []]) = (True, ''E:'' @ [newline])"
proof -
  have raw: "raw_lines (join [newline] ([''E:'', ''D=a:b'', ''N=X''] @ [[]])) = [''E:'', ''D=a:b'', ''N=X'']"
    by (rule raw_lines_join) simp
  have "scan_lines (join [newline] ([''E:'', ''D=a:b'', ''N=X''] @ [[]])) = [''E:'', ''D=a:b'', ''N=X'']"
    by (subst short_lines) (simp_all only: raw, simp_all add: drop_cr_def)
  then have l: "scan_lines (join [newline] [''E:'', ''D=a:b'', ''N=X'', []]) = ''E:'' # [] @ [''D=a:b''] @ [''N=X'']" by simp
  have c: "contains ''E:'' '':''" "contains ''D=a:b'' '':''" "list_all (\<lambda>l. \<not> contains l '':'') [''N=X'']"
    "list_ex (\<lambda>l. contains l ''X'') [''N=X'']" by code_simp+
  have "removeTracingExitINIEntry ''X'' (join [newline] [''E:'', ''D=a:b'', ''N=X'', []]) = (True, stanza_text (''E:'' # []))"
    by (rule colon_cuts_stanza [OF l c(1,2) _ c(3,4)]) simp
  then show ?thesis by simp
qed

end
