(* ===== verification/Sensitive.thy ===== *)
theory Sensitive
  imports Prelude
begin

text \<open>
  internal/sensitive/sensitive.go: buffers for secrets that are overwritten with zeroes when they are moved or cleared.
  The memory is a list of blocks; a slice is a part of a block, with the capacity up to which \<open>append\<close> stays in it.
  The capacity of a fresh block is the choice of the Go runtime and a parameter. The garbage collector, which runs
  the same finalizer, is left out: what is proved needs no help from it.
\<close>

section \<open>Memory and slices\<close>

type_synonym memory = "string list"

record slice =
  blk :: nat
  off :: nat
  slen :: nat
  scap :: nat

abbreviation (input) zero :: char where "zero \<equiv> CHR 0x00"

definition slice_bytes :: "memory \<Rightarrow> slice \<Rightarrow> string" where
  "slice_bytes m s = take (slen s) (drop (off s) (m ! blk s))"

definition put_bytes :: "nat \<Rightarrow> string \<Rightarrow> string \<Rightarrow> string" where
  "put_bytes i bs c = take i c @ bs @ drop (i + length bs) c"

text \<open>Go's \<open>append\<close>: in place up to the capacity, and into a fresh block beyond it.\<close>

definition go_append :: "(nat \<Rightarrow> nat) \<Rightarrow> slice \<Rightarrow> string \<Rightarrow> memory \<Rightarrow> slice \<times> memory" where
  "go_append spare s bs m =
     (if slen s + length bs \<le> scap s then
        (s\<lparr>slen := slen s + length bs\<rparr>, m[blk s := put_bytes (off s + slen s) bs (m ! blk s)])
      else
        (let n = slen s + length bs
         in (\<lparr>blk = length m, off = 0, slen = n, scap = n + spare n\<rparr>,
             m @ [slice_bytes m s @ bs @ replicate (spare n) zero])))"

section \<open>Sensitive buffers\<close>

text \<open>The buffer of a \<open>Sensitive\<close>; its other fields, the pin and the finalizer, have no effect on the bytes.\<close>

record Sensitive =
  buf :: slice

definition zeroMeta :: "Sensitive \<Rightarrow> memory \<Rightarrow> memory" where
  "zeroMeta s m =
     m[blk (buf s) := put_bytes (off (buf s)) (replicate (slen (buf s)) zero) (m ! blk (buf s))]"

definition New :: "slice \<Rightarrow> Sensitive" where
  "New b = \<lparr>buf = b\<rparr>"

text \<open>
  \<open>Write\<close> looks at the addresses of the first bytes of the old and the new buffer: a buffer without bytes is an
  index panic, \<open>None\<close>.
\<close>

definition Write :: "(nat \<Rightarrow> nat) \<Rightarrow> string \<Rightarrow> Sensitive \<Rightarrow> memory \<Rightarrow> (Sensitive \<times> memory) option" where
  "Write spare bs s m =
     (case go_append spare (buf s) bs m of
        (new, m1) \<Rightarrow>
          if slen new = 0 \<or> slen (buf s) = 0 then None
          else if (blk new, off new) \<noteq> (blk (buf s), off (buf s)) then Some (New new, zeroMeta s m1)
          else Some (s\<lparr>buf := new\<rparr>, m1))"

definition Len :: "Sensitive \<Rightarrow> nat" where
  "Len s = slen (buf s)"

definition SensitiveAppend ::
    "(nat \<Rightarrow> nat) \<Rightarrow> Sensitive \<Rightarrow> Sensitive \<Rightarrow> memory \<Rightarrow> (Sensitive \<times> memory) option" where
  "SensitiveAppend spare other s m = Write spare (slice_bytes m (buf other)) s m"

definition Clear :: "Sensitive \<Rightarrow> memory \<Rightarrow> memory" where
  "Clear s m = zeroMeta s m"

text \<open>\<open>String\<close> does not copy: it shows the bytes that the memory holds at the time it is looked at.\<close>

definition SensitiveString :: "Sensitive \<Rightarrow> memory \<Rightarrow> string" where
  "SensitiveString s m = slice_bytes m (buf s)"

fun writes :: "(nat \<Rightarrow> nat) \<Rightarrow> string list \<Rightarrow> Sensitive \<Rightarrow> memory \<Rightarrow> (Sensitive \<times> memory) option" where
  "writes spare [] s m = Some (s, m)"
| "writes spare (b # bs) s m =
     (case Write spare b s m of
        None \<Rightarrow> None
      | Some (s1, m1) \<Rightarrow> writes spare bs s1 m1)"

section \<open>Well-formed slices\<close>

definition slice_ok :: "memory \<Rightarrow> slice \<Rightarrow> bool" where
  "slice_ok m s \<longleftrightarrow> blk s < length m \<and> slen s \<le> scap s \<and> off s + scap s \<le> length (m ! blk s)"

lemma length_put_bytes [simp]: "i + length bs \<le> length c \<Longrightarrow> length (put_bytes i bs c) = length c"
  by (simp add: put_bytes_def)

lemma length_slice_bytes [simp]: "slice_ok m s \<Longrightarrow> length (slice_bytes m s) = slen s"
  by (auto simp: slice_ok_def slice_bytes_def)

lemma take_drop_put_bytes:
  assumes "i + n + length bs \<le> length c"
  shows "take (n + length bs) (drop i (put_bytes (i + n) bs c)) = take n (drop i c) @ bs"
  using assms by (cases bs) (auto simp: put_bytes_def min_def take_drop add.commute [of n i])

lemma length_go_append: "length m \<le> length (snd (go_append spare s bs m))"
  by (simp add: go_append_def Let_def)

lemma go_append_ok:
  assumes "slice_ok m s" "go_append spare s bs m = (s', m')"
  shows "slice_ok m' s'" "slice_bytes m' s' = slice_bytes m s @ bs" "slen s' = slen s + length bs"
proof -
  show "slen s' = slen s + length bs" using assms(2) by (auto simp: go_append_def Let_def split: if_splits)
  show "slice_ok m' s'" using assms by (auto simp: go_append_def slice_ok_def Let_def slice_bytes_def split: if_splits)
  show "slice_bytes m' s' = slice_bytes m s @ bs"
  proof (cases "slen s + length bs \<le> scap s")
    case True
    then show ?thesis
      using assms take_drop_put_bytes [of "off s" "slen s" bs "m ! blk s"]
      by (auto simp: go_append_def slice_ok_def slice_bytes_def)
  next
    case False
    then show ?thesis using assms(2) length_slice_bytes [OF assms(1)]
      by (auto simp: go_append_def Let_def slice_bytes_def [of m'])
  qed
qed

section \<open>No copy is left\<close>

text \<open>
  The blocks that belong to a buffer: the one it started in and all that were taken from the heap since. Of these,
  everything outside the buffer is zero.
\<close>

definition zeroed_from :: "nat \<Rightarrow> nat \<Rightarrow> Sensitive \<times> memory \<Rightarrow> bool" where
  "zeroed_from home n sm \<longleftrightarrow>
     (case sm of (s, m) \<Rightarrow>
        n \<le> length m \<and> (blk (buf s) = home \<or> n \<le> blk (buf s)) \<and> slice_ok m (buf s)
        \<and> (\<forall>i < length m. i = home \<or> n \<le> i \<longrightarrow>
             (\<forall>j < length (m ! i). m ! i ! j = zero
                \<or> i = blk (buf s) \<and> off (buf s) \<le> j \<and> j < off (buf s) + slen (buf s))))"

lemma put_bytes_nth:
  "i + length bs \<le> length c \<Longrightarrow> j < length c \<Longrightarrow>
     put_bytes i bs c ! j = (if i \<le> j \<and> j < i + length bs then bs ! (j - i) else c ! j)"
  by (auto simp: put_bytes_def nth_append min_def)

lemma zeroed_block:
  assumes "zeroed_from home n (s, m)" "i < length m" "i = home \<or> n \<le> i" "j < length (m ! i)"
    "i = blk (buf s) \<Longrightarrow> \<not> (off (buf s) \<le> j \<and> j < off (buf s) + slen (buf s))"
  shows "m ! i ! j = zero"
  using assms by (auto simp: zeroed_from_def)

lemma zeroed_in_place:
  assumes z: "zeroed_from home n (s, m)" and fits: "slen (buf s) + length bs \<le> scap (buf s)"
  defines "m1 \<equiv> m[blk (buf s) := put_bytes (off (buf s) + slen (buf s)) bs (m ! blk (buf s))]"
  shows "zeroed_from home n (s\<lparr>buf := (buf s)\<lparr>slen := slen (buf s) + length bs\<rparr>\<rparr>, m1)"
proof -
  have ok: "slice_ok m (buf s)" using z by (simp add: zeroed_from_def)
  have len: "length m1 = length m" "i < length m \<Longrightarrow> length (m1 ! i) = length (m ! i)" for i
    using ok fits by (auto simp: m1_def slice_ok_def nth_list_update)
  have "m1 ! i ! j = zero"
    if i: "i < length m" "i = home \<or> n \<le> i" "j < length (m ! i)"
      "i = blk (buf s) \<Longrightarrow> \<not> (off (buf s) \<le> j \<and> j < off (buf s) + (slen (buf s) + length bs))" for i j
  proof -
    have "m ! i ! j = zero" using i by (intro zeroed_block [OF z i(1,2,3)]) auto
    then show ?thesis using i ok fits
      by (cases "i = blk (buf s)") (auto simp: m1_def slice_ok_def put_bytes_nth)
  qed
  moreover have "slice_ok m1 ((buf s)\<lparr>slen := slen (buf s) + length bs\<rparr>)"
    using ok fits len by (auto simp: slice_ok_def)
  ultimately show ?thesis using z len by (auto simp: zeroed_from_def)
qed

lemma zeroed_moved:
  assumes z: "zeroed_from home n (s, m)" and new: "off b = 0" "blk b = length m" "slice_ok (m @ [c]) b"
    and rest: "\<And>j. slen b \<le> j \<Longrightarrow> j < length c \<Longrightarrow> c ! j = zero"
  shows "zeroed_from home n (New b, zeroMeta s (m @ [c]))"
proof -
  have ok: "slice_ok m (buf s)" using z by (simp add: zeroed_from_def)
  let ?m1 = "zeroMeta s (m @ [c])"
  have len: "length ?m1 = Suc (length m)" by (simp add: zeroMeta_def)
  have old: "?m1 ! i = (if i = blk (buf s)
      then put_bytes (off (buf s)) (replicate (slen (buf s)) zero) (m ! i) else m ! i)" if "i < length m" for i
    using that ok by (auto simp: zeroMeta_def nth_append nth_list_update slice_ok_def)
  have fresh: "?m1 ! length m = c" using ok by (auto simp: zeroMeta_def slice_ok_def)
  have "?m1 ! i ! j = zero" if i: "i < length m" "i = home \<or> n \<le> i" "j < length (?m1 ! i)" for i j
  proof -
    have j: "j < length (m ! i)" using i ok by (auto simp: old slice_ok_def split: if_splits)
    show ?thesis
    proof (cases "i = blk (buf s) \<and> off (buf s) \<le> j \<and> j < off (buf s) + slen (buf s)")
      case True
      then show ?thesis using i(1) j ok by (auto simp: old put_bytes_nth slice_ok_def)
    next
      case False
      then have "m ! i ! j = zero" using zeroed_block [OF z i(1,2) j] by blast
      then show ?thesis using i(1) j ok by (auto simp: old put_bytes_nth slice_ok_def)
    qed
  qed
  then have all: "?m1 ! i ! j = zero"
    if "i < length ?m1" "i = home \<or> n \<le> i" "j < length (?m1 ! i)" "\<not> (i = length m \<and> j < slen b)" for i j
    using that rest fresh len by (cases "i = length m") auto
  moreover have "slice_ok ?m1 b" using new fresh len by (auto simp: slice_ok_def)
  ultimately show ?thesis using z new len by (auto simp: zeroed_from_def New_def)
qed

lemma slice_bytes_zeroMeta:
  "blk b \<noteq> blk (buf s) \<Longrightarrow> slice_bytes (zeroMeta s m) b = slice_bytes m b"
  by (simp add: slice_bytes_def zeroMeta_def)

lemma Write_result:
  assumes z: "zeroed_from home n (s, m)" and w: "Write spare bs s m = Some (s', m')"
  shows "zeroed_from home n (s', m')" "SensitiveString s' m' = SensitiveString s m @ bs"
    "slen (buf s') = slen (buf s) + length bs" "\<And>i. i < n \<Longrightarrow> i \<noteq> home \<Longrightarrow> m' ! i = m ! i"
proof -
  have ok: "slice_ok m (buf s)" and n: "n \<le> length m" "blk (buf s) = home \<or> n \<le> blk (buf s)"
    using z by (simp_all add: zeroed_from_def)
  obtain b m1 where a: "go_append spare (buf s) bs m = (b, m1)" by fastforce
  note r = go_append_ok [OF ok a]
  have both: "zeroed_from home n (s', m') \<and> SensitiveString s' m' = SensitiveString s m @ bs
    \<and> slen (buf s') = slen (buf s) + length bs \<and> (\<forall>i. i < n \<longrightarrow> i \<noteq> home \<longrightarrow> m' ! i = m ! i)"
  proof (cases "slen (buf s) + length bs \<le> scap (buf s)")
    case True
    then have same: "b = (buf s)\<lparr>slen := slen (buf s) + length bs\<rparr>"
        "m1 = m[blk (buf s) := put_bytes (off (buf s) + slen (buf s)) bs (m ! blk (buf s))]"
      using a by (simp_all add: go_append_def)
    then have "s' = s\<lparr>buf := b\<rparr>" "m' = m1" using w a by (auto simp: Write_def split: if_splits)
    then show ?thesis using zeroed_in_place [OF z True] r same n by (auto simp: SensitiveString_def)
  next
    case False
    let ?k = "slen (buf s) + length bs"
    have new: "b = \<lparr>blk = length m, off = 0, slen = ?k, scap = ?k + spare ?k\<rparr>"
        "m1 = m @ [slice_bytes m (buf s) @ bs @ replicate (spare ?k) zero]"
      using a False by (simp_all add: go_append_def Let_def)
    have neq: "blk b \<noteq> blk (buf s)" using ok by (simp add: new slice_ok_def)
    then have s': "s' = New b" "m' = zeroMeta s m1" using w a by (auto simp: Write_def split: if_splits)
    have "zeroed_from home n (New b, zeroMeta s m1)"
      unfolding new(2)
    proof (rule zeroed_moved [OF z])
      show "slice_ok (m @ [slice_bytes m (buf s) @ bs @ replicate (spare ?k) zero]) b" using r(1) new(2) by simp
      show "(slice_bytes m (buf s) @ bs @ replicate (spare ?k) zero) ! j = zero"
        if "slen b \<le> j" "j < length (slice_bytes m (buf s) @ bs @ replicate (spare ?k) zero)" for j
        using that length_slice_bytes [OF ok] by (auto simp: new(1) nth_append)
    qed (simp_all add: new)
    moreover have "SensitiveString s' m' = SensitiveString s m @ bs"
      using r(2) slice_bytes_zeroMeta [OF neq] by (simp add: s' SensitiveString_def New_def)
    moreover have "m' ! i = m ! i" if "i < n" "i \<noteq> home" for i
    proof -
      have "blk (buf s) \<noteq> i" using n that by auto
      then show ?thesis using n that by (simp add: s' new zeroMeta_def nth_append)
    qed
    ultimately show ?thesis using r(3) by (simp add: s' New_def)
  qed
  then show "zeroed_from home n (s', m')" "SensitiveString s' m' = SensitiveString s m @ bs"
    "slen (buf s') = slen (buf s) + length bs" "\<And>i. i < n \<Longrightarrow> i \<noteq> home \<Longrightarrow> m' ! i = m ! i"
    by blast+
qed

lemma writes_result:
  assumes "zeroed_from home n (s, m)" "writes spare bs s m = Some (s', m')"
  shows "zeroed_from home n (s', m') \<and> SensitiveString s' m' = SensitiveString s m @ concat bs
    \<and> (\<forall>i. i < n \<longrightarrow> i \<noteq> home \<longrightarrow> m' ! i = m ! i)"
  using assms
proof (induction bs arbitrary: s m)
  case (Cons b bs)
  obtain s1 m1 where w: "Write spare b s m = Some (s1, m1)" "writes spare bs s1 m1 = Some (s', m')"
    using Cons.prems(2) by (auto split: option.splits)
  note r = Write_result [OF Cons.prems(1) w(1)]
  show ?case using Cons.IH [OF r(1) w(2)] r by auto
qed simp

lemma Clear_zeroes:
  assumes "zeroed_from home n (s, m)" "i < length m" "i = home \<or> n \<le> i"
  shows "set (Clear s m ! i) \<subseteq> {zero}"
proof -
  have ok: "slice_ok m (buf s)" using assms(1) by (simp add: zeroed_from_def)
  have c: "Clear s m ! i = (if i = blk (buf s)
      then put_bytes (off (buf s)) (replicate (slen (buf s)) zero) (m ! i) else m ! i)"
    using assms(2) by (auto simp: Clear_def zeroMeta_def nth_list_update)
  have "Clear s m ! i ! j = zero" if j: "j < length (Clear s m ! i)" for j
  proof -
    have l: "j < length (m ! i)" using j ok by (auto simp: c slice_ok_def split: if_splits)
    show ?thesis
    proof (cases "i = blk (buf s) \<and> off (buf s) \<le> j \<and> j < off (buf s) + slen (buf s)")
      case True
      then show ?thesis unfolding c using l ok by (auto simp: put_bytes_nth slice_ok_def)
    next
      case False
      then have "m ! i ! j = zero" using zeroed_block [OF assms l] by blast
      then show ?thesis unfolding c using l ok by (auto simp: put_bytes_nth slice_ok_def)
    qed
  qed
  then show ?thesis by (auto simp: in_set_conv_nth)
qed

text \<open>
  C22. A buffer that starts in a block of its own holds after any writes exactly what was written, in order; no byte of
  it is anywhere else in the memory that was taken for it, other memory is untouched, and after \<open>Clear\<close> nothing
  but zeroes is left, although the buffer may have moved many times.
\<close>

theorem sensitive_leaves_no_copy:
  assumes "slice_ok m b" "list_all (\<lambda>j. off b \<le> j \<and> j < off b + slen b \<or> m ! blk b ! j = zero) [0..<length (m ! blk b)]"
    and "writes spare bs (New b) m = Some (s, m')"
  shows "SensitiveString s m' = slice_bytes m b @ concat bs
    \<and> (\<forall>i < length m'. if i = blk b \<or> length m \<le> i then set (Clear s m' ! i) \<subseteq> {zero} else m' ! i = m ! i)"
proof -
  have "zeroed_from (blk b) (length m) (New b, m)"
    using assms(1,2) by (auto simp: zeroed_from_def New_def list_all_iff)
  from writes_result [OF this assms(3)]
  have r: "zeroed_from (blk b) (length m) (s, m')" "SensitiveString s m' = slice_bytes m b @ concat bs"
      "\<And>i. i < length m \<Longrightarrow> i \<noteq> blk b \<Longrightarrow> m' ! i = m ! i"
    by (auto simp: SensitiveString_def New_def)
  show ?thesis using r(2,3) Clear_zeroes [OF r(1)] by auto
qed

text \<open>
  A write panics exactly on an empty buffer, whatever is written; so a buffer that starts with a byte can be
  written to for ever.
\<close>

theorem write_panics_iff: "Write spare bs s m = None \<longleftrightarrow> slen (buf s) = 0"
  by (auto simp: Write_def go_append_def Let_def split: prod.splits if_splits)

lemma sensitive_leaves_no_copy_witness:
  "\<exists>s m'. writes (\<lambda>n. 2) [''ab'', ''c''] (New \<lparr>blk = 1, off = 0, slen = 2, scap = 2\<rparr>) [''other'', ''k='']
       = Some (s, m')
     \<and> SensitiveString s m' = ''k=abc'' \<and> set (Clear s m' ! 1) \<subseteq> {zero}"
proof -
  let ?b = "\<lparr>blk = 1, off = 0, slen = 2, scap = 2\<rparr>" and ?m = "[''other'', ''k='']"
  have "writes (\<lambda>n. 2) [''ab'', ''c''] (New ?b) ?m \<noteq> None" by code_simp
  then obtain s m' where w: "writes (\<lambda>n. 2) [''ab'', ''c''] (New ?b) ?m = Some (s, m')" by auto
  have "map_option (\<lambda>x. length (snd x)) (writes (\<lambda>n. 2) [''ab'', ''c''] (New ?b) ?m) = Some 3" by code_simp
  then have l: "length m' = 3" unfolding w by simp
  have ok: "slice_ok ?m ?b" by (simp add: slice_ok_def)
  have "SensitiveString s m' = slice_bytes ?m ?b @ concat [''ab'', ''c'']
    \<and> (\<forall>i < length m'. if i = blk ?b \<or> length ?m \<le> i then set (Clear s m' ! i) \<subseteq> {zero} else m' ! i = ?m ! i)"
    by (rule sensitive_leaves_no_copy [OF ok _ w]) simp
  then show ?thesis using w l by (auto simp: slice_bytes_def simp del: writes.simps)
qed

end
