(* ===== verification/Secrets.thy ===== *)
theory Secrets
  imports Sensitive Paths
begin

text \<open>
  internal/securityutility and internal/simpleauth: passwords are encoded by an external tool, a key file for the
  web server is made by it, and the developer configuration hands the encoded passwords on in the environment. What
  the tool does to files is a parameter; the environment that it is run with is that of the program.
\<close>

section \<open>The tool\<close>

abbreviation (input) aesKeyFile :: string where "aesKeyFile \<equiv> ''/dev/shm/liberty-aes-key.xml''"
abbreviation (input) securityUtilityWrapper :: string where
  "securityUtilityWrapper \<equiv> ''/usr/local/bin/security-utility.sh''"
abbreviation (input) securityUtilityPath :: string where "securityUtilityPath \<equiv> ''/opt/mqm/web/bin/securityUtility''"

definition validateSecurityUtility :: "host \<Rightarrow> string option" where
  "validateSecurityUtility h =
     (case os_stat securityUtilityWrapper h of
        Some NotExist \<Rightarrow> Some (''security utility wrapper not found at '' @ securityUtilityWrapper)
      | Some (IoErr e) \<Rightarrow> Some (''failed to access security utility wrapper at '' @ securityUtilityWrapper @ '': '' @ e)
      | None \<Rightarrow>
          (case os_stat securityUtilityPath h of
             Some NotExist \<Rightarrow> Some (''securityUtility not found at '' @ securityUtilityPath)
           | Some (IoErr e) \<Rightarrow> Some (''failed to access securityUtility at '' @ securityUtilityPath @ '': '' @ e)
           | None \<Rightarrow> None))"

definition executeSecurityUtility :: "string list \<Rightarrow> string \<Rightarrow> host \<Rightarrow> cmd_result \<times> host" where
  "executeSecurityUtility args secret h = run_cmd (securityUtilityWrapper # args @ [secret]) h"

definition extractEncodedSecret :: "string \<Rightarrow> (string, string) result" where
  "extractEncodedSecret output =
     (case find (\<lambda>l. contains l ''{aes}'' \<or> contains l ''{hash}'') (split_on newline output) of
        Some l \<Rightarrow> Inr l
      | None \<Rightarrow> Inl ''securityUtility did not return an encoded secret'')"

definition encode_args :: "bool \<Rightarrow> string list" where
  "encode_args useAES =
     (if useAES then [''encode'', ''--encoding=aes'', ''--aesConfigFile='' @ aesKeyFile]
      else [''encode'', ''--encoding=hash''])"

definition EncodeSecrets :: "string \<Rightarrow> bool \<Rightarrow> host \<Rightarrow> (string, string) result \<times> host" where
  "EncodeSecrets secret useAES h =
     (case validateSecurityUtility h of
        Some e \<Rightarrow> (Inl e, h)
      | None \<Rightarrow>
          if length secret > 256 then
            (Inl (''length of password is greater than the maximum length of 256 characters, actual length is ''
                  @ nat_digits (length secret)), h)
          else
            (case executeSecurityUtility (encode_args useAES) secret h of
               (r, h1) \<Rightarrow>
                 (case cmd_err r of
                    Some e \<Rightarrow> (Inl (''securityUtility encode failed: '' @ e @ '', output: '' @ cmd_out r), h1)
                  | None \<Rightarrow>
                      (case extractEncodedSecret (cmd_out r) of
                         Inl e \<Rightarrow> (Inl (''failed to extract encoded secret from output: '' @ e @ '', output: '' @ cmd_out r), h1)
                       | Inr s \<Rightarrow> (Inr (trim_space s), h1)))))"

text \<open>
  \<open>GenerateLibertyAESKeyFile\<close>; \<open>made\<close> is what a run of the tool does to the files. The argument is put together in
  a \<open>Sensitive\<close> buffer that starts with six bytes, so that appending the key does not panic (\<open>write_panics_iff\<close>).
\<close>

definition make_key_file :: "(string list \<Rightarrow> host \<Rightarrow> host) \<Rightarrow> string \<Rightarrow> host \<Rightarrow> string option \<times> host" where
  "make_key_file made initialKey h =
     (let args = [''generateAESKey'', ''--createConfigFile='' @ aesKeyFile] in
      case executeSecurityUtility args (''--key='' @ initialKey) h of
        (r, h1) \<Rightarrow>
          (let h2 = made (args @ [''--key='' @ initialKey]) h1 in
           case cmd_err r of
             Some e \<Rightarrow> (Some (''securityUtility generateAESKey failed: '' @ e @ '', output: '' @ cmd_out r), h2)
           | None \<Rightarrow>
               (case os_stat aesKeyFile h2 of
                  Some NotExist \<Rightarrow> (Some (''failed to create AES key file at '' @ aesKeyFile @ '': '' @ cmd_out r), h2)
                | Some (IoErr e) \<Rightarrow> (Some (''failed to verify AES key file at '' @ aesKeyFile @ '': '' @ e), h2)
                | None \<Rightarrow> (None, h2))))"

definition GenerateLibertyAESKeyFile ::
    "(string list \<Rightarrow> host \<Rightarrow> host) \<Rightarrow> string \<Rightarrow> host \<Rightarrow> string option \<times> host" where
  "GenerateLibertyAESKeyFile made initialKey h =
     (case validateSecurityUtility h of
        Some e \<Rightarrow> (Some e, h)
      | None \<Rightarrow>
          if length initialKey < 16 then
            (Some (''length of initialKey is less than the minimum length of 16 characters, actual length is ''
                   @ nat_digits (length initialKey)), h)
          else if length initialKey > 256 then
            (Some (''length of initialKey is greater than the maximum length of 256 characters, actual length is ''
                   @ nat_digits (length initialKey)), h)
          else if os_stat aesKeyFile h = None then
            (case os_remove aesKeyFile h of
               (Some e, h1) \<Rightarrow>
                 (Some (''failed to remove existing AES key file at '' @ aesKeyFile @ '': '' @ err_text e), h1)
             | (None, h1) \<Rightarrow> make_key_file made initialKey h1)
          else make_key_file made initialKey h)"

section \<open>Simple authentication\<close>

text \<open>What differs between the passwords of the administrator and of the application.\<close>

record password_block =
  secret_path :: string
  pwd_env :: string
  secure_env :: string
  secret_name :: string
  title :: string
  user_name :: string

definition admin_block :: password_block where
  "admin_block =
     \<lparr>secret_path = ''/run/secrets/mqAdminPassword'', pwd_env = ''MQ_ADMIN_PASSWORD'',
      secure_env = ''MQ_ADMIN_PASSWORD_SECURE'', secret_name = ''mqAdminPassword'', title = ''Admin'', user_name = ''admin''\<rparr>"

definition app_block :: password_block where
  "app_block =
     \<lparr>secret_path = ''/run/secrets/mqAppPassword'', pwd_env = ''MQ_APP_PASSWORD'',
      secure_env = ''MQ_APP_PASSWORD_SECURE'', secret_name = ''mqAppPassword'', title = ''App'', user_name = ''app''\<rparr>"

definition given :: "host \<Rightarrow> string \<Rightarrow> bool" where
  "given h k \<longleftrightarrow> (case env h k of None \<Rightarrow> False | Some v \<Rightarrow> trim_space v \<noteq> [])"

definition IsEnabled :: "host \<Rightarrow> bool" where
  "IsEnabled h \<longleftrightarrow>
     (case env h ''MQ_CONNAUTH_USE_HTP'' of None \<Rightarrow> False | Some v \<Rightarrow> equal_fold v ''true'')
     \<and> (given h (pwd_env admin_block) \<or> given h (pwd_env app_block)
        \<or> given h (secure_env app_block) \<or> given h (secure_env admin_block))"

text \<open>\<open>os.Setenv\<close> refuses a value with a zero byte.\<close>

definition os_setenv :: "string \<Rightarrow> string \<Rightarrow> host \<Rightarrow> string option \<times> host" where
  "os_setenv k v h = (if zero \<in> set v then (Some ''setenv: invalid argument'', h) else (None, setenv k v h))"

definition readMQSecrets :: "string \<Rightarrow> host \<Rightarrow> (string, string) result \<times> host" where
  "readMQSecrets secretName h =
     (case os_read (path_clean secretName) h of
        Inl e \<Rightarrow> (Inl (err_text e), h)
      | Inr password \<Rightarrow>
          if length password > 256 then
            (Inl (''the length of the password cannot be more than 256 characters, length of the password was ''
                  @ nat_digits (length password)), h)
          else EncodeSecrets password False h)"

definition set_secure :: "password_block \<Rightarrow> string \<Rightarrow> host \<Rightarrow> string option \<times> host" where
  "set_secure b encoded h =
     (case os_setenv (secure_env b) encoded h of
        (Some e, h1) \<Rightarrow>
          (Some (''setting encoded '' @ user_name b @ '' user password to environment variable failed with error '' @ e), h1)
      | (None, h1) \<Rightarrow> (None, h1))"

definition both_present :: "password_block \<Rightarrow> string" where
  "both_present b =
     ''Environment variable '' @ pwd_env b @ '' and the file '' @ secret_path b @ '' are both present. '' @ pwd_env b
       @ '' is deprecated, will be ignored, and should be removed.''"

definition check_password :: "password_block \<Rightarrow> host \<Rightarrow> string option \<times> host" where
  "check_password b h =
     (if os_stat (secret_path b) h = None then
        (let h1 = (if given h (pwd_env b) then say InfoL (both_present b) h else h) in
         case readMQSecrets (secret_path b) h1 of
           (Inl e, h2) \<Rightarrow>
             (Some (''encoding '' @ secret_name b @ '' secret for web server failed with error '' @ e), h2)
         | (Inr encoded, h2) \<Rightarrow> if encoded \<noteq> [] then set_secure b encoded h2 else (None, h2))
      else if given h (pwd_env b) then
        (case EncodeSecrets (getenv h (pwd_env b)) False h of
           (Inl e, h1) \<Rightarrow> (Some (''encoding '' @ title b @ '' password for web server failed with error '' @ e), h1)
         | (Inr encoded, h1) \<Rightarrow>
             (case set_secure b encoded h1 of
                (Some e, h2) \<Rightarrow> (Some e, h2)
              | (None, h2) \<Rightarrow>
                  (None, say InfoL (''Environment variable '' @ pwd_env b
                                    @ '' is deprecated, use secrets to set the passwords'') h2)))
      else (None, h))"

definition CheckForPasswords :: "host \<Rightarrow> string option \<times> host" where
  "CheckForPasswords h =
     (case check_password admin_block h of
        (Some e, h1) \<Rightarrow> (Some e, h1)
      | (None, h1) \<Rightarrow> check_password app_block h1)"

section \<open>Encoding\<close>

lemma os_frame_env [simp]:
  "os_stat p (setenv k v h) = os_stat p h" "os_stat p (say l m h) = os_stat p h" "os_stat p (h\<lparr>cmds := c\<rparr>) = os_stat p h"
  "os_read p (setenv k v h) = os_read p h" "os_read p (say l m h) = os_read p h"
  by (simp_all add: os_stat_def os_read_def setenv_def say_def cong: option.case_cong)

lemma validate_frame [simp]:
  "validateSecurityUtility (setenv k v h) = validateSecurityUtility h"
  "validateSecurityUtility (say l m h) = validateSecurityUtility h"
  by (simp_all only: validateSecurityUtility_def os_frame_env)

lemma extracted:
  assumes "extractEncodedSecret out = Inr l"
  shows "newline \<notin> set l" "contains l ''{aes}'' \<or> contains l ''{hash}''"
  using assms by (auto simp: extractEncodedSecret_def split: option.splits dest: find_Some_in_set split_on_elem_no_sep)

lemma marker_kept:
  "contains l ''{aes}'' \<or> contains l ''{hash}'' \<Longrightarrow>
     contains (trim_space l) ''{aes}'' \<or> contains (trim_space l) ''{hash}''"
  using trim_space_contains [where s = l and x = "''{aes}''"] trim_space_contains [where s = l and x = "''{hash}''"]
  by (auto simp: solid_def)

lemma EncodeSecrets_result:
  assumes "EncodeSecrets s useAES h = (Inr e, h')"
  shows "h' = h\<lparr>cmds := cmds h @ [securityUtilityWrapper # encode_args useAES @ [s]]\<rparr>"
    "length s \<le> 256" "newline \<notin> set e" "contains e ''{aes}'' \<or> contains e ''{hash}''" "trim_space e = e"
proof -
  obtain l where l: "extractEncodedSecret (cmd_out (exec h (cmds h) (securityUtilityWrapper # encode_args useAES @ [s]))) = Inr l"
      "e = trim_space l" "h' = h\<lparr>cmds := cmds h @ [securityUtilityWrapper # encode_args useAES @ [s]]\<rparr>" "length s \<le> 256"
    using assms by (auto simp: EncodeSecrets_def executeSecurityUtility_def run_cmd_def split: option.splits if_splits sum.splits)
  show "h' = h\<lparr>cmds := cmds h @ [securityUtilityWrapper # encode_args useAES @ [s]]\<rparr>" "length s \<le> 256" by fact+
  show "newline \<notin> set e" using extracted(1) [OF l(1)] set_trim_space [of l] by (auto simp: l(2))
  show "contains e ''{aes}'' \<or> contains e ''{hash}''" unfolding l(2) by (rule marker_kept [OF extracted(2) [OF l(1)]])
  show "trim_space e = e" by (simp add: l(2))
qed

lemma EncodeSecrets_frame:
  assumes "EncodeSecrets s useAES h = (r, h')"
  shows "files h' = files h" "env h' = env h" "exec h' = exec h" "faults h' = faults h"
  using assms
  by (auto simp: EncodeSecrets_def executeSecurityUtility_def run_cmd_def split: option.splits if_splits sum.splits)

text \<open>
  What is taken for the encoded secret is one line of the output of the single run of the tool, trimmed, with one
  of the two markers; a secret of more than 256 bytes never reaches the tool.
\<close>

theorem encoded_secret:
  "case EncodeSecrets s useAES h of
     (Inr e, h') \<Rightarrow>
       h' = h\<lparr>cmds := cmds h @ [securityUtilityWrapper # encode_args useAES @ [s]]\<rparr>
       \<and> newline \<notin> set e \<and> (contains e ''{aes}'' \<or> contains e ''{hash}'')
   | (Inl e, h') \<Rightarrow> (if 256 < length s then h' = h else files h' = files h \<and> env h' = env h)"
proof (cases "EncodeSecrets s useAES h")
  case (Pair r h')
  show ?thesis
  proof (cases r)
    case (Inl e)
    then show ?thesis using Pair EncodeSecrets_frame [OF Pair]
      by (auto simp: EncodeSecrets_def split: option.splits)
  next
    case (Inr e)
    then show ?thesis using EncodeSecrets_result [of s useAES h e h'] Pair by simp
  qed
qed

section \<open>The key file\<close>

text \<open>
  The tool that makes the key file runs only for a key of 16 to 256 bytes and with the old key file gone; in every
  other case an error is reported and nothing has changed. It succeeds exactly if the command does and the file is there afterwards.
\<close>

theorem key_file_guarded:
  assumes "GenerateLibertyAESKeyFile made key h = (r, h')" "faults h (OpStat aesKeyFile) = None"
  shows "if validateSecurityUtility h \<noteq> None \<or> length key < 16 \<or> 256 < length key \<or> faults h (OpRemove aesKeyFile) \<noteq> None \<and> files h aesKeyFile \<noteq> None
    then r \<noteq> None \<and> h' = h
    else (let args = [''generateAESKey'', ''--createConfigFile='' @ aesKeyFile, ''--key='' @ key];
              h1 = h\<lparr>files := (files h)(aesKeyFile := None), cmds := cmds h @ [securityUtilityWrapper # args]\<rparr>
          in h' = made args h1
             \<and> (r = None) = (cmd_err (exec h (cmds h) (securityUtilityWrapper # args)) = None \<and> os_stat aesKeyFile h' = None))"
proof -
  have gone: "h\<lparr>files := (files h)(aesKeyFile := None)\<rparr> = h" if "files h aesKeyFile = None"
    using that by (simp add: fun_upd_idem)
  have mk: "make_key_file made key h0 = (r, h') \<Longrightarrow>
      (let args = [''generateAESKey'', ''--createConfigFile='' @ aesKeyFile, ''--key='' @ key];
           h1 = h0\<lparr>cmds := cmds h0 @ [securityUtilityWrapper # args]\<rparr>
       in h' = made args h1
          \<and> (r = None) = (cmd_err (exec h0 (cmds h0) (securityUtilityWrapper # args)) = None \<and> os_stat aesKeyFile h' = None))"
    for h0
    by (auto simp: make_key_file_def executeSecurityUtility_def run_cmd_def Let_def split: option.splits io_error.splits)
  show ?thesis
  proof (cases "validateSecurityUtility h \<noteq> None \<or> length key < 16 \<or> 256 < length key")
    case True
    then have "r \<noteq> None \<and> h' = h" using assms(1) [symmetric]
      by (cases "validateSecurityUtility h") (auto simp: GenerateLibertyAESKeyFile_def split: if_splits)
    then show ?thesis using True by auto
  next
    case run: False
    show ?thesis
    proof (cases "files h aesKeyFile")
      case None
      then have "os_stat aesKeyFile h = Some NotExist" using assms(2) by (simp add: os_stat_def)
      then show ?thesis using assms(1) run mk [of h] None gone
        by (auto simp: GenerateLibertyAESKeyFile_def Let_def split: option.splits if_splits)
    next
      case (Some c)
      then have s: "os_stat aesKeyFile h = None" using assms(2) by (simp add: os_stat_def)
      show ?thesis
      proof (cases "faults h (OpRemove aesKeyFile)")
        case None
        then have "os_remove aesKeyFile h = (None, h\<lparr>files := (files h)(aesKeyFile := None)\<rparr>)"
          using Some by (simp add: os_remove_def)
        then show ?thesis using assms(1) run mk [of "h\<lparr>files := (files h)(aesKeyFile := None)\<rparr>"] None s
          by (auto simp: GenerateLibertyAESKeyFile_def Let_def split: option.splits if_splits)
      next
        case f: (Some e)
        then have "os_remove aesKeyFile h = (Some (IoErr e), h)" by (simp add: os_remove_def)
        then show ?thesis using assms(1) run f Some s
          by (auto simp: GenerateLibertyAESKeyFile_def split: option.splits if_splits)
      qed
    qed
  qed
qed

section \<open>Passwords\<close>

text \<open>A variable that is not looked at can be changed before or after.\<close>

abbreviation (input) set_after :: "string \<Rightarrow> string \<Rightarrow> 'a \<times> host \<Rightarrow> 'a \<times> host" where
  "set_after k v \<equiv> map_prod id (setenv k v)"

lemma setenv_twice [simp]: "setenv k q (setenv k p h) = setenv k q h"
  by (simp add: setenv_def)

lemma say_setenv [simp]: "say l m (setenv k v h) = setenv k v (say l m h)"
  by (simp add: say_def setenv_def)

lemma run_cmd_setenv: "run_cmd a (setenv k v h) = set_after k v (run_cmd a h)"
  by (simp add: run_cmd_def setenv_def)

lemma EncodeSecrets_setenv: "EncodeSecrets s a (setenv k v h) = set_after k v (EncodeSecrets s a h)"
  by (simp add: EncodeSecrets_def executeSecurityUtility_def run_cmd_setenv split: option.splits sum.splits prod.splits)

lemma readMQSecrets_setenv: "readMQSecrets p (setenv k v h) = set_after k v (readMQSecrets p h)"
  by (simp add: readMQSecrets_def EncodeSecrets_setenv split: sum.splits)

lemma set_secure_setenv: "k \<noteq> secure_env b \<Longrightarrow> set_secure b e (setenv k v h) = set_after k v (set_secure b e h)"
  by (auto simp: set_secure_def os_setenv_def setenv_def fun_upd_twist)

lemma given_setenv: "given (setenv k v h) k' = (if k' = k then trim_space v \<noteq> [] else given h k')"
  by (simp add: given_def setenv_def)

lemma getenv_setenv: "k' \<noteq> k \<Longrightarrow> getenv (setenv k v h) k' = getenv h k'"
  by (simp add: getenv_def setenv_def)

lemma check_password_setenv:
  assumes "k \<noteq> secure_env b" "k \<noteq> pwd_env b"
  shows "check_password b (setenv k v h) = set_after k v (check_password b h)"
  using assms
  by (auto simp: check_password_def Let_def given_setenv getenv_setenv readMQSecrets_setenv EncodeSecrets_setenv
      set_secure_setenv split: prod.splits sum.splits option.splits)

lemma check_password_secret_wins:
  assumes "os_stat (secret_path b) h = None" "pwd_env b \<noteq> secure_env b" "trim_space p \<noteq> []" "trim_space q \<noteq> []"
  shows "check_password b (setenv (pwd_env b) q h) = set_after (pwd_env b) q (check_password b (setenv (pwd_env b) p h))"
proof -
  obtain r h2 where x: "readMQSecrets (secret_path b) (say InfoL (both_present b) h) = (r, h2)" by fastforce
  show ?thesis using assms
    by (cases r)
      (simp_all add: check_password_def given_setenv readMQSecrets_setenv x set_secure_setenv prod.map_comp comp_def id_def
        split: prod.splits)
qed

lemma block_names [simp]:
  "pwd_env admin_block \<noteq> secure_env admin_block" "pwd_env app_block \<noteq> secure_env app_block"
  "pwd_env admin_block \<noteq> secure_env app_block" "pwd_env app_block \<noteq> secure_env admin_block"
  "pwd_env admin_block \<noteq> pwd_env app_block" "secure_env admin_block \<noteq> secure_env app_block"
  by (simp_all add: admin_block_def app_block_def)

text \<open>
  When the file with the administrator's password is there, the password in the environment plays no part: whatever
  it is, the same commands run, the same lines are logged and the same environment results, but for itself.
\<close>

theorem secret_file_wins:
  assumes "os_stat ''/run/secrets/mqAdminPassword'' h = None" "trim_space p \<noteq> []" "trim_space q \<noteq> []"
  shows "CheckForPasswords (setenv ''MQ_ADMIN_PASSWORD'' q h)
    = map_prod id (setenv ''MQ_ADMIN_PASSWORD'' q) (CheckForPasswords (setenv ''MQ_ADMIN_PASSWORD'' p h))"
proof -
  let ?k = "''MQ_ADMIN_PASSWORD''"
  have k: "?k = pwd_env admin_block" by (simp add: admin_block_def)
  have "check_password admin_block (setenv ?k q h) = set_after ?k q (check_password admin_block (setenv ?k p h))"
    using check_password_secret_wins [of admin_block h p q] assms by (simp add: k) (simp add: admin_block_def)
  moreover have "check_password app_block (setenv ?k q h1) = set_after ?k q (check_password app_block h1)" for h1
    by (rule check_password_setenv) (simp_all add: app_block_def)
  ultimately show ?thesis by (simp add: CheckForPasswords_def split: prod.splits option.splits)
qed

lemma marked_nonblank: "contains e ''{aes}'' \<or> contains e ''{hash}'' \<Longrightarrow> e \<noteq> []"
  by auto

lemma check_password_given:
  assumes "check_password b h = (None, h')" "pwd_env b \<noteq> secure_env b"
  shows "env h' = (env h)(secure_env b := env h' (secure_env b))" "files h' = files h" "faults h' = faults h"
    "given h' (secure_env b) \<longleftrightarrow> given h (secure_env b) \<or> os_stat (secret_path b) h = None \<or> given h (pwd_env b)"
proof -
  have enc: "env h2 = (env h)(secure_env b \<mapsto> e) \<and> files h2 = files h \<and> faults h2 = faults h \<and> trim_space e \<noteq> []"
    if "EncodeSecrets s False h1 = (Inr e, h3)" "set_secure b e h3 = (None, h2)"
      "env h1 = env h" "files h1 = files h" "faults h1 = faults h" for s h1 e h2 h3
  proof -
    note r = EncodeSecrets_result [OF that(1)] EncodeSecrets_frame [OF that(1)]
    have "h2 = setenv (secure_env b) e h3"
      using that(2) by (auto simp: set_secure_def os_setenv_def split: if_splits)
    then show ?thesis using r(5) marked_nonblank [OF r(4)] r that by (simp add: setenv_def)
  qed
  have read: "readMQSecrets p h1 = (Inr e, h3) \<Longrightarrow> \<exists>s. EncodeSecrets s False h1 = (Inr e, h3)" for p h1 e h3
    by (auto simp: readMQSecrets_def split: sum.splits if_splits)
  have all: "env h' = (env h)(secure_env b := env h' (secure_env b)) \<and> files h' = files h \<and> faults h' = faults h
    \<and> (given h' (secure_env b) \<longleftrightarrow> given h (secure_env b) \<or> os_stat (secret_path b) h = None \<or> given h (pwd_env b))"
  proof (cases "os_stat (secret_path b) h = None")
    case True
    then obtain h1 e h3 where r: "readMQSecrets (secret_path b) h1 = (Inr e, h3)"
        "(if e \<noteq> [] then set_secure b e h3 else (None, h3)) = (None, h')" "env h1 = env h" "files h1 = files h" "faults h1 = faults h"
      using assms(1) by (auto simp: check_password_def Let_def split: prod.splits sum.splits if_splits)
    then obtain s where s: "EncodeSecrets s False h1 = (Inr e, h3)" using read by blast
    have "e \<noteq> []" using EncodeSecrets_result(4) [OF s] marked_nonblank by blast
    then have "set_secure b e h3 = (None, h')" using r(2) by simp
    from enc [OF s this r(3-5)] show ?thesis using True by (simp add: given_def)
  next
    case f: False
    show ?thesis
    proof (cases "given h (pwd_env b)")
      case True
      then obtain e h1 h2 where r: "EncodeSecrets (getenv h (pwd_env b)) False h = (Inr e, h1)" "set_secure b e h1 = (None, h2)"
          "env h' = env h2" "files h' = files h2" "faults h' = faults h2"
        using assms(1) f by (auto simp: check_password_def split: prod.splits sum.splits option.splits)
      from enc [OF r(1,2)] show ?thesis using True r(3-5) by (simp add: given_def)
    next
      case False
      then show ?thesis using assms(1) f by (auto simp: check_password_def fun_upd_idem)
    qed
  qed
  then show "env h' = (env h)(secure_env b := env h' (secure_env b))" "files h' = files h" "faults h' = faults h"
    "given h' (secure_env b) \<longleftrightarrow> given h (secure_env b) \<or> os_stat (secret_path b) h = None \<or> given h (pwd_env b)"
    by blast+
qed

lemma passwords_enable_auth:
  assumes "CheckForPasswords h = (None, h')"
  shows "IsEnabled h' \<longleftrightarrow>
    (case env h ''MQ_CONNAUTH_USE_HTP'' of None \<Rightarrow> False | Some v \<Rightarrow> equal_fold v ''true'')
    \<and> (IsEnabled h \<or> os_stat ''/run/secrets/mqAdminPassword'' h = None \<or> os_stat ''/run/secrets/mqAppPassword'' h = None)"
proof -
  obtain h1 where a: "check_password admin_block h = (None, h1)" "check_password app_block h1 = (None, h')"
    using assms by (auto simp: CheckForPasswords_def split: prod.splits option.splits)
  note r1 = check_password_given [OF a(1)] and r2 = check_password_given [OF a(2)]
  have o: "os_stat p h1 = os_stat p h" for p
    using r1(2,3) by (simp add: os_stat_def cong: option.case_cong)
  have e1: "env h1 k = env h k" if "k \<noteq> secure_env admin_block" for k
    by (subst r1(1)) (use that in simp_all)
  have e2: "env h' k = env h1 k" if "k \<noteq> secure_env app_block" for k
    by (subst r2(1)) (use that in simp_all)
  have g: "given h1 k = given h k" if "k \<noteq> secure_env admin_block" for k using e1 [OF that] by (simp add: given_def)
  have g2: "given h' k = given h1 k" if "k \<noteq> secure_env app_block" for k using e2 [OF that] by (simp add: given_def)
  have "env h' ''MQ_CONNAUTH_USE_HTP'' = env h ''MQ_CONNAUTH_USE_HTP''"
    using e1 e2 by (simp add: admin_block_def app_block_def)
  moreover have "given h' (pwd_env admin_block) = given h (pwd_env admin_block)"
      "given h' (pwd_env app_block) = given h (pwd_env app_block)"
    using g g2 block_names by (metis, metis)
  moreover have "given h' (secure_env admin_block) \<longleftrightarrow>
      given h (secure_env admin_block) \<or> os_stat (secret_path admin_block) h = None \<or> given h (pwd_env admin_block)"
    using r1(4) g2 block_names by metis
  moreover have "given h' (secure_env app_block) \<longleftrightarrow>
      given h (secure_env app_block) \<or> os_stat (secret_path app_block) h = None \<or> given h (pwd_env app_block)"
    using r2(4) g block_names o by metis
  ultimately show ?thesis unfolding IsEnabled_def by (auto simp: admin_block_def app_block_def)
qed

section \<open>Examples\<close>

definition secret_host :: host where
  "secret_host =
     \<lparr>env = [''MQ_CONNAUTH_USE_HTP'' \<mapsto> ''true''],
      files = [securityUtilityWrapper \<mapsto> [], securityUtilityPath \<mapsto> [], ''/run/secrets/mqAdminPassword'' \<mapsto> ''pw'', aesKeyFile \<mapsto> ''old''],
      faults = (\<lambda>_. None), clock = 0, hostname = None,
      exec = (\<lambda>_ _. \<lparr>cmd_out = ''{hash}x'', cmd_rc = 0, cmd_err = None\<rparr>), cmds = [], logs = []\<rparr>"

lemma secret_file_wins_witness:
  "CheckForPasswords (setenv ''MQ_ADMIN_PASSWORD'' ''other'' secret_host)
     = map_prod id (setenv ''MQ_ADMIN_PASSWORD'' ''other'') (CheckForPasswords (setenv ''MQ_ADMIN_PASSWORD'' ''one'' secret_host))
   \<and> fst (CheckForPasswords (setenv ''MQ_ADMIN_PASSWORD'' ''one'' secret_host)) = None"
proof
  have "os_stat ''/run/secrets/mqAdminPassword'' secret_host = None" "trim_space ''one'' \<noteq> []" "trim_space ''other'' \<noteq> []"
    by code_simp+
  then show "CheckForPasswords (setenv ''MQ_ADMIN_PASSWORD'' ''other'' secret_host)
     = map_prod id (setenv ''MQ_ADMIN_PASSWORD'' ''other'') (CheckForPasswords (setenv ''MQ_ADMIN_PASSWORD'' ''one'' secret_host))"
    by (rule secret_file_wins)
  show "fst (CheckForPasswords (setenv ''MQ_ADMIN_PASSWORD'' ''one'' secret_host)) = None" by code_simp
qed

lemma key_file_guarded_witness:
  "\<exists>h'. GenerateLibertyAESKeyFile (\<lambda>_ h. h\<lparr>files := (files h)(aesKeyFile \<mapsto> ''new'')\<rparr>) ''0123456789abcdef'' secret_host = (None, h')
     \<and> files h' aesKeyFile = Some ''new''"
proof -
  let ?made = "\<lambda>_ h. h\<lparr>files := (files h)(aesKeyFile \<mapsto> ''new'')\<rparr>" and ?key = "''0123456789abcdef''"
  obtain r h' where g: "GenerateLibertyAESKeyFile ?made ?key secret_host = (r, h')" by fastforce
  have f: "faults secret_host (OpStat aesKeyFile) = None" by (simp add: secret_host_def)
  have v: "validateSecurityUtility secret_host = None" by code_simp
  from key_file_guarded [OF g f] v show ?thesis
    unfolding g by (auto simp: Let_def os_stat_def secret_host_def)
qed

end
