(* ===== verification/Web.thy ===== *)
theory Web
  imports Secrets Tls Environment
begin

text \<open>
  The embedded web server: cmd/runmqserver/webserver.go and post_init.go, and internal/tls/tls_web.go. Besides the files
  of the host there are symbolic links; the walk over the directory of configuration files is the list of what
  \<open>filepath.Walk\<close> visits, and the bytes that the random generator gives for the key are a parameter.
\<close>

section \<open>The initial key\<close>

text \<open>
  \<open>trimKey\<close>, with its loops over the buffer: the first one zeroes what comes before the key, the second looks for its
  end, the third zeroes what follows. The result is the key, if there is one, and the buffer afterwards.
\<close>

definition isValidChar :: "char \<Rightarrow> bool" where
  "isValidChar b \<longleftrightarrow> b \<notin> {newline, CHR '' '', zero}"

function find_start :: "string \<Rightarrow> nat \<Rightarrow> nat \<times> string" where
  "find_start key i =
     (if i < length key \<and> \<not> isValidChar (key ! i) then find_start (key[i := zero]) (Suc i) else (i, key))"
  by pat_completeness auto
termination
  by (relation "measure (\<lambda>(key, i). length key - i)") auto

function find_end :: "string \<Rightarrow> nat \<Rightarrow> nat" where
  "find_end key i = (if i < length key \<and> isValidChar (key ! i) then find_end key (Suc i) else i)"
  by pat_completeness auto
termination
  by (relation "measure (\<lambda>(key, i). length key - i)") auto

declare find_start.simps [simp del] find_end.simps [simp del]

definition trimKey :: "string \<Rightarrow> string option \<times> string" where
  "trimKey key0 =
     (case find_start key0 0 of
        (startingMarker, key) \<Rightarrow>
          if startingMarker \<ge> length key then (None, key)
          else
            (let finalMarker = find_end key (startingMarker + 1);
                 key1 = take finalMarker key @ replicate (length key - finalMarker) zero
             in if finalMarker - startingMarker < 1 then (None, key1)
                else (Some (take (finalMarker - startingMarker) (drop startingMarker key1)), key1)))"

section \<open>Key store and TLS of the web server\<close>

text \<open>
  \<open>ConfigureWebKeystore\<close>; a trust store without a key store is a nil dereference, the outer \<open>None\<close>.
\<close>

definition web_keystore_name :: "string \<Rightarrow> string" where
  "web_keystore_name keyLabel = (if keyLabel = [] then ''default.p12'' else keyLabel @ ''.p12'')"

definition new_web_keystore :: "bool \<Rightarrow> string \<Rightarrow> KeyStoreData \<Rightarrow> host \<Rightarrow> string option \<times> host" where
  "new_web_keystore fips file p12Truststore h =
     (let genHostName = getenv h ''MQ_GENERATE_CERTIFICATE_HOSTNAME'';
          ks = NewPKCS12KeyStore fips file (ksd_Password p12Truststore) in
      case ks_Create ks h of
        (Some e, h1) \<Rightarrow> (Some (''failed to create Web Keystore '' @ file @ '': '' @ e), h1)
      | (None, h1) \<Rightarrow>
          (case CreateSelfSignedCertificate ''default'' (''CN='' @ genHostName) genHostName ks h1 of
             (Some e, h2) \<Rightarrow>
               (Some (''failed to generate certificate in Web Keystore '' @ file @ '' with DN of '' @ CHR 0x27 # ''CN='' @ genHostName
                      @ CHR 0x27 # '': '' @ e), h2)
           | (None, h2) \<Rightarrow> (None, h2)))"

definition ConfigureWebKeystore ::
    "bool \<Rightarrow> KeyStoreData \<Rightarrow> string \<Rightarrow> host \<Rightarrow> ((string, string) result \<times> host) option" where
  "ConfigureWebKeystore fips p12Truststore keyLabel h =
     (let webKeystoreFile = CleanPath [''/run/runmqserver/tls/'', web_keystore_name keyLabel] in
      case (if keyLabel = [] then new_web_keystore fips webKeystoreFile p12Truststore h
            else (map_option (\<lambda>e. ''failed to find existing Web Keystore '' @ webKeystoreFile @ '': '' @ err_text e)
                    (os_stat webKeystoreFile h), h)) of
        (Some e, h1) \<Rightarrow> Some (Inl e, h1)
      | (None, h1) \<Rightarrow>
          (case ksd_Keystore p12Truststore of
             None \<Rightarrow> None
           | Some ks \<Rightarrow>
               Some (case os_stat (ksFilename ks) h1 of
                       Some e \<Rightarrow> (Inl (''failed to find existing Web Truststore '' @ ksFilename ks @ '': '' @ err_text e), h1)
                     | None \<Rightarrow> (Inr (web_keystore_name keyLabel), h1))))"

text \<open>
  The libraries: of templates, what the tool does to files, and the random bytes of the key.
\<close>

record web_libs =
  wl_templates :: template_lib
  wl_made :: "string list \<Rightarrow> host \<Rightarrow> host"
  wl_random :: crypto
  wl_workdir :: "string option"

definition web_initial_key :: "crypto \<Rightarrow> host \<Rightarrow> string \<times> host" where
  "web_initial_key cr h =
     (case os_read ''/run/secrets/initial.key'' h of
        Inl e \<Rightarrow>
          (generateRandomPassword cr,
           say InfoL ''No initial key specified at /run/secrets/initial.key. Generating a random initial key'' h)
      | Inr key \<Rightarrow>
          (case fst (trimKey key) of
             None \<Rightarrow>
               (generateRandomPassword cr,
                say InfoL ''WARNING: An initial key was specified under /run/secrets/initial.key but did not contain any valid character. Generating a random initial key'' h)
           | Some k \<Rightarrow> (k, h)))"

definition ConfigureWebTLS :: "web_libs \<Rightarrow> string \<Rightarrow> string \<Rightarrow> KeyStoreData \<Rightarrow> host \<Rightarrow> string option \<times> host" where
  "ConfigureWebTLS libs keyLabel webKeystore p12Truststore h =
     (if keyLabel = [] \<and> getenv h ''MQ_GENERATE_CERTIFICATE_HOSTNAME'' = [] then (None, h)
      else
        (let webTruststoreRef = (if TrustedCerts p12Truststore = [] then ''MQWebKeyStore'' else ''MQWebTrustStore'') in
         case web_initial_key (wl_random libs) h of
           (initialKey, h1) \<Rightarrow>
             (case GenerateLibertyAESKeyFile (wl_made libs) initialKey h1 of
                (Some e, h2) \<Rightarrow> (Some e, h2)
              | (None, h2) \<Rightarrow>
                  (let (encrypted, h3) =
                     (case EncodeSecrets (ksd_Password p12Truststore) True h2 of
                        (Inl e, h3) \<Rightarrow> ([], say InfoL (''Password encoding for Web Keystore failed with error '' @ e) h3)
                      | (Inr s, h3) \<Rightarrow> (s, h3))
                   in ProcessTemplateFile (wl_templates libs) ''/etc/mqm/web/installations/Installation1/servers/mqweb/tls.xml.tpl''
                        ''/run/tls.xml''
                        [(''password'', encrypted), (''webKeystore'', webKeystore), (''webTruststoreRef'', webTruststoreRef)] h3))))"

section \<open>The configuration files\<close>

text \<open>
  A symbolic link hides the file of the same path; \<open>os.Stat\<close> and opening follow it, \<open>os.Remove\<close> removes the link.
\<close>

type_synonym links = "string \<rightharpoonup> string"

definition followed :: "links \<Rightarrow> string \<Rightarrow> string" where
  "followed l p = (case l p of None \<Rightarrow> p | Some q \<Rightarrow> q)"

definition remove_at :: "string \<Rightarrow> links \<times> host \<Rightarrow> io_error option \<times> links \<times> host" where
  "remove_at p lh =
     (case lh of (l, h) \<Rightarrow>
        if l p = None then (case os_remove p h of (e, h1) \<Rightarrow> (e, l, h1))
        else (case faults h (OpRemove p) of
                Some e \<Rightarrow> (Some (IoErr e), l, h)
              | None \<Rightarrow> (None, l(p := None), h)))"

definition os_symlink :: "(string \<Rightarrow> string option) \<Rightarrow> string \<Rightarrow> string \<Rightarrow> links \<times> host \<Rightarrow> string option \<times> links \<times> host" where
  "os_symlink link_fault from_path to_path lh =
     (case lh of (l, h) \<Rightarrow>
        (case link_fault to_path of
           Some e \<Rightarrow> (Some e, l, h)
         | None \<Rightarrow>
             if l to_path \<noteq> None \<or> files h to_path \<noteq> None
             then (Some (''symlink '' @ from_path @ '' '' @ to_path @ '': file exists''), l, h)
             else (None, l(to_path \<mapsto> from_path), h)))"

definition web_target :: "string \<Rightarrow> string" where
  "web_target from_path = ''/var/mqm/web'' @ drop (length ''/etc/mqm/web'') from_path"

text \<open>The function that the walk calls for each file and directory.\<close>

definition install_file ::
    "(string \<Rightarrow> string option) \<Rightarrow> string option \<Rightarrow> string \<Rightarrow> links \<times> host \<Rightarrow> string option \<times> links \<times> host" where
  "install_file link_fault wd from_path lh =
     (case (if has_suffix from_path ''/mqwebuser.xml'' then os_symlink link_fault from_path (web_target from_path) lh
            else (case CopyFile wd from_path (followed (fst lh) (web_target from_path)) (snd lh) of
                    (e, h1) \<Rightarrow> (e, fst lh, h1))) of
        (Some e, l, h) \<Rightarrow> (Some e, l, say ErrorL e h)
      | (None, l, h) \<Rightarrow> (None, l, h))"

definition web_walk_fn ::
    "(string \<Rightarrow> string option) \<Rightarrow> string option \<Rightarrow> string \<times> bool \<Rightarrow> links \<times> host \<Rightarrow> string option \<times> links \<times> host" where
  "web_walk_fn link_fault wd info lh =
     (let from_path = fst info; to_path = web_target from_path; st = os_stat (followed (fst lh) to_path) (snd lh) in
      case st of
        Some (IoErr e) \<Rightarrow> (Some e, lh)
      | _ \<Rightarrow>
          (let exists = (st = None) in
           if snd info then (if exists then (None, lh) else (os_mkdir_all to_path (snd lh), lh))
           else if exists then
             (case remove_at to_path lh of
                (Some e, lh1) \<Rightarrow> (Some (err_text e), lh1)
              | (None, lh1) \<Rightarrow> install_file link_fault wd from_path lh1)
           else install_file link_fault wd from_path lh))"

fun web_walk ::
    "(string \<Rightarrow> string option) \<Rightarrow> string option \<Rightarrow> (string, string \<times> bool) result list \<Rightarrow> links \<times> host
      \<Rightarrow> string option \<times> links \<times> host" where
  "web_walk link_fault wd [] lh = (None, lh)"
| "web_walk link_fault wd (Inl e # vs) lh = (Some e, lh)"
| "web_walk link_fault wd (Inr info # vs) lh =
     (case web_walk_fn link_fault wd info lh of
        (Some e, lh1) \<Rightarrow> (Some e, lh1)
      | (None, lh1) \<Rightarrow> web_walk link_fault wd vs lh1)"

section \<open>The keys of the web server\<close>

definition web_fileExists :: "string \<Rightarrow> host \<Rightarrow> bool \<times> string option" where
  "web_fileExists p h =
     (case os_stat p h of
        None \<Rightarrow> (True, None)
      | Some NotExist \<Rightarrow> (False, None)
      | Some (IoErr e) \<Rightarrow> (False, Some e))"

abbreviation (input) ltpaKeysFile :: string where
  "ltpaKeysFile \<equiv> ''/var/mqm/web/installations/Installation1/servers/mqweb/resources/security/ltpa.keys''"
abbreviation (input) refreshedFile :: string where
  "refreshedFile \<equiv> ''/var/mqm/web/installations/Installation1/servers/mqweb/mq-DT472893-ltpa-keys.refreshed''"

definition writeDT472893MarkerFile :: "string \<Rightarrow> host \<Rightarrow> host" where
  "writeDT472893MarkerFile p h =
     (case os_write p [] h of
        (None, h1) \<Rightarrow> say InfoL (''Created marker file '' @ CHR 0x27 # ''mq-DT472893-ltpa-keys.refreshed'' @ [CHR 0x27]) h1
      | (Some e, h1) \<Rightarrow>
          say InfoL (''Error writing marker file: '' @ CHR 0x27 # p @ CHR 0x27 # '' - '' @ CHR 0x27 # ''ltpa.keys'' @ CHR 0x27
                     # '' file will be regenerated on next container restart: '' @ err_text e) h1)"

definition ltpaKeysFileFix :: "host \<Rightarrow> string option \<times> host" where
  "ltpaKeysFileFix h =
     (case web_fileExists ltpaKeysFile h of
        (True, _) \<Rightarrow>
          (case web_fileExists refreshedFile h of
             (False, None) \<Rightarrow>
               (case os_remove ltpaKeysFile h of
                  (Some e, h1) \<Rightarrow>
                    (Some (err_text e),
                     say InfoL (''Error removing file: '' @ CHR 0x27 # ltpaKeysFile @ CHR 0x27 # '': '' @ err_text e) h1)
                | (None, h1) \<Rightarrow>
                    (None, writeDT472893MarkerFile refreshedFile
                             (say InfoL (''Removed existing file '' @ CHR 0x27 # ''ltpa.keys'' @ CHR 0x27
                                         # '' - it will be regenerated by WebServer'') h1)))
           | (True, None) \<Rightarrow> (None, h)
           | (_, Some e) \<Rightarrow>
               (Some e, say InfoL (''Error getting marker file: '' @ CHR 0x27 # refreshedFile @ CHR 0x27 # '': '' @ e) h))
      | (False, None) \<Rightarrow> (None, writeDT472893MarkerFile refreshedFile h)
      | (False, Some e) \<Rightarrow>
          (Some e, say InfoL (''Error getting file: '' @ CHR 0x27 # ltpaKeysFile @ CHR 0x27 # '': '' @ e) h))"

section \<open>Configuring and starting\<close>

definition copy_server_xml :: "string option \<Rightarrow> host \<Rightarrow> string option \<times> host" where
  "copy_server_xml wd h =
     log_error (CopyFile wd ''/opt/mqm/samp/web/server.xml''
                  ''/var/mqm/web/installations/Installation1/servers/mqweb/server.xml'' h)"

definition install_web_files ::
    "web_libs \<Rightarrow> (string \<Rightarrow> string option) \<Rightarrow> (string, string \<times> bool) result list \<Rightarrow> links \<times> host
      \<Rightarrow> string option \<times> links \<times> host" where
  "install_web_files libs link_fault visited lh =
     (case os_stat ''/opt/mqm/bin/strmqweb'' (snd lh) of
        Some NotExist \<Rightarrow> (None, lh)
      | Some (IoErr e) \<Rightarrow> (Some e, lh)
      | None \<Rightarrow>
          (case os_stat ''/etc/mqm/web'' (snd lh) of
             Some NotExist \<Rightarrow> (None, lh)
           | Some (IoErr e) \<Rightarrow> (Some e, lh)
           | None \<Rightarrow> web_walk link_fault (wl_workdir libs) visited lh))"

definition configureWebServer ::
    "web_libs \<Rightarrow> (string \<Rightarrow> string option) \<Rightarrow> (string, string \<times> bool) result list \<Rightarrow> bool \<Rightarrow> string \<Rightarrow> KeyStoreData
      \<Rightarrow> links \<times> host \<Rightarrow> (string option \<times> links \<times> host) option" where
  "configureWebServer libs link_fault visited fips keyLabel p12Truststore lh =
     (let l = fst lh; h = snd lh in
      case (if to_lower (getenv h ''AMQ_ENABLE_DT472893_REGENERATE_LTPA_KEYS'') = ''true''
            then ltpaKeysFileFix h else (None, h)) of
        (Some e, h1) \<Rightarrow> Some (Some e, l, h1)
      | (None, h1) \<Rightarrow>
          (case copy_server_xml (wl_workdir libs) h1 of
             (Some e, h2) \<Rightarrow> Some (Some e, l, h2)
           | (None, h2) \<Rightarrow>
               (case (if keyLabel \<noteq> [] \<or> getenv h2 ''MQ_GENERATE_CERTIFICATE_HOSTNAME'' \<noteq> []
                      then ConfigureWebKeystore fips p12Truststore keyLabel h2 else Some (Inr [], h2)) of
                  None \<Rightarrow> None
                | Some (Inl e, h3) \<Rightarrow> Some (Some e, l, h3)
                | Some (Inr webKeystore, h3) \<Rightarrow>
                    (case ConfigureWebTLS libs keyLabel webKeystore p12Truststore h3 of
                       (Some e, h4) \<Rightarrow> Some (Some e, l, h4)
                     | (None, h4) \<Rightarrow> Some (install_web_files libs link_fault visited (l, h4))))))"

definition configureFIPSWebServer :: "template_lib \<Rightarrow> host \<Rightarrow> string option \<times> host" where
  "configureFIPSWebServer tlib h =
     ProcessTemplateFile tlib
       ''/etc/mqm/web/installations/Installation1/servers/mqweb/configDropins/defaults/jvm.options.tpl'' ''/run/jvm.options''
       [(''FipsProvider'', ''true''), (''FipsProviderName'', ''IBMJCEPlusFIPS'')] h"

definition startWebServer :: "host \<Rightarrow> string option \<times> host" where
  "startWebServer h =
     (if os_stat ''/opt/mqm/bin/strmqweb'' h = Some NotExist
      then (None, say DebugL (''Skipping web server, because it'' @ CHR 0x27 # ''s not installed'') h)
      else (case run_cmd [''strmqweb''] (say InfoL ''Starting web server'' h) of
              (r, h1) \<Rightarrow>
                (case cmd_err r of
                   Some e \<Rightarrow> (Some e, say InfoL (''Error '' @ itoa (cmd_rc r) @ '' starting web server: '' @ cmd_out r) h1)
                 | None \<Rightarrow> (None, say InfoL ''Started web server'' h1))))"

text \<open>
  \<open>postInit\<close>: whether the goroutine that starts the server is started, and what that goroutine does.
\<close>

definition web_enabled :: "host \<Rightarrow> bool" where
  "web_enabled h \<longleftrightarrow> getenv h ''MQ_ENABLE_EMBEDDED_WEB_SERVER'' \<in> {''true'', ''1''}"

definition postInit ::
    "web_libs \<Rightarrow> (string \<Rightarrow> string option) \<Rightarrow> (string, string \<times> bool) result list \<Rightarrow> int \<Rightarrow> string \<Rightarrow> KeyStoreData
      \<Rightarrow> links \<times> host \<Rightarrow> (string option \<times> bool \<times> links \<times> host) option" where
  "postInit libs link_fault visited fipsType keyLabel p12Truststore lh =
     (if web_enabled (snd lh) then
        (case (if IsFIPSEnabled fipsType then configureFIPSWebServer (wl_templates libs) (snd lh) else (None, snd lh)) of
           (Some e, h1) \<Rightarrow> Some (Some e, False, fst lh, h1)
         | (None, h1) \<Rightarrow>
             (case configureWebServer libs link_fault visited (IsFIPSEnabled fipsType) keyLabel p12Truststore (fst lh, h1) of
                None \<Rightarrow> None
              | Some (Some e, lh2) \<Rightarrow> Some (Some e, False, lh2)
              | Some (None, lh2) \<Rightarrow> Some (None, True, lh2)))
      else Some (None, False, lh))"

definition web_goroutine :: "host \<Rightarrow> host" where
  "web_goroutine h =
     (case startWebServer h of
        (Some e, h1) \<Rightarrow> say InfoL (''Error starting web server: '' @ e) h1
      | (None, h1) \<Rightarrow> h1)"

section \<open>Which key is used\<close>

lemma find_start_result:
  "i \<le> length key \<Longrightarrow>
     find_start key i =
       (i + length (takeWhile (\<lambda>c. \<not> isValidChar c) (drop i key)),
        take i key @ replicate (length (takeWhile (\<lambda>c. \<not> isValidChar c) (drop i key))) zero
          @ dropWhile (\<lambda>c. \<not> isValidChar c) (drop i key))"
proof (induction key i rule: find_start.induct)
  case (1 key i)
  show ?case
  proof (cases "i < length key \<and> \<not> isValidChar (key ! i)")
    case True
    then have d: "drop i key = key ! i # drop (Suc i) key" "take (Suc i) (key[i := zero]) = take i key @ [zero]"
        "drop (Suc i) (key[i := zero]) = drop (Suc i) key"
      by (simp_all add: Cons_nth_drop_Suc take_Suc_conv_app_nth)
    have "find_start key i = find_start (key[i := zero]) (Suc i)" using True by (simp add: find_start.simps [of key i])
    then show ?thesis using 1 True by (simp add: d(1)) (simp add: d(2,3))
  next
    case False
    then have "takeWhile (\<lambda>c. \<not> isValidChar c) (drop i key) = []"
      by (cases "drop i key") (auto simp: nth_via_drop drop_eq_Nil2 [symmetric] linorder_not_less [symmetric])
    moreover from this have "dropWhile (\<lambda>c. \<not> isValidChar c) (drop i key) = drop i key"
      by (metis append_Nil takeWhile_dropWhile_id)
    ultimately show ?thesis using False by (auto simp: find_start.simps [of key i])
  qed
qed

lemma find_end_result:
  "i \<le> length key \<Longrightarrow> find_end key i = i + length (takeWhile isValidChar (drop i key))"
proof (induction key i rule: find_end.induct)
  case (1 key i)
  show ?case
  proof (cases "i < length key \<and> isValidChar (key ! i)")
    case True
    then have "drop i key = key ! i # drop (Suc i) key" by (simp add: Cons_nth_drop_Suc)
    then show ?thesis using 1 True by (simp add: find_end.simps [of key i])
  next
    case False
    then have "takeWhile isValidChar (drop i key) = []"
      by (cases "drop i key") (auto simp: nth_via_drop drop_eq_Nil2 [symmetric] linorder_not_less [symmetric])
    then show ?thesis using False by (auto simp: find_end.simps [of key i])
  qed
qed

text \<open>
  The key that is used is the first run of bytes that are not a newline, a blank or a null byte, and everything
  else of the buffer is zeroed. Other white space, such as a tab or a carriage return, counts as part of the key.
\<close>

theorem trimKey_first_run:
  "trimKey key =
     (let blanks = takeWhile (\<lambda>c. \<not> isValidChar c) key;
          rest = dropWhile (\<lambda>c. \<not> isValidChar c) key;
          k = takeWhile isValidChar rest
      in (if k = [] then None else Some k,
          replicate (length blanks) zero @ k @ replicate (length key - length blanks - length k) zero))"
proof -
  define blanks where "blanks = takeWhile (\<lambda>c. \<not> isValidChar c) key"
  define rest where "rest = dropWhile (\<lambda>c. \<not> isValidChar c) key"
  have "key = blanks @ rest" by (simp add: blanks_def rest_def)
  then have len: "length key = length blanks + length rest" by simp
  have st: "find_start key 0 = (length blanks, replicate (length blanks) zero @ rest)"
    using find_start_result [of 0 key] by (simp add: blanks_def rest_def)
  show ?thesis
  proof (cases rest)
    case Nil
    then show ?thesis by (simp add: trimKey_def st Let_def blanks_def [symmetric] rest_def [symmetric] len)
  next
    case (Cons c cs)
    have c: "isValidChar c" using Cons hd_dropWhile [of "\<lambda>c. \<not> isValidChar c" key] by (auto simp: rest_def)
    let ?b = "replicate (length blanks) zero @ rest" and ?k = "takeWhile isValidChar rest"
    have e: "find_end ?b (length blanks + 1) = length blanks + length ?k"
      using find_end_result [of "length blanks + 1" ?b] c by (simp add: Cons)
    have t: "take (length ?k) rest = ?k" by (metis takeWhile_eq_take takeWhile_dropWhile_id append_eq_conv_conj)
    show ?thesis using c e t
      by (simp add: trimKey_def st Let_def blanks_def [symmetric] rest_def [symmetric] len Cons)
  qed
qed

section \<open>The keys are refreshed once\<close>

text \<open>
  The file with the keys is removed at most once: after one run of the fix without faults the marker is there, and
  then, whatever the web server makes of the file, another run changes no file.
\<close>

theorem ltpa_refreshed_once:
  assumes "healthy_host h"
  shows "case ltpaKeysFileFix h of
     (e, h1) \<Rightarrow>
       e = None \<and> files h1 refreshedFile \<noteq> None
       \<and> files h1 ltpaKeysFile = (if files h refreshedFile = None then None else files h ltpaKeysFile)
       \<and> fst (ltpaKeysFileFix (h1\<lparr>files := (files h1)(ltpaKeysFile := f)\<rparr>)) = None
       \<and> files (snd (ltpaKeysFileFix (h1\<lparr>files := (files h1)(ltpaKeysFile := f)\<rparr>))) ltpaKeysFile = f"
proof (cases "files h ltpaKeysFile"; cases "files h refreshedFile"; cases f)
qed (use assms in \<open>simp_all add: ltpaKeysFileFix_def web_fileExists_def writeDT472893MarkerFile_def\<close>)

section \<open>The installed files\<close>

definition web_source :: "string \<Rightarrow> bool" where
  "web_source p \<longleftrightarrow> has_prefix p ''/etc/mqm/web''"

definition secret_source :: "string \<Rightarrow> bool" where
  "secret_source p \<longleftrightarrow> has_suffix p ''/mqwebuser.xml''"

text \<open>The links that the program makes.\<close>

definition own_links :: "links \<Rightarrow> bool" where
  "own_links l \<longleftrightarrow> (\<forall>p q. l p = Some q \<longrightarrow> web_source q \<and> secret_source q \<and> p = web_target q)"

lemma web_target_inj: "web_source p \<Longrightarrow> web_source q \<Longrightarrow> web_target p = web_target q \<longleftrightarrow> p = q"
  by (auto simp: web_source_def web_target_def prefix_def)

lemma web_target_not_source: "web_source q \<Longrightarrow> web_target p \<noteq> q"
  by (auto simp: web_source_def web_target_def prefix_def)

lemma copied:
  assumes "CopyFile wd src dest h = (None, h')" "src \<noteq> dest" "files h dest = None"
  shows "files h' = (files h)(dest := files h src)" "files h src \<noteq> None"
  using assms
  by (auto simp: CopyFile_def CopyFileMode_def os_read_def os_open_create_def os_write_def file_or_empty_def overwrite_start_def
      split: option.splits if_splits)

lemma install_file_result:
  assumes i: "install_file lf wd p (l, h) = (None, l1, h1)" and p: "web_source p" and l: "own_links l"
    and free: "files h (web_target p) = None"
  shows "files h1 = (files h)(web_target p := if secret_source p then None else files h p)"
    "l1 = l(web_target p := if secret_source p then Some p else None)" "secret_source p \<or> files h p \<noteq> None"
proof -
  have "files h1 = (files h)(web_target p := if secret_source p then None else files h p)
    \<and> l1 = l(web_target p := if secret_source p then Some p else None) \<and> (secret_source p \<or> files h p \<noteq> None)"
  proof (cases "secret_source p")
    case True
    then show ?thesis using i free
      by (auto simp: install_file_def secret_source_def os_symlink_def fun_upd_idem split: option.splits if_splits)
  next
    case False
    then have n: "l (web_target p) = None"
      using l p web_target_inj [OF p] by (cases "l (web_target p)") (auto simp: own_links_def)
    then obtain e h2 where c: "CopyFile wd p (web_target p) h = (e, h2)" by fastforce
    then have "e = None" "l1 = l" "h1 = h2" using i False n
      by (auto simp: install_file_def secret_source_def followed_def split: option.splits)
    then show ?thesis using copied [of wd p "web_target p" h h2] c free False n web_target_not_source [OF p, of p]
      by (auto simp: fun_upd_idem)
  qed
  then show "files h1 = (files h)(web_target p := if secret_source p then None else files h p)"
    "l1 = l(web_target p := if secret_source p then Some p else None)" "secret_source p \<or> files h p \<noteq> None"
    by blast+
qed

lemma own_links_upd:
  "own_links l \<Longrightarrow> web_source p \<Longrightarrow> own_links (l(web_target p := if secret_source p then Some p else None))"
  by (auto simp: own_links_def)

lemma walk_fn_result:
  assumes w: "web_walk_fn lf wd (p, False) (l, h) = (None, l1, h1)" and p: "web_source p" and l: "own_links l"
  shows "files h1 = (files h)(web_target p := if secret_source p then None else files h p)
    \<and> l1 = l(web_target p := if secret_source p then Some p else None) \<and> (secret_source p \<or> files h p \<noteq> None)"
proof (cases "l (web_target p)")
  case None
  have np: "web_target p \<noteq> p" using web_target_not_source [OF p] .
  show ?thesis
  proof (cases "os_stat (web_target p) h = None")
    case True
    obtain h0 where m: "os_remove (web_target p) h = (None, h0)" "install_file lf wd p (l, h0) = (None, l1, h1)"
      using w True None by (auto simp: web_walk_fn_def followed_def remove_at_def split: prod.splits option.splits)
    have f0: "files h0 = (files h)(web_target p := None)"
      using m(1) by (auto simp: os_remove_def split: option.splits if_splits)
    show ?thesis using install_file_result [OF m(2) p l] np by (auto simp: f0)
  next
    case False
    then have i: "install_file lf wd p (l, h) = (None, l1, h1)" "files h (web_target p) = None"
      using w None by (auto simp: web_walk_fn_def followed_def os_stat_def split: option.splits io_error.splits if_splits)
    show ?thesis using install_file_result [OF i(1) p l i(2)] by blast
  qed
next
  case (Some q)
  then have q: "q = p" "secret_source p" using l web_target_inj [OF p, of q] by (auto simp: own_links_def)
  have l0: "own_links (l(web_target p := None))" using l by (auto simp: own_links_def)
  have i: "install_file lf wd p (l(web_target p := None), h) = (None, l1, h1)"
    using w Some q
    by (auto simp: web_walk_fn_def Let_def followed_def remove_at_def install_file_def secret_source_def os_symlink_def
        split: option.splits io_error.splits if_splits)
  have "files h (web_target p) = None"
    using i q by (auto simp: install_file_def secret_source_def os_symlink_def split: option.splits if_splits)
  from install_file_result [OF i p l0 this] show ?thesis by simp
qed

lemma web_walk_result:
  assumes "web_walk lf wd visited (l, h) = (None, l', h')" "own_links l"
    and "list_all (\<lambda>v. case v of Inl e \<Rightarrow> True | Inr (p, d) \<Rightarrow> web_source p) visited"
  shows "own_links l'
    \<and> (\<forall>q. q \<notin> {web_target p | p. Inr (p, False) \<in> set visited} \<longrightarrow> files h' q = files h q \<and> l' q = l q)
    \<and> (\<forall>p. Inr (p, False) \<in> set visited \<longrightarrow>
         (if secret_source p then files h' (web_target p) = None \<and> l' (web_target p) = Some p
          else files h p \<noteq> None \<and> files h' (web_target p) = files h p \<and> l' (web_target p) = None))"
  using assms
proof (induction visited arbitrary: l h)
  case (Cons v visited)
  obtain p d where v: "v = Inr (p, d)" using Cons.prems(1) by (cases v) auto
  then have p: "web_source p" and vs: "list_all (\<lambda>v. case v of Inl e \<Rightarrow> True | Inr (p, d) \<Rightarrow> web_source p) visited"
    using Cons.prems(3) by simp_all
  obtain l1 h1 where s: "web_walk_fn lf wd (p, d) (l, h) = (None, l1, h1)" "web_walk lf wd visited (l1, h1) = (None, l', h')"
    using Cons.prems(1) by (auto simp: v split: prod.splits option.splits)
  show ?case
  proof (cases d)
    case True
    then have "l1 = l" "h1 = h" using s(1) by (auto simp: web_walk_fn_def Let_def split: option.splits io_error.splits if_splits)
    then show ?thesis using Cons.IH [OF s(2)] Cons.prems(2) vs by (auto simp: v True)
  next
    case False
    then have "web_walk_fn lf wd (p, False) (l, h) = (None, l1, h1)" using s(1) by simp
    note r = walk_fn_result [OF this p Cons.prems(2)]
    have l1: "own_links l1" using r own_links_upd [OF Cons.prems(2) p] by simp
    note ih = Cons.IH [OF s(2) l1 vs]
    have src: "files h1 q = files h q" if "web_source q" for q
      using r web_target_not_source [OF that, of p] by simp
    have ok: "if secret_source q then files h' (web_target q) = None \<and> l' (web_target q) = Some q
          else files h q \<noteq> None \<and> files h' (web_target q) = files h q \<and> l' (web_target q) = None"
      if q: "Inr (q, False) \<in> set (v # visited)" for q
    proof (cases "Inr (q, False) \<in> set visited")
      case True
      then have "web_source q" using vs by (auto simp: list_all_iff)
      moreover have "if secret_source q then files h' (web_target q) = None \<and> l' (web_target q) = Some q
          else files h1 q \<noteq> None \<and> files h' (web_target q) = files h1 q \<and> l' (web_target q) = None"
        using ih True by blast
      ultimately show ?thesis using src [of q] by (cases "secret_source q") auto
    next
      case new: False
      then have "q = p" using q v False by auto
      moreover have "web_target p \<notin> {web_target p | p. Inr (p, False) \<in> set visited}"
      proof
        assume "web_target p \<in> {web_target p | p. Inr (p, False) \<in> set visited}"
        then obtain pa where pa: "web_target p = web_target pa" "Inr (pa, False) \<in> set visited" by blast
        then have "web_source pa" using vs by (auto simp: list_all_iff)
        then show False using pa new \<open>q = p\<close> web_target_inj [OF p, of pa] by simp
      qed
      ultimately show ?thesis using ih r by auto
    qed
    moreover have "files h' q = files h q \<and> l' q = l q"
      if q: "q \<notin> {web_target p | p. Inr (p, False) \<in> set (v # visited)}" for q
    proof -
      have "q \<noteq> web_target p" "q \<notin> {web_target p | p. Inr (p, False) \<in> set visited}" using q v False by auto
      then show ?thesis using ih r by auto
    qed
    ultimately show ?thesis using ih by blast
  qed
qed auto

text \<open>
  C23. After a walk without an error every configuration file stands in its place with exactly its contents, but
  \<open>mqwebuser.xml\<close>, which may hold a secret: in its place there is only a link, and no file, so that its contents never
  get onto the volume. Nothing else has changed.
\<close>

theorem web_files_installed:
  assumes "web_walk lf wd visited (l, h) = (None, l', h')" "own_links l"
    and "list_all (\<lambda>v. case v of Inl e \<Rightarrow> True | Inr (p, d) \<Rightarrow> web_source p) visited"
  shows "(\<forall>q. q \<notin> {web_target p | p. Inr (p, False) \<in> set visited} \<longrightarrow> files h' q = files h q \<and> l' q = l q)
    \<and> (\<forall>p. Inr (p, False) \<in> set visited \<longrightarrow>
         (if secret_source p then files h' (web_target p) = None \<and> l' (web_target p) = Some p
          else files h p \<noteq> None \<and> files h' (web_target p) = files h p))"
  using web_walk_result [OF assms] by (auto split: if_splits)

section \<open>The trust store is there\<close>

interpretation p12_created: store_invariant cr "\<lambda>t. ksd_Keystore (p12Store t) \<noteq> None" for cr
proof unfold_locales
  have "ksd_Keystore (snd (addToKnownCertificates cr b d a)) = ksd_Keystore d" for b d a
    by (auto simp: addToKnownCertificates_def split: sum.splits)
  then show "ksd_Keystore (p12Store (t\<lparr>p12Store := snd (addToKnownCertificates cr b (p12Store t) True)\<rparr>)) \<noteq> None"
    if "ksd_Keystore (p12Store t) \<noteq> None" for t b
    using that by simp
qed simp_all

lemma web_keystore_returns:
  assumes "ksd_Keystore d \<noteq> None"
  shows "ConfigureWebKeystore f d keyLabel h \<noteq> None"
proof -
  obtain ks where "ksd_Keystore d = Some ks" using assms by blast
  then show ?thesis unfolding ConfigureWebKeystore_def Let_def by (simp split: prod.split option.split)
qed

lemma web_server_returns:
  assumes k: "\<And>h. ConfigureWebKeystore f d keyLabel h \<noteq> None"
  shows "configureWebServer libs lf visited f keyLabel d lh \<noteq> None"
proof -
  obtain e1 h1 where 1: "(if to_lower (getenv (snd lh) ''AMQ_ENABLE_DT472893_REGENERATE_LTPA_KEYS'') = ''true''
      then ltpaKeysFileFix (snd lh) else (None, snd lh)) = (e1, h1)" by (rule prod.exhaust)
  obtain e2 h2 where 2: "copy_server_xml (wl_workdir libs) h1 = (e2, h2)" by (rule prod.exhaust)
  obtain r3 h3 where 3: "(if keyLabel \<noteq> [] \<or> getenv h2 ''MQ_GENERATE_CERTIFICATE_HOSTNAME'' \<noteq> []
      then ConfigureWebKeystore f d keyLabel h2 else Some (Inr [], h2)) = Some (r3, h3)"
    using k [of h2] by (metis option.exhaust prod.exhaust)
  define e4 where "e4 = (\<lambda>k. fst (ConfigureWebTLS libs keyLabel k d h3))"
  define h4 where "h4 = (\<lambda>k. snd (ConfigureWebTLS libs keyLabel k d h3))"
  have 4: "ConfigureWebTLS libs keyLabel k d h3 = (e4 k, h4 k)" for k by (simp add: e4_def h4_def)
  show ?thesis unfolding configureWebServer_def Let_def 1 prod.case
    by (cases e1; cases e2; cases r3; cases "e4 (projr r3)") (auto simp only: option.case prod.case sum.case sum.sel 2 3 4 option.simps)
qed

lemma generate_p12:
  assumes "generateAllKeystores cr fips dir c True h = (None, t, h')"
  shows "ksd_Keystore (p12Store t) \<noteq> None"
proof -
  let ?pw = "generateRandomPassword cr"
  let ?d = "no_data\<lparr>ksd_Password := ?pw\<rparr>"
  have store: "create_store w ks d h1 = (None, d1, h2) \<Longrightarrow> ksd_Keystore d1 \<noteq> None" for w ks d h1 d1 h2
    by (auto simp: create_store_def split: prod.splits option.splits)
  obtain e c1 h1 where 1: "(if c then create_store ''CMS Keystore'' (NewCMSKeyStore fips (CleanPath [dir, ''key.kdb'']) ?pw) ?d h
      else (None, ?d, h)) = (e, c1, h1)" by (rule prod_cases3)
  obtain e2 p h2 where 2: "create_store ''PKCS#12 Truststore'' (NewPKCS12KeyStore fips (CleanPath [dir, ''trust.p12'']) ?pw) ?d h1
      = (e2, p, h2)" by (rule prod_cases3)
  show ?thesis
  proof (cases "os_mkdir_all dir h"; cases e)
    assume "os_mkdir_all dir h = None" "e = None"
    then have "e2 = None" "t = \<lparr>cmsStore = c1, p12Store = p\<rparr>"
      using assms unfolding generateAllKeystores_def Let_def 1 by (simp_all add: 2)
    then show ?thesis using store 2 by auto
  qed (use assms in \<open>simp_all add: generateAllKeystores_def Let_def 1\<close>)
qed

text \<open>
  After the key stores were configured without an error, the configuration of the web server never dereferences a
  nil key store: it returns.
\<close>

theorem web_configuration_returns:
  assumes "ConfigureDefaultTLSKeystores cr fips h = (Inr keyLabel, t, h1)"
  shows "postInit libs lf visited fipsType keyLabel (p12Store t) lh \<noteq> None"
proof -
  let ?g = "generateAllKeystores cr fips ''/run/runmqserver/tls/''
     (list_ex (haveKeysAndCerts cr) ([''/etc/mqm/pki/keys''] @ [''/etc/mqm/pki/trust''])) True h"
  obtain ls where c: "configureTLSKeystores cr fips ''/run/runmqserver/tls/'' [''/etc/mqm/pki/keys''] [''/etc/mqm/pki/trust''] True h
      = (Inr ls, t, h1)"
    using assms by (auto simp: ConfigureDefaultTLSKeystores_def split: sum.splits prod.splits)
  then obtain t0 h0 where g: "?g = (None, t0, h0)"
    by (cases ?g; cases "fst ?g") (simp_all add: configureTLSKeystores_def)
  have "ksd_Keystore (p12Store (fst (snd ?g))) \<noteq> None" unfolding g using generate_p12 [OF g] by simp
  from p12_created.keeps_configure [OF this]
  have k: "ksd_Keystore (p12Store t) \<noteq> None" unfolding c by simp
  then have "configureWebServer libs lf visited f keyLabel (p12Store t) lh0 \<noteq> None" for f lh0
    using web_server_returns [OF web_keystore_returns [OF k]] by blast
  then have r: "configureWebServer libs lf visited f keyLabel (p12Store t) lh0
      = Some (the (configureWebServer libs lf visited f keyLabel (p12Store t) lh0))" for f lh0
    by simp
  obtain e h2 where e: "(if IsFIPSEnabled fipsType then configureFIPSWebServer (wl_templates libs) (snd lh) else (None, snd lh)) = (e, h2)"
    by (rule prod.exhaust)
  show ?thesis
  proof (cases e)
    case None
    obtain x l3 where c: "configureWebServer libs lf visited (IsFIPSEnabled fipsType) keyLabel (p12Store t) (fst lh, h2) = Some (x, l3)"
      using r by (metis prod.collapse)
    show ?thesis unfolding postInit_def e prod.case None option.case c by (cases x) auto
  qed (auto simp: postInit_def e)
qed

section \<open>Examples\<close>

definition web_host :: host where
  "web_host =
     \<lparr>env = Map.empty,
      files = [''/etc/mqm/web/a.xml'' \<mapsto> ''new'', ''/etc/mqm/web/mqwebuser.xml'' \<mapsto> ''secret'',
               ''/var/mqm/web/a.xml'' \<mapsto> ''older'', ''/var/mqm/web/mqwebuser.xml'' \<mapsto> ''copy''],
      faults = (\<lambda>_. None), clock = 0, hostname = None,
      exec = (\<lambda>_ _. \<lparr>cmd_out = [], cmd_rc = 0, cmd_err = None\<rparr>), cmds = [], logs = []\<rparr>"

definition web_visited :: "(string, string \<times> bool) result list" where
  "web_visited =
     [Inr (''/etc/mqm/web'', True), Inr (''/etc/mqm/web/a.xml'', False), Inr (''/etc/mqm/web/mqwebuser.xml'', False)]"

lemma web_files_installed_witness:
  "\<exists>l' h'. web_walk (\<lambda>_. None) None web_visited (Map.empty, web_host) = (None, l', h')
     \<and> files h' ''/var/mqm/web/a.xml'' = Some ''new''
     \<and> files h' ''/var/mqm/web/mqwebuser.xml'' = None \<and> l' ''/var/mqm/web/mqwebuser.xml'' = Some ''/etc/mqm/web/mqwebuser.xml''"
proof -
  have "fst (web_walk (\<lambda>_. None) None web_visited (Map.empty, web_host)) = None" by code_simp
  then obtain l' h' where w: "web_walk (\<lambda>_. None) None web_visited (Map.empty, web_host) = (None, l', h')"
    by (metis prod.collapse)
  have own: "own_links Map.empty" by (simp add: own_links_def)
  have src: "list_all (\<lambda>v. case v of Inl e \<Rightarrow> True | Inr (p, d) \<Rightarrow> web_source p) web_visited"
    by (simp add: web_visited_def web_source_def)
  have v: "Inr (''/etc/mqm/web/a.xml'', False) \<in> set web_visited" "Inr (''/etc/mqm/web/mqwebuser.xml'', False) \<in> set web_visited"
    by (simp_all add: web_visited_def)
  have s: "\<not> secret_source ''/etc/mqm/web/a.xml''" "secret_source ''/etc/mqm/web/mqwebuser.xml''"
      "web_target ''/etc/mqm/web/a.xml'' = ''/var/mqm/web/a.xml''"
      "web_target ''/etc/mqm/web/mqwebuser.xml'' = ''/var/mqm/web/mqwebuser.xml''"
    by code_simp+
  have all: "if secret_source p then files h' (web_target p) = None \<and> l' (web_target p) = Some p
      else files web_host p \<noteq> None \<and> files h' (web_target p) = files web_host p" if "Inr (p, False) \<in> set web_visited" for p
    using web_files_installed [OF w own src] that by blast
  show ?thesis using w all [OF v(1)] all [OF v(2)] s by (simp add: web_host_def)
qed

lemma web_configuration_returns_witness:
  "\<exists>keyLabel t h1. ConfigureDefaultTLSKeystores (toy_crypto\<lparr>read_dir := \<lambda>_. ([], None)\<rparr>) False toy_tls_host = (Inr keyLabel, t, h1)
     \<and> postInit \<lparr>wl_templates = \<lambda>_. Inl [], wl_made = \<lambda>_ h. h, wl_random = toy_crypto, wl_workdir = None\<rparr> (\<lambda>_. None) [] 0
         keyLabel (p12Store t) (Map.empty, setenv ''MQ_ENABLE_EMBEDDED_WEB_SERVER'' ''1'' h1) \<noteq> None"
proof -
  let ?c = "ConfigureDefaultTLSKeystores (toy_crypto\<lparr>read_dir := \<lambda>_. ([], None)\<rparr>) False toy_tls_host"
  have "is_ok (fst ?c)" by code_simp
  then obtain k where "fst ?c = Inr k" by (auto simp: is_ok_iff)
  then obtain t h1 where c: "?c = (Inr k, t, h1)" by (metis prod.collapse)
  show ?thesis using c web_configuration_returns [OF c] by blast
qed

end
