(* ===== verification/Diagnostics.thy ===== *)
theory Diagnostics
  imports Console_Log Mirror
begin

text \<open>
  The rest of cmd/runmqserver/logging.go: what the server logs about its directories when it ends with an error, and the
  functions that start to mirror one log each. What the system tells about files and users is a record of functions.
\<close>

section \<open>Diagnostics\<close>

record file_info =
  fi_name :: string
  fi_dir :: bool
  fi_mode :: string
  fi_size :: int
  fi_time :: string

record sys_stat =
  Nlink :: nat
  Uid :: nat
  Gid :: nat

record sys_info =
  sys_lstat :: "string \<Rightarrow> (string, file_info) result"
  sys_stat :: "string \<Rightarrow> (string, sys_stat) result"
  sys_dir :: "string \<Rightarrow> (string, (string \<times> (string, file_info) result) list) result"
  sys_user :: "string \<Rightarrow> string option"
  sys_group :: "string \<Rightarrow> string option"

definition name_or_id :: "(string \<Rightarrow> string option) \<Rightarrow> nat \<Rightarrow> string" where
  "name_or_id lookup i = (case lookup (itoa (int i)) of None \<Rightarrow> itoa (int i) | Some n \<Rightarrow> n)"

definition logFilePermission :: "sys_info \<Rightarrow> string \<Rightarrow> file_info \<Rightarrow> sys_stat \<Rightarrow> host \<Rightarrow> host" where
  "logFilePermission si path info stat h =
     say DebugL (path @ '':  '' @ fi_mode info @ '' '' @ itoa (int (Nlink stat)) @ '' '' @ name_or_id (sys_user si) (Uid stat)
                 @ '' '' @ name_or_id (sys_group si) (Gid stat) @ '' '' @ itoa (fi_size info) @ '' '' @ fi_time info
                 @ '' '' @ fi_name info) h"

definition log_child :: "sys_info \<Rightarrow> string \<Rightarrow> string \<times> (string, file_info) result \<Rightarrow> host \<Rightarrow> host" where
  "log_child si path e h =
     (case e of
        (n, Inl err) \<Rightarrow> say DebugL (path @ '': error retrieving info for '' @ n @ '': '' @ err) h
      | (n, Inr info) \<Rightarrow>
          (case sys_stat si (CleanPath [path, n]) of
             Inl _ \<Rightarrow> say DebugL (path @ '': unable to retrieve '' @ n @ '' information'') h
           | Inr stat \<Rightarrow> logFilePermission si path info stat h))"

definition logPathPermissions :: "sys_info \<Rightarrow> string \<Rightarrow> host \<Rightarrow> host" where
  "logPathPermissions si path h =
     (case sys_lstat si path of
        Inl err \<Rightarrow> say DebugL (path @ '': error retrieving info: '' @ err) h
      | Inr info \<Rightarrow>
          (case sys_stat si path of
             Inl err \<Rightarrow> say DebugL (path @ '': error reading directory: '' @ err) h
           | Inr stat \<Rightarrow>
               if fi_dir info then
                 (case sys_dir si path of
                    Inl err \<Rightarrow> say DebugL (path @ '': error reading directory: '' @ err) h
                  | Inr entries \<Rightarrow> fold (log_child si path) entries h)
               else logFilePermission si path info stat h))"

definition logFDCSummary :: "host \<Rightarrow> host" where
  "logFDCSummary h =
     (let (r, h1) = run_cmd [''/opt/mqm/bin/ffstsummary''] h in
      case cmd_err r of
        Some e \<Rightarrow> say DebugL (''FDC Summary Error: '' @ e) h1
      | None \<Rightarrow> if cmd_out r \<noteq> [] then say DebugL (''FDC summary: '' @ cmd_out r) h1 else h1)"

definition diagnostic_paths :: "string list" where
  "diagnostic_paths =
     [''/mnt/'', ''/mnt/mqm'', ''/mnt/mqm/data'', ''/mnt/mqm-log/log'', ''/mnt/mqm-data/qmgrs'', ''/var/mqm'',
      ''/var/mqm/errors'', ''/etc/mqm'', ''/run'']"

definition logDiagnostics :: "sys_info \<Rightarrow> host \<Rightarrow> host" where
  "logDiagnostics si h =
     (if getDebug h
      then say DebugL ''---  End Diagnostics  ---''
             (logFDCSummary (fold (logPathPermissions si) diagnostic_paths (say DebugL ''--- Start Diagnostics ---'' h)))
      else h)"

section \<open>Diagnostics only log\<close>

text \<open>Debugging lines are added to the log, and commands may have been run; everything else is as it was.\<close>

definition adds_debug :: "host \<Rightarrow> host \<Rightarrow> bool" where
  "adds_debug h h' \<longleftrightarrow>
     h' = h\<lparr>cmds := cmds h', logs := logs h'\<rparr> \<and> take (length (cmds h)) (cmds h') = cmds h \<and>
     take (length (logs h)) (logs h') = logs h \<and> list_all (\<lambda>l. fst l = DebugL) (drop (length (logs h)) (logs h'))"

lemma adds_debug_ex:
  "adds_debug h h' \<longleftrightarrow>
     (\<exists>c l. h' = h\<lparr>cmds := cmds h @ c, logs := logs h @ l\<rparr> \<and> list_all (\<lambda>l. fst l = DebugL) l)"
proof
  assume "adds_debug h h'"
  then show "\<exists>c l. h' = h\<lparr>cmds := cmds h @ c, logs := logs h @ l\<rparr> \<and> list_all (\<lambda>l. fst l = DebugL) l"
    unfolding adds_debug_def
    by (intro exI [of _ "drop (length (cmds h)) (cmds h')"] exI [of _ "drop (length (logs h)) (logs h')"])
       (metis append_take_drop_id)
qed (auto simp: adds_debug_def)

lemma adds_debug_refl: "adds_debug h h"
  by (simp add: adds_debug_def)

lemma adds_debug_say: "adds_debug h (say DebugL m h)"
  by (auto simp: adds_debug_def say_def)

lemma adds_debug_run: "adds_debug h (snd (run_cmd a h))"
  by (auto simp: adds_debug_def run_cmd_def)

lemma adds_debug_trans:
  assumes "adds_debug a b" "adds_debug b c"
  shows "adds_debug a c"
proof -
  obtain x l where b: "b = a\<lparr>cmds := cmds a @ x, logs := logs a @ l\<rparr>" "list_all (\<lambda>l. fst l = DebugL) l"
    using assms(1) unfolding adds_debug_ex by blast
  obtain y m where c: "c = b\<lparr>cmds := cmds b @ y, logs := logs b @ m\<rparr>" "list_all (\<lambda>l. fst l = DebugL) m"
    using assms(2) unfolding adds_debug_ex by blast
  have "c = a\<lparr>cmds := cmds a @ (x @ y), logs := logs a @ (l @ m)\<rparr>" using b c by simp
  moreover have "list_all (\<lambda>l. fst l = DebugL) (l @ m)" using b c by simp
  ultimately show ?thesis unfolding adds_debug_ex by blast
qed

lemma adds_debug_fold:
  "(\<And>x h. adds_debug h (f x h)) \<Longrightarrow> adds_debug h (fold f xs h)"
  by (induction xs arbitrary: h) (auto intro: adds_debug_refl adds_debug_trans)

lemma logPathPermissions_adds: "adds_debug h (logPathPermissions si path h)"
  by (auto simp: logPathPermissions_def log_child_def logFilePermission_def
      intro!: adds_debug_say adds_debug_fold split: sum.splits)

lemma logFDCSummary_adds: "adds_debug h (logFDCSummary h)"
proof -
  obtain r h1 where r: "run_cmd [''/opt/mqm/bin/ffstsummary''] h = (r, h1)" by fastforce
  then have "adds_debug h h1" using adds_debug_run [of h "[''/opt/mqm/bin/ffstsummary'']"] by simp
  then show ?thesis
    by (simp add: logFDCSummary_def r adds_debug_trans [OF _ adds_debug_say] split: option.split)
qed

lemma logDiagnostics_adds: "adds_debug h (logDiagnostics si h)"
proof (cases "getDebug h")
  case True
  let ?h1 = "say DebugL ''--- Start Diagnostics ---'' h"
  let ?h2 = "fold (logPathPermissions si) diagnostic_paths ?h1"
  have "adds_debug h ?h2"
    using adds_debug_trans [OF adds_debug_say adds_debug_fold [OF logPathPermissions_adds]] .
  then have "adds_debug h (logFDCSummary ?h2)" using adds_debug_trans logFDCSummary_adds by blast
  then show ?thesis using True adds_debug_trans [OF _ adds_debug_say] by (simp add: logDiagnostics_def)
qed (simp add: logDiagnostics_def adds_debug_refl)

text \<open>
  Diagnostics change nothing but the log, in which they add debugging lines only, and none without \<open>DEBUG\<close>; the
  termination message is in the error lines of the log, whether it could be written to the termination log or not.
\<close>

theorem termination_logged:
  "let h1 = logTermination (logDiagnostics si) collect msg h in
     adds_debug h (logDiagnostics si h) \<and> (\<not> getDebug h \<longleftrightarrow> logDiagnostics si h = h) \<and>
     (ErrorL, msg) \<in> set (logs h1) \<and> env h1 = env h \<and>
     files h1 = (if faults h (OpWrite ''/run/termination-log'') = None then (files h)(''/run/termination-log'' \<mapsto> msg)
                 else files h)"
proof -
  have d: "set (logs k) \<subseteq> set (logs (logDiagnostics si k))"
    "env (logDiagnostics si k) = env k" "files (logDiagnostics si k) = files k" for k
    using logDiagnostics_adds [of k si] unfolding adds_debug_ex by auto
  have none: "\<not> getDebug h \<longleftrightarrow> logDiagnostics si h = h"
  proof (cases "getDebug h")
    case True
    let ?h1 = "say DebugL ''--- Start Diagnostics ---'' h"
    have "adds_debug ?h1 (logDiagnostics si h)"
      using True adds_debug_trans [OF adds_debug_fold [OF logPathPermissions_adds]
          adds_debug_trans [OF logFDCSummary_adds adds_debug_say]] by (simp add: logDiagnostics_def)
    then have "length (logs ?h1) \<le> length (logs (logDiagnostics si h))" unfolding adds_debug_ex by auto
    then have "logDiagnostics si h \<noteq> h" by (auto simp: say_def)
    then show ?thesis using True by simp
  qed (simp add: logDiagnostics_def)
  let ?h3 = "logTermination id False msg h"
  have "(ErrorL, msg) \<in> set (logs ?h3)" "env ?h3 = env h"
    "files ?h3 = (if faults h (OpWrite ''/run/termination-log'') = None then (files h)(''/run/termination-log'' \<mapsto> msg)
                 else files h)"
    by (auto simp: logTermination_def Let_def os_write_def say_def split: option.splits)
  moreover have "logTermination (logDiagnostics si) collect msg h = (if collect then logDiagnostics si ?h3 else ?h3)"
    by (simp add: logTermination_def Let_def)
  ultimately show ?thesis using logDiagnostics_adds none d [of ?h3] by (auto simp: Let_def subset_iff)
qed

section \<open>Which log is mirrored from where\<close>

text \<open>
  What \<open>mirrorLog\<close> does before its goroutine: a log that is not there is awaited; one that is there is opened, and read
  from its end unless it is to be mirrored from the start. The goroutine itself is the step relation of Mirror.
\<close>

record mirror_job =
  job_path :: string
  job_fromStart :: bool
  job_qm :: bool
  job_offset :: "nat option"

definition mirrorLog :: "string \<Rightarrow> bool \<Rightarrow> bool \<Rightarrow> host \<Rightarrow> (string, mirror_job) result" where
  "mirrorLog path fromStart isQMLog h =
     (case os_stat path h of
        Some NotExist \<Rightarrow> Inr \<lparr>job_path = path, job_fromStart = fromStart, job_qm = isQMLog, job_offset = None\<rparr>
      | Some (IoErr e) \<Rightarrow> Inl e
      | None \<Rightarrow>
          (case faults h (OpOpen path) of
             Some e \<Rightarrow> Inl e
           | None \<Rightarrow>
               Inr \<lparr>job_path = path, job_fromStart = fromStart, job_qm = isQMLog,
                    job_offset = Some (length (file_or_empty h path))\<rparr>))"

definition mirrorSystemErrorLogs :: "host \<Rightarrow> (string, mirror_job) result" where
  "mirrorSystemErrorLogs h = mirrorLog ''/var/mqm/errors/AMQERR01.json'' False False h"

text \<open>A failing \<open>dspmqinf\<close> is logged as well; an incomplete stanza panics: \<open>None\<close>.\<close>

definition with_qm ::
    "string \<Rightarrow> (QueueManager \<Rightarrow> host \<Rightarrow> (string, mirror_job) result) \<Rightarrow> host
      \<Rightarrow> ((string, mirror_job) result \<times> host) option" where
  "with_qm name f h =
     (case GetQueueManager name h of
        (IniError e, h1) \<Rightarrow> Some (Inl e, say DebugL e h1)
      | (IniPanic, h1) \<Rightarrow> None
      | (IniOk qm, h1) \<Rightarrow> Some (f qm h1, h1))"

definition mirrorMQSCLogs :: "string \<Rightarrow> host \<Rightarrow> ((string, mirror_job) result \<times> host) option" where
  "mirrorMQSCLogs name h =
     with_qm name (\<lambda>qm. mirrorLog (path_join [GetErrorLogDirectory qm, ''autocfgmqsc.LOG'']) True False) h"

definition mirrorQueueManagerErrorLogs ::
    "string \<Rightarrow> bool \<Rightarrow> host \<Rightarrow> ((string, mirror_job) result \<times> host) option" where
  "mirrorQueueManagerErrorLogs name fromStart h =
     with_qm name (\<lambda>qm. mirrorLog (path_join [GetErrorLogDirectory qm, ''AMQERR01.json'']) fromStart True) h"

definition mirrorMQSimpleAuthLogs :: "bool \<Rightarrow> host \<Rightarrow> (string, mirror_job) result" where
  "mirrorMQSimpleAuthLogs fromStart h = mirrorLog ''/var/mqm/errors/simpleauth.json'' False True h"

definition mirrorWebServerLogs :: "bool \<Rightarrow> host \<Rightarrow> (string, mirror_job) result" where
  "mirrorWebServerLogs fromStart h =
     mirrorLog ''/var/mqm/web/installations/Installation1/servers/mqweb/logs/messages.log'' fromStart True h"

text \<open>The state in which the goroutine starts, for a file system whose file at the path has the given number.\<close>

definition job_mirror :: "nat \<Rightarrow> host \<Rightarrow> mirror_job \<Rightarrow> mirror" where
  "job_mirror ino h j =
     mirror_start (job_fromStart j) (if job_offset j = None then None else Some ino) (\<lambda>_. file_or_empty h (job_path j))"

text \<open>
  A log is mirrored from where it should be: one that is not there yet from its first line, one that is there from its
  end, or from its first line if that is asked for. The log of the developer authentication is never read from its start
  if it exists, although the server asks for that with a new queue manager.
\<close>

theorem mirror_offsets:
  assumes "healthy_host h"
  shows "(\<exists>j. mirrorLog p fromStart qm h = Inr j \<and>
      (let s = job_mirror ino h j in
         offset s = (if fromStart then 0 else length (file_or_empty h p)) \<and>
         (at s = AwaitFile \<longleftrightarrow> files h p = None) \<and>
         written s = (if fromStart \<or> files h p = None then file_or_empty h p else [])))
    \<and> mirrorMQSimpleAuthLogs True h = mirrorMQSimpleAuthLogs False h"
  using assms
  by (auto simp: mirrorLog_def job_mirror_def mirror_start_def Let_def file_or_empty_def mirrorMQSimpleAuthLogs_def
      split: option.splits)

end
