(* ===== verification/Dev_Server.thy ===== *)
theory Dev_Server
  imports Secrets Container_Runtime Templates Console_Log
begin

text \<open>
  cmd/runmqdevserver: the program that the developer image runs first. It prepares the configuration that the developer
  defaults and the simple authentication need, and is then replaced by the server. The outer \<open>None\<close> is a panic.
\<close>

section \<open>The logger\<close>

definition dev_getLogFormat :: "host \<Rightarrow> string" where
  "dev_getLogFormat h =
     (let f1 = to_lower (trim_space (getenv h ''MQ_LOGGING_CONSOLE_FORMAT''));
          f2 = (if f1 = [] then to_lower (trim_space (getenv h ''LOG_FORMAT'')) else f1)
      in if f2 \<noteq> [] \<and> (f2 = ''basic'' \<or> f2 = ''json'') then f2 else ''basic'')"

definition dev_getDebug :: "host \<Rightarrow> bool" where
  "dev_getDebug h \<longleftrightarrow> getenv h ''DEBUG'' = ''true'' \<or> getenv h ''DEBUG'' = ''1''"

text \<open>The error, the logger that the program has afterwards, and the registry of writers.\<close>

definition dev_configureLogger :: "process_info \<Rightarrow> host \<Rightarrow> registry \<Rightarrow> string option \<times> Logger option \<times> registry" where
  "dev_configureLogger pr h r =
     (let f = dev_getLogFormat h; d = dev_getDebug h in
      case GetQueueManagerName h of
        Inl e \<Rightarrow> (Some e, None, r)
      | Inr n \<Rightarrow>
          if f = ''json'' \<or> f = ''basic'' then
            (case NewLogger pr Stdout d (f = ''json'') n h r of
               (Inl e, r1) \<Rightarrow> (Some e, None, r1)
             | (Inr l, r1) \<Rightarrow> (None, Some l, r1))
          else
            (case NewLogger pr Stderr d False n h r of
               (x, r1) \<Rightarrow> (Some (''invalid value for LOG_FORMAT: '' @ f), (case x of Inl _ \<Rightarrow> None | Inr l \<Rightarrow> Some l), r1)))"

text \<open>Logging without a logger is a panic.\<close>

definition dev_logTermination :: "Logger option \<Rightarrow> string \<Rightarrow> host \<Rightarrow> host option" where
  "dev_logTermination l msg h =
     (if l = None then None else Some (logTermination id False msg h))"

section \<open>Preparing the configuration\<close>

record dev_libs =
  dv_process :: process_info
  dv_kernel :: kernel
  dv_templates :: template_lib
  dv_workdir :: "string option"
  dv_exec :: "string option"

definition updateMQSC :: "template_lib \<Rightarrow> bool \<Rightarrow> host \<Rightarrow> string option \<times> host" where
  "updateMQSC tlib appPasswordRequired h =
     (let checkClient = (if appPasswordRequired then ''REQUIRED'' else ''ASQMGR'') in
      if getenv h ''MQ_DEV'' = ''true''
      then ProcessTemplateFile tlib ''/etc/mqm/10-dev.mqsc.tpl'' ''/run/10-dev.mqsc'' [(''ChckClnt'', checkClient)] h
      else (None, h))"

definition dev_files :: "string list" where
  "dev_files = [''/run/10-dev.mqsc'', ''/run/20-dev-tls.mqsc'', ''/run/qm-service-component.ini'']"

fun write_empty :: "string list \<Rightarrow> host \<Rightarrow> string option \<times> host" where
  "write_empty [] h = (None, h)"
| "write_empty (p # ps) h =
     (case os_write p [] h of
        (Some e, h1) \<Rightarrow> (Some (err_text e), h1)
      | (None, h1) \<Rightarrow> write_empty ps h1)"

definition simple_auth :: "dev_libs \<Rightarrow> host \<Rightarrow> string option \<times> host" where
  "simple_auth dv h =
     (case env h ''MQ_CONNAUTH_USE_HTP'' of
        None \<Rightarrow> (None, h)
      | Some enableHtPwd \<Rightarrow>
          if equal_fold enableHtPwd ''true'' then
            (case CopyFile (dv_workdir dv) ''/etc/mqm/qm-service-component.ini.default'' ''/run/qm-service-component.ini'' h of
               (Some e, h1) \<Rightarrow> (Some e, h1)
             | (None, h1) \<Rightarrow> CheckForPasswords h1)
          else (None, h))"

text \<open>The steps in their order; the first error ends the program.\<close>

definition dev_prepare :: "dev_libs \<Rightarrow> host \<Rightarrow> string option \<times> host" where
  "dev_prepare dv h =
     (let set = (env h ''MQ_CONNAUTH_USE_HTP'' \<noteq> None) in
      case write_empty dev_files h of
        (Some e, h1) \<Rightarrow> (Some e, h1)
      | (None, h1) \<Rightarrow>
          (case simple_auth dv h1 of
             (Some e, h2) \<Rightarrow> (Some e, h2)
           | (None, h2) \<Rightarrow>
               (case updateMQSC (dv_templates dv) set h2 of
                  (Some e, h3) \<Rightarrow> (Some (''Error updating MQSC: '' @ e), h3)
                | (None, h3) \<Rightarrow> (None, h3))))"

definition dev_doMain :: "dev_libs \<Rightarrow> host \<Rightarrow> registry \<Rightarrow> (string option \<times> host) option" where
  "dev_doMain dv h r =
     (case dev_configureLogger (dv_process dv) h r of
        (Some e, l, r1) \<Rightarrow> map_option (Pair (Some e)) (dev_logTermination l e h)
      | (None, l, r1) \<Rightarrow>
          (case LogContainerDetails (dv_kernel dv) h of
             None \<Rightarrow> None
           | Some (Some e, h1) \<Rightarrow> map_option (Pair (Some e)) (dev_logTermination l e h1)
           | Some (None, h1) \<Rightarrow>
               (case dev_prepare dv h1 of
                  (Some e, h2) \<Rightarrow> map_option (Pair (Some e)) (dev_logTermination l e h2)
                | (None, h2) \<Rightarrow> Some (None, h2))))"

text \<open>How the program ends: with an exit code, or replaced by another program with its arguments.\<close>

datatype dev_end = Exit int host | Replaced "string list" host | Panic

definition dev_main :: "dev_libs \<Rightarrow> host \<Rightarrow> registry \<Rightarrow> dev_end" where
  "dev_main dv h r =
     (case dev_doMain dv h r of
        None \<Rightarrow> Panic
      | Some (Some e, h1) \<Rightarrow> Exit 1 h1
      | Some (None, h1) \<Rightarrow>
          (case dv_exec dv of
             Some e \<Rightarrow> Exit 0 (say ErrorL (''Error replacing this process with runmqserver: '' @ e) h1)
           | None \<Rightarrow> Replaced [''runmqserver'', ''-nologruntime'', ''-dev''] h1))"

section \<open>What it promises to the server\<close>

lemma duplicated_code: "dev_getLogFormat = getLogFormat" "dev_getDebug = getDebug"
  by (auto simp: fun_eq_iff dev_getLogFormat_def getLogFormat_def dev_getDebug_def getDebug_def Let_def)

text \<open>
  The program panics exactly when it has an error to report before it has a logger, because the queue manager has
  no valid name or the host none, or when the list of mounts is not well formed.
\<close>

theorem dev_panics_iff:
  "dev_main dv h r = Panic \<longleftrightarrow>
     (\<exists>e. GetQueueManagerName h = Inl e) \<or> hostname h = None \<or> LogContainerDetails (dv_kernel dv) h = None"
proof -
  have f: "dev_getLogFormat h = ''json'' \<or> dev_getLogFormat h = ''basic''"
    by (auto simp: dev_getLogFormat_def Let_def)
  show ?thesis
    using f
    by (cases "GetQueueManagerName h"; cases "hostname h")
       (auto simp: dev_main_def dev_doMain_def dev_configureLogger_def Let_def NewLogger_def dev_logTermination_def
         split: option.splits prod.splits)
qed


lemma write_empty_result:
  assumes "write_empty ps h = (None, h')"
  shows "h' = h\<lparr>files := (\<lambda>p. if p \<in> set ps then Some [] else files h p)\<rparr>"
  using assms
proof (induction ps arbitrary: h)
  case (Cons p ps)
  obtain h1 where h1: "os_write p [] h = (None, h1)" "write_empty ps h1 = (None, h')"
    using Cons.prems by (auto split: prod.splits option.splits)
  have "h1 = h\<lparr>files := (files h)(p \<mapsto> [])\<rparr>" using h1(1) by (auto simp: os_write_def split: option.splits)
  then show ?case using Cons.IH [OF h1(2)] by (auto simp: fun_eq_iff intro!: arg_cong [where f = "\<lambda>f. h\<lparr>files := f\<rparr>"])
qed simp

lemma CheckForPasswords_frame:
  assumes "CheckForPasswords h = (None, h')"
  shows "files h' = files h" "faults h' = faults h"
    "k \<notin> {''MQ_ADMIN_PASSWORD_SECURE'', ''MQ_APP_PASSWORD_SECURE''} \<Longrightarrow> env h' k = env h k"
proof -
  obtain h1 where a: "check_password admin_block h = (None, h1)" "check_password app_block h1 = (None, h')"
    using assms by (auto simp: CheckForPasswords_def split: prod.splits option.splits)
  note r1 = check_password_given [OF a(1)] and r2 = check_password_given [OF a(2)]
  show "files h' = files h" "faults h' = faults h" using r1 r2 by simp_all
  assume "k \<notin> {''MQ_ADMIN_PASSWORD_SECURE'', ''MQ_APP_PASSWORD_SECURE''}"
  then have k: "k \<noteq> secure_env admin_block" "k \<noteq> secure_env app_block" by (simp_all add: admin_block_def app_block_def)
  have "env h1 k = env h k" by (subst r1(1)) (use k in simp_all)
  moreover have "env h' k = env h1 k" by (subst r2(1)) (use k in simp_all)
  ultimately show "env h' k = env h k" by simp
qed

lemma ProcessTemplateFile_frame:
  assumes "ProcessTemplateFile tlib src dest dat h = (r, h')"
  shows "env h' = env h" "faults h' = faults h" "p \<noteq> dest \<Longrightarrow> files h' p = files h p"
  using assms
  by (auto simp: ProcessTemplateFile_def log_error_def template_out_def os_open_create_def os_write_def say_def
      split: option.splits sum.splits io_error.splits prod.splits if_splits)

lemma CopyFile_frame:
  assumes "CopyFile wd src dest h = (r, h')"
  shows "env h' = env h" "faults h' = faults h" "p \<noteq> dest \<Longrightarrow> files h' p = files h p"
  using assms
  by (auto simp: CopyFile_def CopyFileMode_def os_open_create_def os_write_def split: option.splits sum.splits if_splits)


lemma IsEnabled_env: "env h' = env h \<Longrightarrow> IsEnabled h' = IsEnabled h"
  by (simp add: IsEnabled_def given_def)

lemma os_stat_files: "files h' p = files h p \<Longrightarrow> faults h' = faults h \<Longrightarrow> os_stat p h' = os_stat p h"
  by (simp add: os_stat_def cong: option.case_cong)

text \<open>What the program has prepared when all its steps succeed.\<close>

lemma simple_auth_result:
  assumes "simple_auth dv h = (None, h')"
  shows "IsEnabled h' \<longleftrightarrow>
      (case env h ''MQ_CONNAUTH_USE_HTP'' of None \<Rightarrow> False | Some v \<Rightarrow> equal_fold v ''true'')
      \<and> (IsEnabled h \<or> os_stat ''/run/secrets/mqAdminPassword'' h = None \<or> os_stat ''/run/secrets/mqAppPassword'' h = None)"
    and "faults h' = faults h" "p \<noteq> ''/run/qm-service-component.ini'' \<Longrightarrow> files h' p = files h p"
    and "k \<notin> {''MQ_ADMIN_PASSWORD_SECURE'', ''MQ_APP_PASSWORD_SECURE''} \<Longrightarrow> env h' k = env h k"
proof -
  show "IsEnabled h' \<longleftrightarrow>
      (case env h ''MQ_CONNAUTH_USE_HTP'' of None \<Rightarrow> False | Some v \<Rightarrow> equal_fold v ''true'')
      \<and> (IsEnabled h \<or> os_stat ''/run/secrets/mqAdminPassword'' h = None \<or> os_stat ''/run/secrets/mqAppPassword'' h = None)"
  proof (cases "\<exists>v. env h ''MQ_CONNAUTH_USE_HTP'' = Some v \<and> equal_fold v ''true''")
    case True
    then obtain v h1 where v: "env h ''MQ_CONNAUTH_USE_HTP'' = Some v" "equal_fold v ''true''"
      and c: "CopyFile (dv_workdir dv) ''/etc/mqm/qm-service-component.ini.default'' ''/run/qm-service-component.ini'' h = (None, h1)"
        "CheckForPasswords h1 = (None, h')"
      using assms by (auto simp: simple_auth_def split: prod.splits option.splits)
    note f = CopyFile_frame [OF c(1)]
    have "os_stat q h1 = os_stat q h" if "q \<noteq> ''/run/qm-service-component.ini''" for q
      using f that by (intro os_stat_files) simp_all
    then show ?thesis using passwords_enable_auth [OF c(2)] v by (simp add: f(1) IsEnabled_env [OF f(1)])
  next
    case False
    then have "h' = h" using assms by (auto simp: simple_auth_def split: option.splits if_splits)
    then show ?thesis using False by (auto simp: IsEnabled_def getenv_def split: option.splits)
  qed
  have frame: "faults h' = faults h \<and> (p \<noteq> ''/run/qm-service-component.ini'' \<longrightarrow> files h' p = files h p)
      \<and> (k \<notin> {''MQ_ADMIN_PASSWORD_SECURE'', ''MQ_APP_PASSWORD_SECURE''} \<longrightarrow> env h' k = env h k)"
  proof (cases "h' = h")
    case False
    then obtain h1 where
        c: "CopyFile (dv_workdir dv) ''/etc/mqm/qm-service-component.ini.default'' ''/run/qm-service-component.ini'' h = (None, h1)"
        "CheckForPasswords h1 = (None, h')"
      using assms by (auto simp: simple_auth_def split: prod.splits option.splits if_splits)
    show ?thesis using CopyFile_frame [OF c(1)] CheckForPasswords_frame [OF c(2)] by simp
  qed simp
  then show "faults h' = faults h" "p \<noteq> ''/run/qm-service-component.ini'' \<Longrightarrow> files h' p = files h p"
    "k \<notin> {''MQ_ADMIN_PASSWORD_SECURE'', ''MQ_APP_PASSWORD_SECURE''} \<Longrightarrow> env h' k = env h k"
    by blast+
qed

text \<open>The script that is made, over an empty file.\<close>

lemma updateMQSC_script:
  assumes "updateMQSC tlib required h = (None, h')" "getenv h ''MQ_DEV'' = ''true''"
    and "faults h (OpOpen ''/run/10-dev.mqsc'') = None" "file_or_empty h ''/run/10-dev.mqsc'' = []"
  shows "\<exists>body tpl. files h ''/etc/mqm/10-dev.mqsc.tpl'' = Some body \<and> tlib body = Inr tpl
    \<and> files h' ''/run/10-dev.mqsc'' = Some (concat (fst (tpl [(''ChckClnt'', if required then ''REQUIRED'' else ''ASQMGR'')])))"
proof -
  have t: "ProcessTemplateFile tlib ''/etc/mqm/10-dev.mqsc.tpl'' ''/run/10-dev.mqsc''
      [(''ChckClnt'', if required then ''REQUIRED'' else ''ASQMGR'')] h = (None, h')"
    using assms(1,2) by (simp add: updateMQSC_def split: if_splits)
  from ProcessTemplateFile_result [OF t assms(3)] assms(4) show ?thesis by auto
qed

text \<open>
  C35. When the program is replaced by the server, in developer mode, the simple authentication is enabled for the server
  exactly if the variable says so and a password was given in a variable or a file; and the developer script, if one is
  made, requires a password of applications whenever that variable is set, whatever its value.
\<close>

theorem dev_hands_over:
  assumes "dev_main dv h r = Replaced args h'" "faults h (OpOpen ''/run/10-dev.mqsc'') = None"
  shows "args = [''runmqserver'', ''-nologruntime'', ''-dev'']
    \<and> (IsEnabled h' \<longleftrightarrow>
        (case env h ''MQ_CONNAUTH_USE_HTP'' of None \<Rightarrow> False | Some v \<Rightarrow> equal_fold v ''true'')
        \<and> (IsEnabled h \<or> os_stat ''/run/secrets/mqAdminPassword'' h = None \<or> os_stat ''/run/secrets/mqAppPassword'' h = None))
    \<and> (getenv h ''MQ_DEV'' = ''true'' \<longrightarrow>
        (\<exists>body tpl. files h ''/etc/mqm/10-dev.mqsc.tpl'' = Some body \<and> dv_templates dv body = Inr tpl
           \<and> files h' ''/run/10-dev.mqsc'' = Some (concat (fst (tpl
               [(''ChckClnt'', if env h ''MQ_CONNAUTH_USE_HTP'' = None then ''ASQMGR'' else ''REQUIRED'')])))))"
proof -
  obtain l r1 h1 where l: "dev_configureLogger (dv_process dv) h r = (None, l, r1)"
      "LogContainerDetails (dv_kernel dv) h = Some (None, h1)" "dev_prepare dv h1 = (None, h')"
      "args = [''runmqserver'', ''-nologruntime'', ''-dev'']"
    using assms(1) by (auto simp: dev_main_def dev_doMain_def split: option.splits prod.splits)
  obtain ls where h1: "h1 = h\<lparr>logs := ls\<rparr>" using container_details_only_log [OF l(2)] by (auto simp: only_logs_def)
  obtain h2 h3 where p: "write_empty dev_files h1 = (None, h2)" "simple_auth dv h2 = (None, h3)"
      "updateMQSC (dv_templates dv) (env h1 ''MQ_CONNAUTH_USE_HTP'' \<noteq> None) h3 = (None, h')"
    using l(3) by (auto simp: dev_prepare_def Let_def split: prod.splits option.splits)
  have h2: "h2 = h\<lparr>logs := ls, files := (\<lambda>p. if p \<in> set dev_files then Some [] else files h p)\<rparr>"
    using write_empty_result [OF p(1)] by (simp add: h1 cong: if_cong)
  note a = simple_auth_result [OF p(2)]
  have st: "os_stat q h2 = os_stat q h" if "q \<notin> set dev_files" for q
    using that by (intro os_stat_files) (simp_all add: h2)
  have e: "IsEnabled h' = IsEnabled h3"
    using p(3) by (auto simp: updateMQSC_def Let_def split: if_splits dest!: ProcessTemplateFile_frame(1) IsEnabled_env)
  have "IsEnabled h2 = IsEnabled h" by (rule IsEnabled_env) (simp add: h2)
  then have "IsEnabled h' \<longleftrightarrow>
      (case env h ''MQ_CONNAUTH_USE_HTP'' of None \<Rightarrow> False | Some v \<Rightarrow> equal_fold v ''true'')
      \<and> (IsEnabled h \<or> os_stat ''/run/secrets/mqAdminPassword'' h = None \<or> os_stat ''/run/secrets/mqAppPassword'' h = None)"
    unfolding e a(1) using st [of "''/run/secrets/mqAdminPassword''"] st [of "''/run/secrets/mqAppPassword''"]
    by (simp add: h2 dev_files_def)
  moreover have "\<exists>body tpl. files h ''/etc/mqm/10-dev.mqsc.tpl'' = Some body \<and> dv_templates dv body = Inr tpl
           \<and> files h' ''/run/10-dev.mqsc'' = Some (concat (fst (tpl
               [(''ChckClnt'', if env h ''MQ_CONNAUTH_USE_HTP'' = None then ''ASQMGR'' else ''REQUIRED'')])))"
    if "getenv h ''MQ_DEV'' = ''true''"
  proof -
    have "getenv h3 ''MQ_DEV'' = ''true''" using that a(4) [of "''MQ_DEV''"] by (simp add: getenv_def h2)
    moreover have "faults h3 (OpOpen ''/run/10-dev.mqsc'') = None" using assms(2) a(2) by (simp add: h2)
    moreover have "file_or_empty h3 ''/run/10-dev.mqsc'' = []"
      using a(3) [of "''/run/10-dev.mqsc''"] by (simp add: h2 dev_files_def file_or_empty_def)
    ultimately show ?thesis
      using updateMQSC_script [OF p(3)] a(3) [of "''/etc/mqm/10-dev.mqsc.tpl''"] by (auto simp: h1 h2 dev_files_def)
  qed
  ultimately show ?thesis using l(4) by blast
qed


section \<open>An example\<close>

definition dev_host :: host where
  "dev_host =
     \<lparr>env = [''MQ_DEV'' \<mapsto> ''true'', ''MQ_CONNAUTH_USE_HTP'' \<mapsto> ''false'', ''MQ_QMGR_NAME'' \<mapsto> ''QM1''],
      files = [''/etc/mqm/10-dev.mqsc.tpl'' \<mapsto> ''t''],
      faults = (\<lambda>_. None), clock = 0, hostname = Some ''box'',
      exec = (\<lambda>_ _. \<lparr>cmd_out = [], cmd_rc = 0, cmd_err = None\<rparr>), cmds = [], logs = []\<rparr>"

definition dev_example :: dev_libs where
  "dev_example =
     \<lparr>dv_process = \<lparr>argv0 = ''runmqdevserver'', process_id = 1, current_user = None\<rparr>, dv_kernel = toy_kernel,
      dv_templates = (\<lambda>_. Inr (\<lambda>d. (map snd d, None))), dv_workdir = Some ''/'', dv_exec = None\<rparr>"

lemma dev_hands_over_witness:
  "\<exists>h'. dev_main dev_example dev_host registry_start = Replaced [''runmqserver'', ''-nologruntime'', ''-dev''] h'
     \<and> \<not> IsEnabled h' \<and> files h' ''/run/10-dev.mqsc'' = Some ''REQUIRED''"
proof -
  have "case dev_main dev_example dev_host registry_start of Replaced a h' \<Rightarrow> True | _ \<Rightarrow> False" by code_simp
  then obtain a h' where r: "dev_main dev_example dev_host registry_start = Replaced a h'"
    by (cases "dev_main dev_example dev_host registry_start") simp_all
  have f: "faults dev_host (OpOpen ''/run/10-dev.mqsc'') = None" by (simp add: dev_host_def)
  have v: "\<not> equal_fold ''false'' ''true''" by code_simp
  from dev_hands_over [OF r f] have "a = [''runmqserver'', ''-nologruntime'', ''-dev'']" "\<not> IsEnabled h'"
      "files h' ''/run/10-dev.mqsc'' = Some ''REQUIRED''"
    using v by (simp_all add: dev_host_def dev_example_def getenv_def)
  then show ?thesis using r by blast
qed

end
