(* ===== verification/Server.thy ===== *)
theory Server
  imports Web Diagnostics Qmgr Volumes Signals Dev_Server Probe_Listener
begin

text \<open>
  cmd/runmqserver/main.go: the main program of the container, as the sequence of its stages. A stage goes on with a new
  state of the server, or makes the program return, or panics. What the stages call is modelled in the other theories;
  the state has the local variables of \<open>doMain\<close> and which goroutines it has started.
\<close>

section \<open>State and parameters\<close>

record server =
  sv_host :: host
  sv_registry :: registry
  entries :: "entry list"
  sv_links :: links
  logger_set :: bool
  qmname :: string
  nameErr :: bool
  isProbeLoggingEnabled :: bool
  collectDiagOnFail :: bool
  handlerStarted :: bool
  controls :: "int list"
  startupMarkedComplete :: bool
  startupCtxDone :: bool
  fipsType :: int
  keyLabel :: string
  defaultCmsKeystore :: KeyStoreData
  defaultP12Truststore :: KeyStoreData
  newQM :: bool
  mirrors :: "mirror_job list"
  mirrorsWaited :: bool
  webStarted :: bool
  metricsStarted :: bool
  probes :: "probe_run option"

record server_libs =
  initFlag :: bool
  infoFlag :: bool
  noLogRuntimeFlag :: bool
  devFlag :: bool
  sl_arch :: string
  sl_log :: log_libs
  sl_kernel :: kernel
  sl_rlimit :: "string option"
  sl_executable :: "(string, string) result"
  sl_image :: image_info
  sl_sys :: sys_info
  sl_removable :: "string \<Rightarrow> bool"
  sl_remove_error :: "string \<Rightarrow> string"
  sl_dir_error :: "string \<Rightarrow> io_error option"
  sl_workdir :: "string option"
  sl_crypto :: crypto
  sl_templates :: template_lib
  sl_web :: web_libs
  sl_link_fault :: "string \<Rightarrow> string option"
  sl_web_files :: "(string, string \<times> bool) result list"
  sl_generate :: generator
  sl_order :: "(string \<times> string) list \<Rightarrow> (string \<times> string) list"
  sl_atoi_error :: "string \<Rightarrow> string"
  sl_bool_error :: "string \<Rightarrow> string"
  sl_sockets :: sock_faults
  sl_created :: nat
  sl_nodes :: "string \<rightharpoonup> nat"

definition server_start :: "host \<Rightarrow> entry list \<Rightarrow> links \<Rightarrow> server" where
  "server_start h t lk =
     \<lparr>sv_host = h, sv_registry = registry_start, entries = t, sv_links = lk, logger_set = False, qmname = [],
      nameErr = False, isProbeLoggingEnabled = False, collectDiagOnFail = False, handlerStarted = False, controls = [],
      startupMarkedComplete = False, startupCtxDone = False, fipsType = 0, keyLabel = [], defaultCmsKeystore = no_data,
      defaultP12Truststore = no_data, newQM = False, mirrors = [], mirrorsWaited = False, webStarted = False,
      metricsStarted = False, probes = None\<rparr>"

section \<open>Stages\<close>

datatype 's flow = Go 's | Ret "string option" 's | Crash

text \<open>The usual end of a stage with an error: a termination message, and the error is returned.\<close>

definition with_host :: "host \<Rightarrow> server \<Rightarrow> server" where
  "with_host h s = s\<lparr>sv_host := h\<rparr>"

definition fail :: "server_libs \<Rightarrow> string \<Rightarrow> server \<Rightarrow> server flow" where
  "fail sl e s =
     Ret (Some e) (with_host (logTermination (logDiagnostics (sl_sys sl)) (collectDiagOnFail s) e (sv_host s)) s)"

definition checked :: "server_libs \<Rightarrow> (host \<Rightarrow> string option \<times> host) \<Rightarrow> server \<Rightarrow> server flow" where
  "checked sl f s =
     (case f (sv_host s) of
        (None, h) \<Rightarrow> Go (with_host h s)
      | (Some e, h) \<Rightarrow> fail sl e (with_host h s))"

definition checked_panic :: "server_libs \<Rightarrow> (host \<Rightarrow> (string option \<times> host) option) \<Rightarrow> server \<Rightarrow> server flow" where
  "checked_panic sl f s = (case f (sv_host s) of None \<Rightarrow> Crash | Some r \<Rightarrow> checked sl (\<lambda>_. r) s)"

definition only_if :: "bool \<Rightarrow> (server \<Rightarrow> server flow) \<Rightarrow> server \<Rightarrow> server flow" where
  "only_if b f s = (if b then f s else Go s)"

fun run_stages :: "(server \<Rightarrow> server flow) list \<Rightarrow> server \<Rightarrow> server flow" where
  "run_stages [] s = Go s"
| "run_stages (f # fs) s = (case f s of Go s1 \<Rightarrow> run_stages fs s1 | r \<Rightarrow> r)"

definition switched_on :: "string \<Rightarrow> server \<Rightarrow> bool" where
  "switched_on k s \<longleftrightarrow> getenv (sv_host s) k = ''true'' \<or> getenv (sv_host s) k = ''1''"

subsection \<open>Until the signal handler runs\<close>

text \<open>The warning comes before there is a logger.\<close>

definition st_limit :: "server_libs \<Rightarrow> server \<Rightarrow> server flow" where
  "st_limit sl s =
     (if getenv (sv_host s) ''MQ_ENABLE_SOFT_FILE_LIMIT_INCREASE'' = ''true'' \<and> sl_rlimit sl \<noteq> None then Crash else Go s)"

definition st_logger :: "server_libs \<Rightarrow> server \<Rightarrow> server flow" where
  "st_logger sl s =
     (let (n, err) = (case GetQueueManagerName (sv_host s) of Inl _ \<Rightarrow> ([], True) | Inr n \<Rightarrow> (n, False)) in
      case configureLogger (sl_log sl) n (sv_host s) (sv_registry s) of
        (None, _, _) \<Rightarrow> Crash
      | (Some l, Inl e, r) \<Rightarrow> fail sl e (s\<lparr>sv_registry := r, logger_set := True\<rparr>)
      | (Some l, Inr mf, r) \<Rightarrow> Go (s\<lparr>sv_registry := r, logger_set := True, qmname := n, nameErr := err\<rparr>))"

definition st_info :: "server_libs \<Rightarrow> server \<Rightarrow> server flow" where
  "st_info sl s =
     (if infoFlag sl then
        (case LogContainerDetails (sl_kernel sl) (logVersionInfo (sl_image sl) (sv_host s)) of
           None \<Rightarrow> Crash
         | Some (Some e, h) \<Rightarrow> Ret None (with_host (say InfoL (''Error displaying container details: '' @ e) h) s)
         | Some (None, h) \<Rightarrow> Ret None (with_host h s))
      else Go s)"

definition st_single :: "server_libs \<Rightarrow> server \<Rightarrow> server flow" where
  "st_single sl s =
     (case verifySingleProcess (sl_executable sl) (sv_host s) of
        (Some e, h) \<Rightarrow> Ret (Some e) (with_host (say ErrorL e h) s)
      | (None, h) \<Rightarrow> Go (with_host h s))"

text \<open>With a bad name it is the absent error of the stage before that is logged and returned.\<close>

definition st_name :: "server_libs \<Rightarrow> server \<Rightarrow> server flow" where
  "st_name sl s =
     (if nameErr s
      then Ret None (with_host (logTermination (logDiagnostics (sl_sys sl)) (collectDiagOnFail s) ''<nil>'' (sv_host s)) s)
      else Go s)"

definition st_clear :: "server_libs \<Rightarrow> server \<Rightarrow> server flow" where
  "st_clear sl = checked sl (\<lambda>h. case Clear h of (e, h1) \<Rightarrow> (map_option err_text e, h1))"

definition st_license :: "server_libs \<Rightarrow> server \<Rightarrow> server flow" where
  "st_license sl s =
     (case checkLicense (sv_host s) of
        ((_, Some e), h) \<Rightarrow> fail sl (''Error checking license acceptance: '' @ e) (with_host h s)
      | ((False, None), h) \<Rightarrow> fail sl ''License not accepted'' (with_host h s)
      | ((True, None), h) \<Rightarrow> Go (with_host (say InfoL (''Using queue manager name: '' @ qmname s) h) s))"

definition st_handler :: "server_libs \<Rightarrow> server \<Rightarrow> server flow" where
  "st_handler sl s =
     (case checkLogSourceForMirroring ''probes'' (sv_host s) of
        (yes, h) \<Rightarrow>
          Go ((with_host h s)\<lparr>isProbeLoggingEnabled := yes, handlerStarted := True, collectDiagOnFail := True\<rparr>))"


subsection \<open>Volumes and files\<close>

definition st_details :: "server_libs \<Rightarrow> server \<Rightarrow> server flow" where
  "st_details sl = only_if (\<not> noLogRuntimeFlag sl) (checked_panic sl (LogContainerDetails (sl_kernel sl)))"

definition st_volume :: "server_libs \<Rightarrow> string \<Rightarrow> server \<Rightarrow> server flow" where
  "st_volume sl p = checked sl (createVolume p)"

text \<open>The files of the host go with the entries that are removed.\<close>

definition drop_removed :: "entry list \<Rightarrow> entry list \<Rightarrow> host \<Rightarrow> host" where
  "drop_removed t t1 h = h\<lparr>files := (\<lambda>p. if p \<in> path ` set t \<and> p \<notin> path ` set t1 then None else files h p)\<rparr>"

definition st_clean :: "server_libs \<Rightarrow> string \<Rightarrow> server \<Rightarrow> server flow" where
  "st_clean sl p s =
     (case cleanVolume (sl_removable sl) (sl_remove_error sl) (sl_dir_error sl p) p (entries s) of
        (e, t) \<Rightarrow>
          (let s1 = (with_host (drop_removed (entries s) t (sv_host s)) s)\<lparr>entries := t\<rparr>
           in case e of Some e \<Rightarrow> fail sl e s1 | None \<Rightarrow> Go s1))"

definition st_clean_tmp :: "server_libs \<Rightarrow> server \<Rightarrow> server flow" where
  "st_clean_tmp sl s =
     only_if (getenv (sv_host s) ''MQ_ENABLE_CLEAN_TMP_ON_START'' = ''true'')
       (run_stages [st_clean sl ''/tmp'', st_clean sl ''/mnt/mqm/tmp'']) s"

definition scratch_skips :: "string list" where
  "scratch_skips =
     map (\<lambda>f. path_join [''/mnt/mqm/scratch'', f])
       [''secrets/kubernetes.io/serviceaccount'', ''termination-log'', ''MQInstanaTracing/userconfiginstana.ini'',
        ''10-dev.mqsc'', ''20-dev-tls.mqsc'', ''qm-service-component.ini'']"

definition st_scratch :: "server_libs \<Rightarrow> server \<Rightarrow> server flow" where
  "st_scratch sl s =
     (case cleanVolumeBestEffort (sl_removable sl) (sl_remove_error sl) ''/mnt/mqm/scratch'' scratch_skips (entries s) (sv_host s) of
        None \<Rightarrow> Crash
      | Some (t, h) \<Rightarrow> Go ((with_host (drop_removed (entries s) t h) s)\<lparr>entries := t\<rparr>))"

definition configure_tracing :: "server_libs \<Rightarrow> string \<Rightarrow> host \<Rightarrow> (string option \<times> host) option" where
  "configure_tracing sl name h =
     (if getenv h ''MQ_ENABLE_INSTANA_TRACING'' = ''true'' \<or> getenv h ''MQ_ENABLE_INSTANA_TRACING'' = ''1'' then
        Some (case enableInstanaTracingFiles (sl_workdir sl) h of
          (Some e, h1) \<Rightarrow> (Some e, h1)
        | (None, h1) \<Rightarrow> (None, say InfoL ''Instana Tracing is enabled'' h1))
      else
        (case disableInstanaTracing h of
           (Some e, h1) \<Rightarrow> Some (Some (''Error disabling Instana Tracing: '' @ e), h1)
         | (None, h1) \<Rightarrow>
             map_option (\<lambda>r. case r of
                 (Some e, h2) \<Rightarrow> (Some (''Error removing Instana Tracing exit from qm.ini: '' @ e), h2)
               | (None, h2) \<Rightarrow> (None, say InfoL ''Instana Tracing is disabled'' h2))
               (removeTracingExit ''MQInstanaTracingExit'' name h1)))"

definition st_tracing :: "server_libs \<Rightarrow> server \<Rightarrow> server flow" where
  "st_tracing sl s = checked_panic sl (configure_tracing sl (qmname s)) s"

definition empty_files :: "string list" where
  "empty_files =
     ''/run/15-tls.mqsc'' # map (\<lambda>f. path_join [''/run'', f])
       [''10-native-ha.ini'', ''10-native-ha-instance.ini'', ''10-native-ha-keystore.ini'']"

definition st_ini :: "server_libs \<Rightarrow> server \<Rightarrow> server flow" where
  "st_ini sl = checked sl (write_empty empty_files)"

definition mqweb_dir :: string where
  "mqweb_dir = ''/etc/mqm/web/installations/Installation1/servers/mqweb/''"

definition st_copy :: "server_libs \<Rightarrow> string \<Rightarrow> string \<Rightarrow> server \<Rightarrow> server flow" where
  "st_copy sl src dest = checked sl (CopyFile (sl_workdir sl) (mqweb_dir @ src) dest)"

definition st_web_files :: "server_libs \<Rightarrow> server \<Rightarrow> server flow" where
  "st_web_files sl s =
     run_stages
       [st_copy sl (if devFlag sl \<and> getenv (sv_host s) ''MQ_DEV'' = ''true'' then ''mqwebcontainer.xml.dev''
                    else ''mqwebcontainer.xml.default'') ''/run/mqwebcontainer.xml'',
        st_copy sl ''tls.xml.default'' ''/run/tls.xml'',
        st_copy sl ''configDropins/defaults/jvm.options.default'' ''/run/jvm.options''] s"

definition st_trace_on :: "server_libs \<Rightarrow> string \<Rightarrow> server \<Rightarrow> server flow" where
  "st_trace_on sl k s = only_if (switched_on k s) (checked sl startMQTrace) s"

definition st_trace_off :: "server_libs \<Rightarrow> string \<Rightarrow> server \<Rightarrow> server flow" where
  "st_trace_off sl k s = only_if (switched_on k s) (checked sl endMQTrace) s"

definition st_directories :: "server_libs \<Rightarrow> server \<Rightarrow> server flow" where
  "st_directories sl = checked sl (createDirStructure (logDiagnostics (sl_sys sl)))"

definition st_init_only :: "server_libs \<Rightarrow> server \<Rightarrow> server flow" where
  "st_init_only sl s = (if initFlag sl then Ret None s else Go s)"

subsection \<open>Keys, web server and native HA\<close>

definition st_version :: "server_libs \<Rightarrow> server \<Rightarrow> server flow" where
  "st_version sl s =
     (case ProcessFIPSType (sl_arch sl) (logVersionInfo (sl_image sl) (sv_host s)) of
        (t, h) \<Rightarrow> Go ((with_host h s)\<lparr>fipsType := t\<rparr>))"

definition st_keystores :: "server_libs \<Rightarrow> server \<Rightarrow> server flow" where
  "st_keystores sl s =
     (case ConfigureDefaultTLSKeystores (sl_crypto sl) (IsFIPSEnabled (fipsType s)) (sv_host s) of
        (Inl e, _, h) \<Rightarrow> fail sl e (with_host h s)
      | (Inr l, t, h) \<Rightarrow>
          Go ((with_host h s)\<lparr>keyLabel := l, defaultCmsKeystore := cmsStore t, defaultP12Truststore := p12Store t\<rparr>))"

definition st_tls :: "server_libs \<Rightarrow> server \<Rightarrow> server flow" where
  "st_tls sl s = checked sl (ConfigureTLS (sl_templates sl) (keyLabel s) (defaultCmsKeystore s) (devFlag sl)) s"

definition st_sources :: "server_libs \<Rightarrow> server \<Rightarrow> server flow" where
  "st_sources sl s =
     Go (if isLogConsoleSourceValid (sv_host s) then s
         else with_host (say InfoL (''One or more invalid value is provided for MQ_LOGGING_CONSOLE_SOURCE. Allowed values are '' @ CHR 0x27 # ''qmgr'' @ CHR 0x27 # '','' @ CHR 0x27 # ''web'' @ CHR 0x27 # '' and '' @ CHR 0x27 # ''mqsc'' @ CHR 0x27 # '' in csv format'') (sv_host s)) s)"

text \<open>A log that is mirrored from now on.\<close>

definition add_mirror ::
    "server_libs \<Rightarrow> (host \<Rightarrow> ((string, mirror_job) result \<times> host) option) \<Rightarrow> server \<Rightarrow> server flow" where
  "add_mirror sl f s =
     (case f (sv_host s) of
        None \<Rightarrow> Crash
      | Some (Inl e, h) \<Rightarrow> fail sl e (with_host h s)
      | Some (Inr j, h) \<Rightarrow> Go ((with_host h s)\<lparr>mirrors := mirrors s @ [j]\<rparr>))"

definition unchanged :: "(host \<Rightarrow> 'a) \<Rightarrow> host \<Rightarrow> ('a \<times> host) option" where
  "unchanged f h = Some (f h, h)"

definition if_source :: "string \<Rightarrow> (server \<Rightarrow> server flow) \<Rightarrow> server \<Rightarrow> server flow" where
  "if_source src f s =
     (case checkLogSourceForMirroring src (sv_host s) of (yes, h) \<Rightarrow> only_if yes f (with_host h s))"

definition st_mirror_web :: "server_libs \<Rightarrow> server \<Rightarrow> server flow" where
  "st_mirror_web sl = if_source ''web'' (add_mirror sl (unchanged (mirrorWebServerLogs False)))"

definition st_web :: "server_libs \<Rightarrow> server \<Rightarrow> server flow" where
  "st_web sl s =
     (case postInit (sl_web sl) (sl_link_fault sl) (sl_web_files sl) (fipsType s) (keyLabel s) (defaultP12Truststore s)
             (sv_links s, sv_host s) of
        None \<Rightarrow> Crash
      | Some (Some e, _, lk, h) \<Rightarrow> fail sl e ((with_host h s)\<lparr>sv_links := lk\<rparr>)
      | Some (None, started, lk, h) \<Rightarrow> Go ((with_host h s)\<lparr>sv_links := lk, webStarted := started\<rparr>))"

definition ha_keystore :: "server_libs \<Rightarrow> bool \<Rightarrow> host \<Rightarrow> (string, string \<times> string) result \<times> host" where
  "ha_keystore sl fips h = (case ConfigureHATLSKeystore (sl_crypto sl) fips h of (r, _, h1) \<Rightarrow> (r, h1))"

definition st_native_ha :: "server_libs \<Rightarrow> server \<Rightarrow> server flow" where
  "st_native_ha sl s =
     only_if (getenv (sv_host s) ''MQ_NATIVE_HA'' = ''true'')
       (checked sl (ConfigureNativeHA (sl_generate sl) (sl_order sl) (ha_keystore sl (IsFIPSEnabled (fipsType s))) (fipsType s))) s"

definition st_fips :: "server_libs \<Rightarrow> server \<Rightarrow> server flow" where
  "st_fips sl s = Go (with_host (fips_PostInit (fipsType s) (sv_host s)) s)"

subsection \<open>The queue manager\<close>

text \<open>
  A probe socket that cannot be opened is only logged; the listeners of the sockets before it run on. The nodes at the paths
  of the sockets, and the permissions that a new socket gets, are parameters.
\<close>

definition st_probes :: "server_libs \<Rightarrow> server \<Rightarrow> server flow" where
  "st_probes sl s =
     Go (if isProbeLoggingEnabled s then
           (case Start (sl_sockets sl) (sl_created sl) (new_run (NewProbeLoggingSocket NewProbeState) (sl_nodes sl)) of
              (None, r) \<Rightarrow> s\<lparr>probes := Some r\<rparr>
            | (Some e, r) \<Rightarrow>
                (with_host (say ErrorL (''Probe logging socket initialization failed: '' @ e @ ''. Probe logging feature will not be available.'') (sv_host s)) s)
                  \<lparr>probes := Some r\<rparr>)
         else s)"

definition st_create :: "server_libs \<Rightarrow> server \<Rightarrow> server flow" where
  "st_create sl s =
     (case createQueueManager (sl_atoi_error sl) (qmname s) (devFlag sl) (sv_host s) of
        None \<Rightarrow> Crash
      | Some (Inl e, h) \<Rightarrow> fail sl e (with_host h s)
      | Some (Inr new, h) \<Rightarrow> Go ((with_host h s)\<lparr>newQM := new\<rparr>))"

definition st_mirror_qmgr :: "server_libs \<Rightarrow> server \<Rightarrow> server flow" where
  "st_mirror_qmgr sl s =
     if_source ''qmgr''
       (run_stages [add_mirror sl (unchanged mirrorSystemErrorLogs),
                    add_mirror sl (mirrorQueueManagerErrorLogs (qmname s) (newQM s))]) s"

definition st_mirror_auth :: "server_libs \<Rightarrow> server \<Rightarrow> server flow" where
  "st_mirror_auth sl s =
     only_if (devFlag sl \<and> IsEnabled (sv_host s)) (add_mirror sl (unchanged (mirrorMQSimpleAuthLogs (newQM s)))) s"

definition st_level :: "server_libs \<Rightarrow> server \<Rightarrow> server flow" where
  "st_level sl = checked sl updateCommandLevel"

definition st_components :: "server_libs \<Rightarrow> server \<Rightarrow> server flow" where
  "st_components sl s =
     only_if (devFlag sl \<and> IsEnabled (sv_host s)) (checked_panic sl (updateQMini (sl_bool_error sl) (qmname s))) s"

definition st_start :: "server_libs \<Rightarrow> server \<Rightarrow> server flow" where
  "st_start sl s = checked sl (startQueueManager (sl_rlimit sl) (qmname s)) s"

definition st_mirror_mqsc :: "server_libs \<Rightarrow> server \<Rightarrow> server flow" where
  "st_mirror_mqsc sl s = if_source ''mqsc'' (add_mirror sl (mirrorMQSCLogs (qmname s))) s"

definition st_metrics :: "server_libs \<Rightarrow> server \<Rightarrow> server flow" where
  "st_metrics sl s =
     Go (if switched_on ''MQ_ENABLE_METRICS'' s then s\<lparr>metricsStarted := True\<rparr>
         else with_host (say InfoL ''Metrics are disabled'' (sv_host s)) s)"

text \<open>The two requests to the signal handler, the end of the start-up, and only then the mark of readiness.\<close>

definition st_complete :: "server_libs \<Rightarrow> server \<Rightarrow> server flow" where
  "st_complete sl s =
     Go (s\<lparr>controls := controls s @ [startReaping, reapNow], startupMarkedComplete := True, startupCtxDone := True\<rparr>)"

definition st_ready :: "server_libs \<Rightarrow> server \<Rightarrow> server flow" where
  "st_ready sl = checked sl (\<lambda>h. case Set h of (e, h1) \<Rightarrow> (map_option err_text e, h1))"

section \<open>The program\<close>

definition early_stages :: "server_libs \<Rightarrow> (server \<Rightarrow> server flow) list" where
  "early_stages sl =
     [st_limit sl, st_logger sl, st_info sl, st_single sl, st_name sl, st_clear sl, st_license sl, st_handler sl]"

definition volume_stages :: "server_libs \<Rightarrow> (server \<Rightarrow> server flow) list" where
  "volume_stages sl =
     [st_details sl, st_volume sl ''/mnt/mqm/data'', st_volume sl ''/mnt/mqm/scratch'', st_volume sl ''/mnt/mqm/tmp'',
      st_volume sl ''/mnt/mqm-log/log'', st_volume sl ''/mnt/mqm-data/qmgrs'', st_clean sl ''/run/scratch'', st_clean sl ''/run/mqm'',
      st_clean_tmp sl, st_scratch sl, st_volume sl ''/run/scratch/runmqserver'', st_volume sl ''/run/mqm'',
      st_volume sl ''/run/MQInstanaTracing'', st_tracing sl, st_ini sl, st_web_files sl,
      st_trace_on sl ''MQ_ENABLE_TRACE_CRTMQDIR'', st_directories sl, st_trace_off sl ''MQ_ENABLE_TRACE_CRTMQDIR'', st_init_only sl]"

definition key_stages :: "server_libs \<Rightarrow> (server \<Rightarrow> server flow) list" where
  "key_stages sl = [st_version sl, st_keystores sl, st_tls sl, st_sources sl]"

definition web_stages :: "server_libs \<Rightarrow> (server \<Rightarrow> server flow) list" where
  "web_stages sl = [st_mirror_web sl, st_web sl, st_native_ha sl, st_fips sl]"

definition qmgr_stages :: "server_libs \<Rightarrow> (server \<Rightarrow> server flow) list" where
  "qmgr_stages sl =
     [st_trace_on sl ''MQ_ENABLE_TRACE_CRTMQM'', st_probes sl, st_create sl, st_trace_off sl ''MQ_ENABLE_TRACE_CRTMQM'',
      st_mirror_qmgr sl, st_mirror_auth sl, st_level sl, st_trace_on sl ''MQ_ENABLE_TRACE_STRMQM'', st_components sl, st_start sl,
      st_mirror_mqsc sl, st_trace_off sl ''MQ_ENABLE_TRACE_STRMQM'', st_metrics sl]"

text \<open>The deferred calls of a return, in the order in which they run; the second needs the group of mirrors.\<close>

definition release_startup :: "server \<Rightarrow> server" where
  "release_startup s = (if handlerStarted s \<and> \<not> startupMarkedComplete s then s\<lparr>startupCtxDone := True\<rparr> else s)"

definition end_mirrors :: "server \<Rightarrow> server" where
  "end_mirrors s =
     (with_host (say DebugL ''Waiting for log mirroring to complete'' (say DebugL ''Cancel log mirroring'' (sv_host s))) s)
       \<lparr>mirrorsWaited := True\<rparr>"

definition deferred :: "(server \<Rightarrow> server) \<Rightarrow> server flow \<Rightarrow> server flow" where
  "deferred f r = (case r of Ret e s \<Rightarrow> Ret e (f s) | _ \<Rightarrow> r)"

text \<open>
  The program up to the wait for the signal handler, which is \<open>Go\<close>, with its deferred calls where it returns before that.
\<close>

definition server_startup :: "server_libs \<Rightarrow> server \<Rightarrow> server flow" where
  "server_startup sl s =
     deferred release_startup
       (case run_stages (early_stages sl @ volume_stages sl @ key_stages sl) s of
          Go s1 \<Rightarrow> deferred end_mirrors (run_stages (web_stages sl @ qmgr_stages sl @ [st_complete sl, st_ready sl]) s1)
        | r \<Rightarrow> r)"

text \<open>
  After the wait the context of the probe listeners is cancelled and \<open>Wait\<close> is called; \<open>served\<close> is what the listeners have
  become by then, and the program goes on only when all have returned.
\<close>

definition end_probes :: "(probe_run \<Rightarrow> probe_run) \<Rightarrow> server \<Rightarrow> server option" where
  "end_probes served s =
     (if isProbeLoggingEnabled s then
        (case probes s of
           None \<Rightarrow> None
         | Some r \<Rightarrow> let r1 = served r in if Wait_returns r1 then Some (s\<lparr>probes := Some r1\<rparr>) else None)
      else Some s)"

text \<open>The whole program, for any change of the host while it waits; no result is a program that does not end.\<close>

definition server_doMain ::
    "server_libs \<Rightarrow> (host \<Rightarrow> host) \<Rightarrow> (probe_run \<Rightarrow> probe_run) \<Rightarrow> server \<Rightarrow> server flow option" where
  "server_doMain sl meanwhile served s =
     (case server_startup sl s of
        Go s1 \<Rightarrow>
          map_option (\<lambda>s2. deferred (release_startup \<circ> end_mirrors) (Ret None s2))
            (end_probes served (with_host (meanwhile (sv_host s1)) s1))
      | r \<Rightarrow> Some r)"

text \<open>The exit code of the process; a panic gives 2.\<close>

definition server_main ::
    "server_libs \<Rightarrow> (host \<Rightarrow> host) \<Rightarrow> (probe_run \<Rightarrow> probe_run) \<Rightarrow> server \<Rightarrow> int option" where
  "server_main sl meanwhile served s =
     map_option (\<lambda>r. case r of Ret (Some e) _ \<Rightarrow> 1 | Ret None _ \<Rightarrow> 0 | _ \<Rightarrow> 2) (server_doMain sl meanwhile served s)"

end
