(* ===== verification/Startup.thy ===== *)
theory Startup
  imports Server
begin

text \<open>
  What the stages of the server keep: the mark of readiness, once it is cleared, is set by the last stage only. A step
  of each component keeps the mark absent, because none of the files it writes is the mark.
\<close>

named_theorems unmarked_steps

definition unmarked :: "host \<Rightarrow> bool" where
  "unmarked h \<longleftrightarrow> files h readyFile = None"

section \<open>Operations on files\<close>

lemma unmarked_say [simp]: "unmarked (say l m h) = unmarked h"
  by (simp add: unmarked_def)

lemma unmarked_run [unmarked_steps]: "run_cmd a h = (r, h') \<Longrightarrow> unmarked h \<Longrightarrow> unmarked h'"
  by (auto simp: run_cmd_def unmarked_def)

lemma unmarked_write: "os_write p c h = (r, h') \<Longrightarrow> p \<noteq> readyFile \<Longrightarrow> unmarked h \<Longrightarrow> unmarked h'"
  by (auto simp: os_write_def unmarked_def split: option.splits)

lemma unmarked_append: "os_append p c h = (r, h') \<Longrightarrow> p \<noteq> readyFile \<Longrightarrow> unmarked h \<Longrightarrow> unmarked h'"
  by (auto simp: os_append_def unmarked_def split: option.splits)

lemma unmarked_open: "os_open_create p h = (r, h') \<Longrightarrow> p \<noteq> readyFile \<Longrightarrow> unmarked h \<Longrightarrow> unmarked h'"
  by (auto simp: os_open_create_def unmarked_def split: option.splits if_splits)

lemma unmarked_remove [unmarked_steps]: "os_remove p h = (r, h') \<Longrightarrow> unmarked h \<Longrightarrow> unmarked h'"
  by (auto simp: os_remove_def unmarked_def split: option.splits if_splits)

lemma base_not_ready: "base_name p \<noteq> ''ready'' \<Longrightarrow> p \<noteq> readyFile"
proof -
  have "base_name readyFile = ''ready''" by code_simp
  then show "base_name p \<noteq> ''ready'' \<Longrightarrow> p \<noteq> readyFile" by auto
qed

lemma CleanPath_not_ready:
  assumes "CHR ''/'' \<notin> set e" "3 \<le> length e" "last e \<noteq> CHR ''y''"
  shows "CleanPath [d, x @ e] \<noteq> readyFile"
proof -
  obtain c where c: "base_name (x @ e) = c @ e" using base_name_suffix assms(1) by blast
  have "3 \<le> length (c @ e)" using assms(2) by simp
  then have "c @ e \<noteq> []" "c @ e \<noteq> ''.''" "c @ e \<noteq> ''..''" by (metis list.size(3) not_numeral_le_zero, force+)
  then have "plain_name (base_name (x @ e))" by (simp add: plain_name_def c)
  then have "base_name (CleanPath [d, x @ e]) = c @ e" using CleanPath_base c by metis
  moreover have "c @ e \<noteq> ''ready''"
  proof
    assume "c @ e = ''ready''"
    then have "last (c @ e) = CHR ''y''" by simp
    then show False using assms(2,3) by (cases e) auto
  qed
  ultimately show ?thesis using base_not_ready by metis
qed

lemma qm_ini_not_ready: "CleanPath [d, ''qm.ini''] \<noteq> readyFile"
  using CleanPath_not_ready [of "''qm.ini''" d "[]"] by simp

lemma unmarked_copy: "CopyFile wd src dest h = (r, h') \<Longrightarrow> dest \<noteq> readyFile \<Longrightarrow> unmarked h \<Longrightarrow> unmarked h'"
  using CopyFile_frame(3) [of wd src dest h r h' readyFile] by (simp add: unmarked_def)

lemma unmarked_template:
  "ProcessTemplateFile tlib src dest dat h = (r, h') \<Longrightarrow> dest \<noteq> readyFile \<Longrightarrow> unmarked h \<Longrightarrow> unmarked h'"
  using ProcessTemplateFile_frame(3) [of tlib src dest dat h r h' readyFile] by (simp add: unmarked_def)

lemma unmarked_write_empty: "write_empty ps h = (r, h') \<Longrightarrow> readyFile \<notin> set ps \<Longrightarrow> unmarked h \<Longrightarrow> unmarked h'"
  by (induction ps arbitrary: h) (auto dest: unmarked_write split: prod.splits option.splits)

lemma unmarked_logs [unmarked_steps]: "LogContainerDetails k h = Some (r, h') \<Longrightarrow> unmarked h \<Longrightarrow> unmarked h'"
  using container_details_only_log [of k h r h'] by (auto simp: only_logs_def unmarked_def)

lemma unmarked_diagnostics [simp]: "unmarked (logDiagnostics si h) = unmarked h"
  using logDiagnostics_adds [of h si] by (auto simp: adds_debug_ex unmarked_def)

lemma unmarked_termination: "unmarked h \<Longrightarrow> unmarked (logTermination (logDiagnostics si) c e h)"
  by (auto simp: logTermination_def Let_def readyFile_def dest: unmarked_write split: prod.splits option.splits)

section \<open>Key stores\<close>

lemma unmarked_remove_files [unmarked_steps]: "remove_files ps h = (r, h') \<Longrightarrow> unmarked h \<Longrightarrow> unmarked h'"
  by (induction ps arbitrary: h) (auto dest: unmarked_remove split: prod.splits option.splits)

lemma unmarked_ks_run_as [unmarked_steps]: "ks_run_as a b c h = (r, h') \<Longrightarrow> unmarked h \<Longrightarrow> unmarked h'"
  by (auto simp: ks_run_as_def dest!: unmarked_steps split: prod.splits option.splits)

lemma unmarked_ks_run [unmarked_steps]: "ks_run b c h = (r, h') \<Longrightarrow> unmarked h \<Longrightarrow> unmarked h'"
  by (auto simp: ks_run_def dest: unmarked_steps)

lemma unmarked_just_error [unmarked_steps]:
  "just_error (ks_run b c h) = (r, h') \<Longrightarrow> unmarked h \<Longrightarrow> unmarked h'"
  "just_error (ks_run_as a b c h) = (r, h') \<Longrightarrow> unmarked h \<Longrightarrow> unmarked h'"
  by (auto simp: just_error_def dest: unmarked_steps split: prod.splits sum.splits)

lemma unmarked_ks_Create [unmarked_steps]: "ks_Create ks h = (r, h') \<Longrightarrow> unmarked h \<Longrightarrow> unmarked h'"
  by (auto simp: ks_Create_def dest: unmarked_steps split: prod.splits option.splits io_error.splits)

lemma unmarked_ks [unmarked_steps]:
  "CreateStash ks h = (r, h') \<Longrightarrow> unmarked h \<Longrightarrow> unmarked h'"
  "ks_Import a b ks h = (r, h') \<Longrightarrow> unmarked h \<Longrightarrow> unmarked h'"
  "CreateSelfSignedCertificate a b c ks h = (r, h') \<Longrightarrow> unmarked h \<Longrightarrow> unmarked h'"
  "ks_AddNoLabel a ks h = (r, h') \<Longrightarrow> unmarked h \<Longrightarrow> unmarked h'"
  "ListAllCertificates ks h = (r2, h') \<Longrightarrow> unmarked h \<Longrightarrow> unmarked h'"
  "GetCertificateLabels ks h = (r3, h') \<Longrightarrow> unmarked h \<Longrightarrow> unmarked h'"
  "RenameCertificate a b ks h = (r, h') \<Longrightarrow> unmarked h \<Longrightarrow> unmarked h'"
  unfolding CreateStash_def ks_Import_def CreateSelfSignedCertificate_def ks_AddNoLabel_def ListAllCertificates_def
    GetCertificateLabels_def labels_of_def RenameCertificate_def
  by (auto dest: unmarked_steps split: prod.splits option.splits io_error.splits sum.splits if_splits)


text \<open>The same for the steps over the stores: the host is the last component.\<close>

lemma p12_not_ready: "CleanPath [d, n @ ''.p12''] \<noteq> readyFile"
  by (rule CleanPath_not_ready) simp_all

lemma unmarked_relabel [unmarked_steps]: "relabelCertificate l ks d h = (r, d', h') \<Longrightarrow> unmarked h \<Longrightarrow> unmarked h'"
  by (auto simp: relabelCertificate_def dest: unmarked_steps split: prod.splits option.splits sum.splits)

lemma unmarked_import_keys [unmarked_steps]:
  "import_keys cr ks kd sn k pk cas t h = (r, t', h') \<Longrightarrow> unmarked h \<Longrightarrow> unmarked h'"
  by (auto simp: import_keys_def Let_def dest: unmarked_steps unmarked_write [OF _ p12_not_ready]
      split: prod.splits option.splits sum.splits)

lemma unmarked_key_set: "unmarked (snd (snd s)) \<Longrightarrow> unmarked (snd (snd (snd (process_key_set cr ks kd kdir sn s))))"
  by (cases s) (auto simp: process_key_set_def Let_def dest: unmarked_steps split: prod.splits option.splits sum.splits)

lemma unmarked_run_steps:
  assumes "\<And>x s. I s \<Longrightarrow> I (snd (f x s))" "run_steps f xs s = (r, s')" "I s"
  shows "I s'"
  using run_steps_invar [of xs I f s] assms by (metis snd_conv)

lemma unmarked_processKeys [unmarked_steps]:
  assumes "processKeys cr ks kd kdir (t, h) = (r, t', h')" "unmarked h"
  shows "unmarked h'"
proof -
  have "run_steps (process_key_set cr ks kd kdir) xs ([], t, h) = (e, l, t2, h2) \<Longrightarrow> unmarked h2" for xs e l t2 h2
    using unmarked_run_steps [where I = "\<lambda>s. unmarked (snd (snd s))" and f = "process_key_set cr ks kd kdir"]
      unmarked_key_set assms(2) by fastforce
  then show ?thesis using assms
    by (auto simp: processKeys_def split: prod.splits option.splits)
qed

lemma unmarked_write_certs: "write_certs cr p i cs h = (r, h') \<Longrightarrow> p \<noteq> readyFile \<Longrightarrow> unmarked h \<Longrightarrow> unmarked h'"
  by (induction cs arbitrary: i h) (auto dest: unmarked_append split: prod.splits option.splits sum.splits)

lemma unmarked_fresh_pem: "fresh_pem cr p cs h = (r, h') \<Longrightarrow> p \<noteq> readyFile \<Longrightarrow> unmarked h \<Longrightarrow> unmarked h'"
  by (auto simp: fresh_pem_def writeCertificatesToFile_def dest: unmarked_remove unmarked_write unmarked_write_certs
      split: prod.splits option.splits if_splits)

lemma unmarked_relabel_all [unmarked_steps]: "relabel_all ks i cs h = (r, h') \<Longrightarrow> unmarked h \<Longrightarrow> unmarked h'"
  by (induction cs arbitrary: i h) (auto simp: Let_def dest: unmarked_steps split: prod.splits option.splits)

lemma pem_not_ready: "CleanPath [d, ''trust.pem''] \<noteq> readyFile" "CleanPath [d, ''cmsTrust.pem''] \<noteq> readyFile"
  using CleanPath_not_ready [of "''trust.pem''" d "[]"] CleanPath_not_ready [of "''cmsTrust.pem''" d "[]"] by simp_all

lemma unmarked_add [unmarked_steps]:
  "addCertificatesToTruststore cr ks d h = (r, h') \<Longrightarrow> unmarked h \<Longrightarrow> unmarked h'"
  "addCertificatesToCMSKeystore cr ks d h = (r, h') \<Longrightarrow> unmarked h \<Longrightarrow> unmarked h'"
  unfolding addCertificatesToTruststore_def addCertificatesToCMSKeystore_def Let_def
  by (auto dest: unmarked_steps unmarked_fresh_pem [OF _ pem_not_ready(1)] unmarked_fresh_pem [OF _ pem_not_ready(2)]
      simp del: relabel_all.simps split: prod.splits option.splits sum.splits list.splits)

lemma unmarked_trust: "unmarked (snd th) \<Longrightarrow> unmarked (snd (snd (processTrustCertificates cr d th)))"
  by (cases th) (auto simp: processTrustCertificates_def add_trusted_cms_def add_trusted_p12_def dest: unmarked_steps
      split: prod.splits option.splits if_splits)

lemma unmarked_key_dir: "unmarked (snd (snd s)) \<Longrightarrow> unmarked (snd (snd (snd (process_key_dir cr ks kd kdir s))))"
  by (cases s) (auto simp: process_key_dir_def dest: unmarked_steps split: prod.splits sum.splits)

lemma unmarked_create_store [unmarked_steps]: "create_store n ks d h = (r, d', h') \<Longrightarrow> unmarked h \<Longrightarrow> unmarked h'"
  by (auto simp: create_store_def dest: unmarked_steps split: prod.splits option.splits)

lemma unmarked_generate [unmarked_steps]: "generateAllKeystores cr f kd c p h = (r, t, h') \<Longrightarrow> unmarked h \<Longrightarrow> unmarked h'"
  by (auto simp: generateAllKeystores_def Let_def dest: unmarked_steps split: prod.splits option.splits if_splits)

lemma unmarked_configure [unmarked_steps]:
  assumes "configureTLSKeystores cr f kd ks ts p h = (r, t, h')" "unmarked h"
  shows "unmarked h'"
proof -
  obtain e t1 h1 where g: "generateAllKeystores cr f kd (list_ex (haveKeysAndCerts cr) (ks @ ts)) p h = (e, t1, h1)"
    by (metis prod.exhaust)
  have u1: "unmarked h1" using unmarked_generate [OF g assms(2)] .
  have key: "run_steps (process_key_dir cr k kd) ks ([], t1, h1) = (e2, ls, t2, h2) \<Longrightarrow> unmarked h2" for k e2 ls t2 h2
    using unmarked_run_steps [where I = "\<lambda>s. unmarked (snd (snd s))" and f = "process_key_dir cr k kd"] unmarked_key_dir u1
    by fastforce
  have trust: "run_steps (processTrustCertificates cr) ts (t2, h2) = (e3, t3, h3) \<Longrightarrow> unmarked h2 \<Longrightarrow> unmarked h3" for t2 h2 e3 t3 h3
    using unmarked_run_steps [where I = "\<lambda>s. unmarked (snd s)" and f = "processTrustCertificates cr"] unmarked_trust
    by fastforce
  show ?thesis
    using assms(1) u1 unfolding configureTLSKeystores_def g
    by (auto dest: key trust split: prod.splits option.splits)
qed

lemma unmarked_keystores [unmarked_steps]:
  "ConfigureDefaultTLSKeystores cr f h = (r, t, h') \<Longrightarrow> unmarked h \<Longrightarrow> unmarked h'"
  "ConfigureHATLSKeystore cr f h = (r2, t, h') \<Longrightarrow> unmarked h \<Longrightarrow> unmarked h'"
  unfolding ConfigureDefaultTLSKeystores_def ConfigureHATLSKeystore_def
  by (auto dest: unmarked_steps split: prod.splits sum.splits list.splits)


section \<open>The web server\<close>

text \<open>What is not code of the repository does not set the mark: the tool that makes the key file, the generator of ini files.\<close>

definition made_ok :: "(string list \<Rightarrow> host \<Rightarrow> host) \<Rightarrow> bool" where
  "made_ok made \<longleftrightarrow> (\<forall>a h. unmarked h \<longrightarrow> unmarked (made a h))"

definition tools_ok :: "server_libs \<Rightarrow> bool" where
  "tools_ok sl \<longleftrightarrow>
     made_ok (wl_made (sl_web sl)) \<and>
     (\<forall>p q c h. unmarked h \<longrightarrow> unmarked (snd (sl_generate sl p q c h)))"

lemma unmarked_encode [unmarked_steps]: "EncodeSecrets x b h = (r, h') \<Longrightarrow> unmarked h \<Longrightarrow> unmarked h'"
  using EncodeSecrets_frame(1) [of x b h r h'] by (simp add: unmarked_def)

lemma unmarked_make_key: "make_key_file made k h = (r, h') \<Longrightarrow> made_ok made \<Longrightarrow> unmarked h \<Longrightarrow> unmarked h'"
  by (auto simp: make_key_file_def executeSecurityUtility_def made_ok_def Let_def dest!: unmarked_run
      split: prod.splits option.splits io_error.splits)

lemma unmarked_key_file:
  "GenerateLibertyAESKeyFile made k h = (r, h') \<Longrightarrow> made_ok made \<Longrightarrow> unmarked h \<Longrightarrow> unmarked h'"
  unfolding GenerateLibertyAESKeyFile_def
  by (auto dest: unmarked_make_key unmarked_remove split: prod.splits option.splits io_error.splits if_splits)

lemma unmarked_web_keystore [unmarked_steps]:
  "ConfigureWebKeystore f d l h = Some (r, h') \<Longrightarrow> unmarked h \<Longrightarrow> unmarked h'"
  by (auto simp: ConfigureWebKeystore_def new_web_keystore_def Let_def dest: unmarked_steps
      split: prod.splits option.splits if_splits)

lemma unmarked_initial_key [unmarked_steps]: "web_initial_key cr h = (k, h') \<Longrightarrow> unmarked h \<Longrightarrow> unmarked h'"
  by (auto simp: web_initial_key_def split: sum.splits option.splits)

lemmas unmarked_tls_xml = unmarked_template [where dest = "''/run/tls.xml''", simplified readyFile_def, simplified]

lemma unmarked_web_tls:
  assumes c: "ConfigureWebTLS libs l k d h = (r, h')" and m: "made_ok (wl_made libs)" and u: "unmarked h"
  shows "unmarked h'"
proof -
  obtain key h1 where h1: "web_initial_key (wl_random libs) h = (key, h1)" by fastforce
  obtain e h2 where h2: "GenerateLibertyAESKeyFile (wl_made libs) key h1 = (e, h2)" by fastforce
  obtain x h3 where h3: "EncodeSecrets (ksd_Password d) True h2 = (x, h3)" by fastforce
  have u2: "unmarked h2" using unmarked_key_file [OF h2 m] unmarked_initial_key [OF h1 u] by blast
  have u3: "unmarked h3" using unmarked_encode [OF h3 u2] .
  show ?thesis
    using c u u2 u3 unfolding ConfigureWebTLS_def Let_def h1 prod.case h2 h3
    by (cases e; cases x) (auto dest: unmarked_tls_xml split: if_splits)
qed

lemma unmarked_marker: "unmarked h \<Longrightarrow> unmarked (writeDT472893MarkerFile refreshedFile h)"
  unfolding writeDT472893MarkerFile_def
  by (cases "os_write refreshedFile [] h") (auto simp: readyFile_def dest: unmarked_write split: option.splits)

lemma unmarked_ltpa [unmarked_steps]: "ltpaKeysFileFix h = (r, h') \<Longrightarrow> unmarked h \<Longrightarrow> unmarked h'"
  unfolding ltpaKeysFileFix_def
  by (auto dest: unmarked_remove intro!: unmarked_marker split: prod.splits option.splits bool.splits)

lemma unmarked_server_xml [unmarked_steps]: "copy_server_xml wd h = (r, h') \<Longrightarrow> unmarked h \<Longrightarrow> unmarked h'"
  by (auto simp: copy_server_xml_def log_error_def readyFile_def dest: unmarked_copy split: prod.splits option.splits)

text \<open>The links that the program makes lead to the configuration of the web server.\<close>

definition links_apart :: "links \<Rightarrow> bool" where
  "links_apart l \<longleftrightarrow> (\<forall>q. l q \<noteq> Some readyFile)"

lemma web_target_not_ready: "web_target p \<noteq> readyFile"
  by (simp add: web_target_def readyFile_def)

lemma web_source_not_ready: "web_source p \<Longrightarrow> p \<noteq> readyFile"
  by (auto simp: web_source_def readyFile_def)

lemma followed_not_ready: "links_apart l \<Longrightarrow> followed l (web_target p) \<noteq> readyFile"
  using web_target_not_ready by (auto simp: followed_def links_apart_def split: option.splits)

lemma unmarked_install:
  assumes "install_file lf wd p (l, h) = (r, l', h')" "web_source p" "links_apart l" "unmarked h"
  shows "links_apart l' \<and> unmarked h'"
  using assms followed_not_ready [OF assms(3), of p] web_source_not_ready [OF assms(2)]
  by (auto simp: install_file_def os_symlink_def links_apart_def dest: unmarked_copy split: option.splits prod.splits if_splits)

lemma unmarked_remove_at:
  assumes "remove_at p (l, h) = (r, l', h')" "links_apart l" "unmarked h"
  shows "links_apart l' \<and> unmarked h'"
  using assms by (auto simp: remove_at_def links_apart_def dest: unmarked_remove split: option.splits prod.splits if_splits)

lemma unmarked_walk_fn:
  assumes "web_walk_fn lf wd (p, d) (l, h) = (r, l', h')" "web_source p" "links_apart l" "unmarked h"
  shows "links_apart l' \<and> unmarked h'"
  using assms
  by (auto simp: web_walk_fn_def Let_def dest: unmarked_install unmarked_remove_at
      split: option.splits io_error.splits prod.splits if_splits)

definition web_files_ok :: "(string, string \<times> bool) result list \<Rightarrow> bool" where
  "web_files_ok vs \<longleftrightarrow> list_all (\<lambda>v. case v of Inl e \<Rightarrow> True | Inr (p, d) \<Rightarrow> web_source p) vs"

lemma unmarked_walk:
  "web_walk lf wd vs (l, h) = (r, l', h') \<Longrightarrow> web_files_ok vs \<Longrightarrow> links_apart l \<Longrightarrow> unmarked h \<Longrightarrow> links_apart l' \<and> unmarked h'"
proof (induction vs arbitrary: l h)
  case (Cons v vs)
  show ?case
  proof (cases v)
    case (Inl e)
    then show ?thesis using Cons.prems by simp
  next
    case (Inr i)
    obtain p d where v: "v = Inr (p, d)" using Inr by (cases i) simp
    obtain e l1 h1 where w: "web_walk_fn lf wd (p, d) (l, h) = (e, l1, h1)" by (metis prod.exhaust)
    have "web_source p" "web_files_ok vs" using Cons.prems(2) by (simp_all add: v web_files_ok_def)
    then show ?thesis
      using Cons.prems unmarked_walk_fn [OF w] Cons.IH [of l1 h1] by (cases e) (simp_all add: v w)
  qed
qed simp

lemma unmarked_postInit:
  assumes "postInit libs lf vs t k d (l, h) = Some (r, b, l', h')"
    and "made_ok (wl_made libs)" "web_files_ok vs" "links_apart l" "unmarked h"
  shows "links_apart l' \<and> unmarked h'"
proof -
  have inst: "install_web_files libs lf vs (l, h1) = (e, l2, h2) \<Longrightarrow> unmarked h1 \<Longrightarrow> links_apart l2 \<and> unmarked h2" for h1 e l2 h2
    using assms(3,4) by (auto simp: install_web_files_def dest: unmarked_walk split: option.splits io_error.splits)
  have conf: "links_apart l2 \<and> unmarked h2"
    if c: "configureWebServer libs lf vs f k d (l, h0) = Some (e, l2, h2)" and u: "unmarked h0" for f h0 e l2 h2
  proof -
    define fixed where "fixed = (if to_lower (getenv h0 ''AMQ_ENABLE_DT472893_REGENERATE_LTPA_KEYS'') = ''true''
            then ltpaKeysFileFix h0 else (None, h0))"
    obtain e1 h1 where h1: "fixed = (e1, h1)" by fastforce
    have u1: "unmarked h1" using h1 u by (auto simp: fixed_def dest: unmarked_ltpa split: if_splits)
    obtain e3 h3 where h3: "copy_server_xml (wl_workdir libs) h1 = (e3, h3)" by fastforce
    have u3: "unmarked h3" using unmarked_server_xml [OF h3 u1] .
    define ks where "ks = (if k \<noteq> [] \<or> getenv h3 ''MQ_GENERATE_CERTIFICATE_HOSTNAME'' \<noteq> []
                      then ConfigureWebKeystore f d k h3 else Some (Inr [], h3))"
    have u4: "ks = Some (x, h4) \<Longrightarrow> unmarked h4" for x h4
      using u3 by (auto simp: ks_def dest: unmarked_web_keystore split: if_splits)
    have u5: "ks = Some (x, h4) \<Longrightarrow> ConfigureWebTLS libs k y d h4 = (e5, h5) \<Longrightarrow> unmarked h5" for x h4 y e5 h5
      using u4 unmarked_web_tls [OF _ assms(2)] by blast
    show ?thesis
      using c assms(4) u1 u3
      unfolding configureWebServer_def Let_def fst_conv snd_conv fixed_def [symmetric] h1 prod.case h3 ks_def [symmetric]
      by (auto dest: u4 u5 inst split: option.splits prod.splits sum.splits)
  qed
  have fips: "configureFIPSWebServer tl h = (e, h2) \<Longrightarrow> unmarked h2" for tl e h2
    using assms(5) by (auto simp: configureFIPSWebServer_def readyFile_def dest: unmarked_template)
  show ?thesis
    using assms(1,4,5) by (auto simp: postInit_def dest: conf fips split: prod.splits option.splits if_splits)
qed


section \<open>Volumes and the queue manager\<close>

lemma unmarked_clean_walk: "clean_walk rm re sk es t h = (t', h') \<Longrightarrow> unmarked h \<Longrightarrow> unmarked h'"
  by (induction rm re sk es t h rule: clean_walk.induct) (auto simp: Let_def split: prod.splits if_splits)

lemma unmarked_best_effort [unmarked_steps]:
  "cleanVolumeBestEffort rm re p sk t h = Some (t', h') \<Longrightarrow> unmarked h \<Longrightarrow> unmarked h'"
  by (auto simp: cleanVolumeBestEffort_def dest: unmarked_clean_walk split: option.splits prod.splits)

lemma unmarked_drop [simp]: "unmarked h \<Longrightarrow> unmarked (drop_removed t t1 h)"
  by (simp add: drop_removed_def unmarked_def)

lemma unmarked_volume [unmarked_steps]: "createVolume p h = (r, h') \<Longrightarrow> unmarked h \<Longrightarrow> unmarked h'"
  by (auto simp: createVolume_def split: option.splits io_error.splits)

lemma unmarked_GetQueueManager [unmarked_steps]: "GetQueueManager n h = (q, h') \<Longrightarrow> unmarked h \<Longrightarrow> unmarked h'"
  by (auto simp: GetQueueManager_def Let_def dest: unmarked_run split: prod.splits option.splits if_splits)

lemma unmarked_tracing_exit [unmarked_steps]:
  "removeTracingExit x n h = Some (r, h') \<Longrightarrow> unmarked h \<Longrightarrow> unmarked h'"
  by (auto simp: removeTracingExit_def Let_def dest: unmarked_GetQueueManager unmarked_write [OF _ qm_ini_not_ready]
      split: prod.splits mqini_result.splits sum.splits bool.splits)

lemma unmarked_instana [unmarked_steps]:
  "enableInstanaTracingFiles wd h = (r, h') \<Longrightarrow> unmarked h \<Longrightarrow> unmarked h'"
  "disableInstanaTracing h = (r, h') \<Longrightarrow> unmarked h \<Longrightarrow> unmarked h'"
  by (auto simp: enableInstanaTracingFiles_def disableInstanaTracing_def readyFile_def dest!: unmarked_copy unmarked_write split: prod.splits)

lemma unmarked_tracing: "configure_tracing sl n h = Some (r, h') \<Longrightarrow> unmarked h \<Longrightarrow> unmarked h'"
  by (auto simp: configure_tracing_def dest: unmarked_steps split: prod.splits option.splits if_splits)

lemma unmarked_mq_trace [unmarked_steps]: "mq_trace a b c d h = (r, h') \<Longrightarrow> unmarked h \<Longrightarrow> unmarked h'"
  by (auto simp: mq_trace_def dest: unmarked_run split: prod.splits option.splits)

lemma unmarked_directories [unmarked_steps]:
  "createDirStructure (logDiagnostics si) h = (r, h') \<Longrightarrow> unmarked h \<Longrightarrow> unmarked h'"
  by (auto simp: createDirStructure_def Let_def dest!: unmarked_run split: prod.splits option.splits if_splits)

lemma unmarked_GetVersion [unmarked_steps]: "GetVersion h = (r, h') \<Longrightarrow> unmarked h \<Longrightarrow> unmarked h'"
  by (auto simp: GetVersion_def dest!: unmarked_run split: prod.splits option.splits)

lemma unmarked_Compare [unmarked_steps]: "Compare v h = (r, h') \<Longrightarrow> unmarked h \<Longrightarrow> unmarked h'"
  by (auto simp: Compare_def dest: unmarked_GetVersion split: prod.splits sum.splits option.splits)

lemma unmarked_version: "unmarked h \<Longrightarrow> unmarked (logVersionInfo i h)"
  unfolding logVersionInfo_def logMQVersion_def
  by (auto simp: Let_def dest!: unmarked_run unmarked_GetVersion split: prod.splits option.splits sum.splits)

lemma unmarked_fips [unmarked_steps]: "ProcessFIPSType a h = (t, h') \<Longrightarrow> unmarked h \<Longrightarrow> unmarked h'"
  by (auto simp: ProcessFIPSType_def override_fips_def dest!: unmarked_run split: prod.splits option.splits if_splits)

lemma unmarked_tls [unmarked_steps]: "ConfigureTLS tlib l d b h = (r, h') \<Longrightarrow> unmarked h \<Longrightarrow> unmarked h'"
proof -
  assume c: "ConfigureTLS tlib l d b h = (r, h')" and u: "unmarked h"
  obtain dat h1 where d: "tls_template_data l (ksd_Keystore d) h = (dat, h1)" by fastforce
  then have "unmarked h1" using u
    by (auto simp: tls_template_data_def dest: unmarked_steps split: prod.splits option.splits if_splits)
  then show "unmarked h'" using c
    by (auto simp: ConfigureTLS_def d configureTLSDev_def readyFile_def dest!: unmarked_template split: prod.splits option.splits if_splits)
qed

lemma unmarked_pages [unmarked_steps]: "check_log_file_pages d h = (r, h') \<Longrightarrow> unmarked h \<Longrightarrow> unmarked h'"
  by (auto simp: check_log_file_pages_def Let_def split: sum.splits option.splits if_splits)

lemma unmarked_create_args [unmarked_steps]: "getCreateQueueManagerArgs f m n b h = (r, h') \<Longrightarrow> unmarked h \<Longrightarrow> unmarked h'"
  by (auto simp: getCreateQueueManagerArgs_def Let_def dest!: unmarked_Compare split: prod.splits sum.splits option.splits if_splits)

lemma unmarked_create [unmarked_steps]: "createQueueManager f n b h = Some (r, h') \<Longrightarrow> unmarked h \<Longrightarrow> unmarked h'"
  by (auto simp: createQueueManager_def Let_def dest!: unmarked_steps split: option.splits sum.splits prod.splits if_splits)

lemma unmarked_level [unmarked_steps]: "updateCommandLevel h = (r, h') \<Longrightarrow> unmarked h \<Longrightarrow> unmarked h'"
  by (auto simp: updateCommandLevel_def dest!: unmarked_steps split: option.splits prod.splits if_splits)

lemma unmarked_components [unmarked_steps]: "updateQMini f n h = Some (r, h') \<Longrightarrow> unmarked h \<Longrightarrow> unmarked h'"
  by (auto simp: updateQMini_def Let_def dest!: unmarked_write [OF _ qm_ini_not_ready]
      split: option.splits sum.splits prod.splits if_splits bool.splits)

lemma unmarked_start [unmarked_steps]: "startQueueManager l n h = (r, h') \<Longrightarrow> unmarked h \<Longrightarrow> unmarked h'"
  by (auto simp: startQueueManager_def raise_file_limit_def dest!: unmarked_steps split: option.splits prod.splits if_splits)

lemma unmarked_generate_all:
  assumes "\<forall>p q c h. unmarked h \<longrightarrow> unmarked (snd (gen p q c h))"
  shows "generate_all gen c fs h = (r, h') \<Longrightarrow> unmarked h \<Longrightarrow> unmarked h'"
proof (induction fs arbitrary: h)
  case (Cons f fs)
  obtain p q where f: "f = (p, q)" by fastforce
  obtain e h1 where g: "gen q p c h = (e, h1)" by fastforce
  then have "unmarked h1" using assms Cons.prems(2) by (metis snd_conv)
  then show ?case using Cons.prems Cons.IH [of h1] by (cases e) (simp_all add: f g)
qed simp

lemma unmarked_native_ha:
  assumes "\<forall>p q c h. unmarked h \<longrightarrow> unmarked (snd (gen p q c h))"
    and "ConfigureNativeHA gen ord (ha_keystore sl f) t h = (r, h')" "unmarked h"
  shows "unmarked h'"
proof -
  have "ha_keystore sl f h = (x, h1) \<Longrightarrow> unmarked h1" for x h1
    using assms(3) by (auto simp: ha_keystore_def dest: unmarked_steps split: prod.splits)
  then show ?thesis using assms(2,3)
    by (auto simp: ConfigureNativeHA_def Let_def loadConfigAndGenerate_def dest!: unmarked_generate_all [OF assms(1)]
        split: prod.splits sum.splits if_splits)
qed


section \<open>Stages that keep an invariant\<close>

text \<open>
  The stages after the mark was cleared, up to the last two, keep it absent; they do not end the start-up nor send
  requests to the signal handler, which has been started.
\<close>

definition holds :: "(server \<Rightarrow> bool) \<Rightarrow> server flow \<Rightarrow> bool" where
  "holds I r \<longleftrightarrow> (case r of Go s \<Rightarrow> I s | Ret e s \<Rightarrow> I s | Crash \<Rightarrow> True)"

definition keeps :: "(server \<Rightarrow> bool) \<Rightarrow> (server \<Rightarrow> server flow) \<Rightarrow> bool" where
  "keeps I f \<longleftrightarrow> (\<forall>s. I s \<longrightarrow> holds I (f s))"

lemma keepsI: "(\<And>s. I s \<Longrightarrow> holds I (f s)) \<Longrightarrow> keeps I f"
  by (simp add: keeps_def)

lemma keepsD: "keeps I f \<Longrightarrow> I s \<Longrightarrow> holds I (f s)"
  by (simp add: keeps_def)

lemma holds_simps [simp]:
  "holds I (Go s) = I s" "holds I (Ret e s) = I s" "holds I Crash"
  by (simp_all add: holds_def)

lemma keeps_run_stages: "list_all (keeps I) fs \<Longrightarrow> keeps I (run_stages fs)"
proof (induction fs)
  case (Cons f fs)
  show ?case
  proof (rule keepsI)
    fix s assume "I s"
    then have h: "holds I (f s)" using Cons.prems by (simp add: keepsD)
    show "holds I (run_stages (f # fs) s)"
      using h Cons by (cases "f s") (auto dest: keepsD)
  qed
qed (simp add: keeps_def)

lemma run_stages_append: "run_stages (fs @ gs) s = (case run_stages fs s of Go s1 \<Rightarrow> run_stages gs s1 | r \<Rightarrow> r)"
  by (induction fs arbitrary: s) (auto split: flow.splits)

lemma keeps_only_if: "keeps I f \<Longrightarrow> keeps I (only_if b f)"
  by (simp add: keeps_def only_if_def)

lemma holds_only_if: "I s \<Longrightarrow> keeps I f \<Longrightarrow> holds I (only_if b f s)"
  by (simp add: keeps_def only_if_def)

definition waiting :: "server \<Rightarrow> bool" where
  "waiting s \<longleftrightarrow> unmarked (sv_host s) \<and> links_apart (sv_links s) \<and> \<not> startupMarkedComplete s \<and> controls s = [] \<and> handlerStarted s"

lemma waiting_host: "waiting s \<Longrightarrow> unmarked h \<Longrightarrow> waiting (with_host h s)"
  by (simp add: waiting_def with_host_def)

lemma waiting_probes [simp]: "waiting (s\<lparr>probes := p\<rparr>) = waiting s"
  by (simp add: waiting_def)

lemma waiting_unmarked: "waiting s \<Longrightarrow> unmarked (sv_host s)"
  by (simp add: waiting_def)

lemma waiting_fail: "waiting s \<Longrightarrow> holds waiting (fail sl e s)"
  by (simp add: fail_def waiting_host waiting_unmarked unmarked_termination)

lemma sv_with_host [simp]: "sv_host (with_host h s) = h" "sv_links (with_host h s) = sv_links s"
  by (simp_all add: with_host_def)

lemma waiting_fail_host: "waiting s \<Longrightarrow> unmarked h \<Longrightarrow> holds waiting (fail sl e (with_host h s))"
  by (simp add: waiting_fail waiting_host)

lemma waiting_checked:
  assumes "waiting s" "\<And>r h'. f (sv_host s) = (r, h') \<Longrightarrow> unmarked h'"
  shows "holds waiting (checked sl f s)"
  using assms by (auto simp: checked_def waiting_host waiting_fail_host split: prod.splits option.splits)

lemma waiting_checked_panic:
  assumes "waiting s" "\<And>r h'. f (sv_host s) = Some (r, h') \<Longrightarrow> unmarked h'"
  shows "holds waiting (checked_panic sl f s)"
  using assms by (auto simp: checked_panic_def intro: waiting_checked split: option.splits)

lemma waiting_source:
  assumes "keeps waiting f"
  shows "keeps waiting (if_source src f)"
proof (rule keepsI)
  fix s assume w: "waiting s"
  obtain y h where c: "checkLogSourceForMirroring src (sv_host s) = (y, h)" by fastforce
  then have "unmarked h" using waiting_unmarked [OF w]
    by (auto simp: checkLogSourceForMirroring_def Let_def split: prod.splits if_splits)
  then show "holds waiting (if_source src f s)"
    using w assms by (simp add: if_source_def c holds_only_if waiting_host)
qed

lemma waiting_mirror:
  assumes "\<And>h r h'. f h = Some (r, h') \<Longrightarrow> unmarked h \<Longrightarrow> unmarked h'"
  shows "keeps waiting (add_mirror sl f)"
proof (rule keepsI)
  fix s assume w: "waiting s"
  have u: "f (sv_host s) = Some (r, h') \<Longrightarrow> unmarked h'" for r h' using assms waiting_unmarked [OF w] by blast
  show "holds waiting (add_mirror sl f s)"
    using w by (auto simp: add_mirror_def waiting_fail_host u split: option.splits sum.splits)
      (use u in \<open>auto simp: waiting_def with_host_def\<close>)
qed

lemma waiting_volumes:
  "keeps waiting (st_details sl)" "keeps waiting (st_volume sl p)" "keeps waiting (st_clean sl p)"
  "keeps waiting (st_clean_tmp sl)" "keeps waiting (st_scratch sl)" "keeps waiting (st_tracing sl)"
  "keeps waiting (st_ini sl)" "keeps waiting (st_web_files sl)" "keeps waiting (st_trace_on sl k)"
  "keeps waiting (st_directories sl)" "keeps waiting (st_trace_off sl k)" "keeps waiting (st_init_only sl)"
proof -
  show "keeps waiting (st_details sl)"
    unfolding st_details_def by (intro keeps_only_if keepsI waiting_checked_panic) (auto dest: unmarked_logs waiting_unmarked)
  show "keeps waiting (st_volume sl p)"
    unfolding st_volume_def by (intro keepsI waiting_checked) (auto dest: unmarked_volume waiting_unmarked)
  have clean: "keeps waiting (st_clean sl p)" for p
  proof (rule keepsI)
    fix s assume w: "waiting s"
    have "waiting ((with_host (drop_removed (entries s) t (sv_host s)) s)\<lparr>entries := t\<rparr>)" for t
      using w by (simp add: waiting_def with_host_def)
    then show "holds waiting (st_clean sl p s)"
      by (auto simp: st_clean_def Let_def intro: waiting_fail split: prod.splits option.splits)
  qed
  then show "keeps waiting (st_clean sl p)" .
  show "keeps waiting (st_clean_tmp sl)"
    unfolding st_clean_tmp_def by (intro keepsI holds_only_if keeps_run_stages) (simp_all add: clean)
  show "keeps waiting (st_scratch sl)"
    by (rule keepsI) (auto simp: st_scratch_def waiting_def with_host_def dest: unmarked_best_effort split: option.splits prod.splits)
  show "keeps waiting (st_tracing sl)"
    unfolding st_tracing_def by (intro keepsI waiting_checked_panic) (auto dest: unmarked_tracing waiting_unmarked)
  have "readyFile \<notin> set empty_files" by code_simp
  then show "keeps waiting (st_ini sl)"
    unfolding st_ini_def by (intro keepsI waiting_checked) (auto dest: unmarked_write_empty waiting_unmarked)
  have "dest \<noteq> readyFile \<Longrightarrow> keeps waiting (st_copy sl src dest)" for src dest
    unfolding st_copy_def by (intro keepsI waiting_checked) (auto dest: unmarked_copy waiting_unmarked)
  then show "keeps waiting (st_web_files sl)"
    unfolding st_web_files_def by (intro keepsI keepsD [OF keeps_run_stages]) (simp_all add: readyFile_def)
  show "keeps waiting (st_trace_on sl k)" "keeps waiting (st_trace_off sl k)"
    unfolding st_trace_on_def st_trace_off_def startMQTrace_def endMQTrace_def
    by (intro keepsI holds_only_if waiting_checked; auto dest: unmarked_mq_trace waiting_unmarked)+
  show "keeps waiting (st_directories sl)"
    unfolding st_directories_def by (intro keepsI waiting_checked) (auto dest: unmarked_directories waiting_unmarked)
  show "keeps waiting (st_init_only sl)"
    by (rule keepsI) (simp add: st_init_only_def)
qed


lemma waiting_keys:
  "keeps waiting (st_version sl)" "keeps waiting (st_keystores sl)" "keeps waiting (st_tls sl)" "keeps waiting (st_sources sl)"
proof -
  show "keeps waiting (st_version sl)"
    by (rule keepsI) (auto simp: st_version_def waiting_def with_host_def dest: unmarked_version unmarked_fips split: prod.splits)
  show "keeps waiting (st_keystores sl)"
  proof (rule keepsI)
    fix s assume w: "waiting s"
    obtain r t h where c: "ConfigureDefaultTLSKeystores (sl_crypto sl) (IsFIPSEnabled (fipsType s)) (sv_host s) = (r, t, h)"
      by (metis prod.exhaust)
    then have "unmarked h" using unmarked_keystores(1) waiting_unmarked [OF w] by blast
    then show "holds waiting (st_keystores sl s)" using w
      by (cases r) (auto simp: st_keystores_def c waiting_fail_host, simp add: waiting_def with_host_def)
  qed
  show "keeps waiting (st_tls sl)"
    unfolding st_tls_def by (intro keepsI waiting_checked) (auto dest: unmarked_tls waiting_unmarked)
  show "keeps waiting (st_sources sl)"
    by (rule keepsI) (simp add: st_sources_def waiting_host waiting_unmarked)
qed

lemma waiting_web:
  assumes "tools_ok sl" "web_files_ok (sl_web_files sl)"
  shows "keeps waiting (st_mirror_web sl)" "keeps waiting (st_web sl)" "keeps waiting (st_native_ha sl)" "keeps waiting (st_fips sl)"
proof -
  show "keeps waiting (st_mirror_web sl)"
    unfolding st_mirror_web_def by (intro waiting_source waiting_mirror) (auto simp: unchanged_def)
  have gen: "\<forall>p q c h. unmarked h \<longrightarrow> unmarked (snd (sl_generate sl p q c h))" and made: "made_ok (wl_made (sl_web sl))"
    using assms(1) unfolding tools_ok_def by blast+
  show "keeps waiting (st_web sl)"
  proof (rule keepsI)
    fix s assume w: "waiting s"
    have p: "links_apart lk \<and> unmarked h"
      if "postInit (sl_web sl) (sl_link_fault sl) (sl_web_files sl) (fipsType s) (keyLabel s) (defaultP12Truststore s)
             (sv_links s, sv_host s) = Some (r, b, lk, h)" for r b lk h
      using unmarked_postInit [OF that made assms(2)] w by (simp add: waiting_def)
    have "holds waiting (fail sl e ((with_host h s)\<lparr>sv_links := lk\<rparr>))" "waiting ((with_host h s)\<lparr>sv_links := lk, webStarted := b\<rparr>)"
      if "links_apart lk" "unmarked h" for e lk h b
      using that w by (auto simp: waiting_def with_host_def intro: waiting_fail)
    then show "holds waiting (st_web sl s)"
      using p by (auto simp: st_web_def split: option.splits prod.splits)
  qed
  show "keeps waiting (st_native_ha sl)"
  proof (rule keepsI)
    fix s assume w: "waiting s"
    have "keeps waiting (checked sl (ConfigureNativeHA (sl_generate sl) (sl_order sl) (ha_keystore sl f) t))" for f t
      using unmarked_native_ha [OF gen] by (intro keepsI waiting_checked) (auto dest: waiting_unmarked)
    then show "holds waiting (st_native_ha sl s)"
      unfolding st_native_ha_def using w by (intro holds_only_if)
  qed
  show "keeps waiting (st_fips sl)"
    by (rule keepsI) (simp add: st_fips_def fips_PostInit_def waiting_host waiting_unmarked)
qed

lemma waiting_qmgr:
  "keeps waiting (st_probes sl)" "keeps waiting (st_create sl)" "keeps waiting (st_mirror_qmgr sl)"
  "keeps waiting (st_mirror_auth sl)" "keeps waiting (st_level sl)" "keeps waiting (st_components sl)" "keeps waiting (st_start sl)"
  "keeps waiting (st_mirror_mqsc sl)" "keeps waiting (st_metrics sl)"
proof -
  have qm: "with_qm n f h = Some (r, h') \<Longrightarrow> unmarked h \<Longrightarrow> unmarked h'" for n f h r h'
    by (auto simp: with_qm_def dest: unmarked_GetQueueManager split: prod.splits mqini_result.splits)
  show "keeps waiting (st_probes sl)"
    by (rule keepsI) (simp add: st_probes_def waiting_host waiting_unmarked split: option.splits prod.splits)
  show "keeps waiting (st_create sl)"
  proof (rule keepsI)
    fix s assume w: "waiting s"
    have u: "createQueueManager f n b (sv_host s) = Some (r, h) \<Longrightarrow> unmarked h" for f n b r h
      using unmarked_create waiting_unmarked [OF w] by blast
    have "unmarked h \<Longrightarrow> waiting ((with_host h s)\<lparr>newQM := b\<rparr>)" for h b using w by (simp add: waiting_def with_host_def)
    then show "holds waiting (st_create sl s)"
      using w by (auto simp: st_create_def dest: u intro: waiting_fail_host split: option.splits prod.splits sum.splits)
  qed
  show "keeps waiting (st_mirror_qmgr sl)"
  proof (rule keepsI)
    fix s assume w: "waiting s"
    have "keeps waiting (if_source ''qmgr''
       (run_stages [add_mirror sl (unchanged mirrorSystemErrorLogs), add_mirror sl (mirrorQueueManagerErrorLogs n new)]))" for n new
      by (intro waiting_source keeps_run_stages) (auto simp: unchanged_def mirrorQueueManagerErrorLogs_def intro!: waiting_mirror dest: qm)
    then show "holds waiting (st_mirror_qmgr sl s)" using w by (simp add: st_mirror_qmgr_def keepsD)
  qed
  show "keeps waiting (st_mirror_auth sl)"
    unfolding st_mirror_auth_def by (intro keepsI holds_only_if waiting_mirror) (auto simp: unchanged_def)
  show "keeps waiting (st_level sl)"
    unfolding st_level_def by (intro keepsI waiting_checked) (auto dest: unmarked_level waiting_unmarked)
  show "keeps waiting (st_components sl)"
    unfolding st_components_def
    by (intro keepsI holds_only_if waiting_checked_panic) (auto dest: unmarked_components waiting_unmarked)
  show "keeps waiting (st_start sl)"
    unfolding st_start_def by (intro keepsI waiting_checked) (auto dest: unmarked_start waiting_unmarked)
  show "keeps waiting (st_mirror_mqsc sl)"
    unfolding st_mirror_mqsc_def
    by (intro keepsI keepsD [OF waiting_source] waiting_mirror) (auto simp: mirrorMQSCLogs_def dest: qm)
  show "keeps waiting (st_metrics sl)"
    by (rule keepsI) (auto simp: st_metrics_def waiting_def with_host_def)
qed

lemma waiting_stages:
  assumes "tools_ok sl" "web_files_ok (sl_web_files sl)"
  shows "list_all (keeps waiting) (volume_stages sl @ key_stages sl @ web_stages sl @ qmgr_stages sl)"
  unfolding volume_stages_def key_stages_def web_stages_def qmgr_stages_def
  using waiting_web [OF assms] by (simp add: waiting_volumes waiting_keys waiting_qmgr)

lemma waiting_middle:
  assumes "tools_ok sl" "web_files_ok (sl_web_files sl)"
  shows "keeps waiting (run_stages (volume_stages sl @ key_stages sl))"
    "keeps waiting (run_stages (web_stages sl @ qmgr_stages sl))"
  using waiting_stages [OF assms] by (auto intro: keeps_run_stages)

section \<open>Before the mark is cleared\<close>

text \<open>The first stages leave the file of the mark as it is or remove it.\<close>

definition early :: "string option \<Rightarrow> server \<Rightarrow> bool" where
  "early m s \<longleftrightarrow> files (sv_host s) readyFile \<in> {None, m} \<and> links_apart (sv_links s) \<and> \<not> startupMarkedComplete s
     \<and> controls s = [] \<and> \<not> handlerStarted s"

lemma early_host: "early m s \<Longrightarrow> files h readyFile \<in> {None, files (sv_host s) readyFile} \<Longrightarrow> early m (with_host h s)"
  by (auto simp: early_def with_host_def)

lemma diagnostics_files [simp]: "files (logDiagnostics si h) = files h" "env (logDiagnostics si h) = env h"
  using logDiagnostics_adds [of h si] by (auto simp: adds_debug_ex)

lemma termination_mark: "files (logTermination (logDiagnostics si) c e h) readyFile = files h readyFile"
  by (auto simp: logTermination_def Let_def os_write_def readyFile_def split: option.splits prod.splits)


lemma early_fail: "early m s \<Longrightarrow> holds (early m) (fail sl e s)"
  by (simp add: fail_def early_host termination_mark)

lemma early_fail_host:
  "early m s \<Longrightarrow> files h readyFile \<in> {None, files (sv_host s) readyFile} \<Longrightarrow> holds (early m) (fail sl e (with_host h s))"
  by (simp add: early_fail early_host)

lemma version_files [simp]: "files (logVersionInfo i h) = files h"
  unfolding logVersionInfo_def logMQVersion_def
  by (auto simp: Let_def GetVersion_def run_cmd_def split: prod.splits option.splits sum.splits)

lemma single_files: "verifySingleProcess x h = (r, h') \<Longrightarrow> files h' = files h"
  by (auto simp: verifySingleProcess_def verifyOnlyOne_def run_cmd_def Let_def split: sum.splits option.splits if_splits prod.splits)

lemma Clear_mark:
  assumes "Clear h = (r, h')"
  shows "files h' readyFile \<in> {None, files h readyFile}" "r = None \<Longrightarrow> unmarked h'"
    "p \<notin> {readyFile, readyToSyncFile} \<Longrightarrow> files h' p = files h p"
proof -
  have c: "clearFile q h0 = (e, h1) \<Longrightarrow>
      files h1 = (if e = None then (files h0)(q := None) else files h0)" for q h0 e h1
    by (auto simp: clearFile_def fileExists_def os_stat_def os_remove_def fun_upd_idem
        split: sum.splits bool.splits option.splits io_error.splits if_splits)
  show "files h' readyFile \<in> {None, files h readyFile}" "r = None \<Longrightarrow> unmarked h'"
    "p \<notin> {readyFile, readyToSyncFile} \<Longrightarrow> files h' p = files h p"
    using assms unfolding Clear_def unmarked_def
    by (auto dest!: c split: prod.splits option.splits if_splits)
qed

lemma early_keeps:
  "keeps (early m) (st_limit sl)" "keeps (early m) (st_logger sl)" "keeps (early m) (st_info sl)"
  "keeps (early m) (st_single sl)" "keeps (early m) (st_name sl)" "keeps (early m) (st_license sl)"
proof -
  show "keeps (early m) (st_limit sl)" by (rule keepsI) (simp add: st_limit_def)
  show "keeps (early m) (st_logger sl)"
  proof (rule keepsI)
    fix s assume "early m s"
    then have "early m (s\<lparr>sv_registry := r, logger_set := True\<rparr>)"
      "early m (s\<lparr>sv_registry := r, logger_set := True, qmname := n, nameErr := b\<rparr>)" for r n b
      by (simp_all add: early_def)
    then show "holds (early m) (st_logger sl s)"
      by (auto simp: st_logger_def Let_def intro: early_fail split: prod.splits option.splits sum.splits)
  qed
  show "keeps (early m) (st_info sl)"
  proof (rule keepsI)
    fix s assume e: "early m s"
    have "LogContainerDetails k (logVersionInfo i (sv_host s)) = Some (r, h) \<Longrightarrow> files h = files (sv_host s)" for k i r h
      by (auto dest!: container_details_only_log simp: only_logs_def)
    then show "holds (early m) (st_info sl s)" using e
      by (auto simp: st_info_def intro!: early_host split: option.splits prod.splits)
  qed
  show "keeps (early m) (st_single sl)"
    by (rule keepsI) (auto simp: st_single_def dest!: single_files intro!: early_host split: prod.splits option.splits)
  show "keeps (early m) (st_name sl)"
    by (rule keepsI) (simp add: st_name_def early_host termination_mark)
  show "keeps (early m) (st_license sl)"
  proof (rule keepsI)
    fix s assume e: "early m s"
    obtain ok x h where c: "checkLicense (sv_host s) = ((ok, x), h)" by (metis prod.exhaust)
    have "files h = files (sv_host s)" using c by (auto simp: checkLicense_def split: sum.splits if_splits)
    then show "holds (early m) (st_license sl s)" using e
      by (auto simp: st_license_def c early_fail_host early_host split: option.splits bool.splits)
  qed
qed

lemma early_clear:
  assumes "early m s"
  shows "holds (early m) (st_clear sl s)" "st_clear sl s = Go s' \<Longrightarrow> early None s'"
proof -
  obtain e h where c: "Clear (sv_host s) = (e, h)" by fastforce
  show "holds (early m) (st_clear sl s)"
    using assms Clear_mark(1) [OF c] by (cases e) (simp_all add: st_clear_def checked_def c early_host early_fail_host)
  show "early None s'" if "st_clear sl s = Go s'"
    using that assms Clear_mark(2) [OF c]
    by (cases e) (auto simp: st_clear_def checked_def c early_def with_host_def fail_def unmarked_def)
qed

text \<open>What the early stages end with.\<close>

lemma early_result:
  assumes "early m s"
  shows "case run_stages (early_stages sl) s of Go s' \<Rightarrow> waiting s' | Ret e s' \<Rightarrow> early m s' | Crash \<Rightarrow> True"
proof -
  let ?a = "[st_limit sl, st_logger sl, st_info sl, st_single sl, st_name sl]"
  have st: "early_stages sl = ?a @ [st_clear sl, st_license sl, st_handler sl]"
    by (simp add: early_stages_def)
  have "keeps (early m) (run_stages ?a)" by (rule keeps_run_stages) (simp add: early_keeps)
  then have "holds (early m) (run_stages ?a s)" using assms by (rule keepsD)
  then have a: "run_stages ?a s = Crash \<or> (\<exists>e s'. run_stages ?a s = Ret e s' \<and> early m s') \<or> (\<exists>s'. run_stages ?a s = Go s' \<and> early m s')"
    by (cases "run_stages ?a s") auto
  have weak: "early None s' \<Longrightarrow> early m s'" for s' by (auto simp: early_def)
  have b: "case run_stages [st_clear sl, st_license sl, st_handler sl] s1 of Go s' \<Rightarrow> waiting s' | Ret e s' \<Rightarrow> early m s' | Crash \<Rightarrow> True"
    if s1: "early m s1" for s1
  proof (cases "st_clear sl s1")
    case (Go s2)
    then have s2: "early None s2" using early_clear(2) [OF s1] by blast
    have l: "holds (early None) (st_license sl s2)" using early_keeps(6) s2 by (rule keepsD)
    show ?thesis
    proof (cases "st_license sl s2")
      case g: (Go s3)
      then have s3: "early None s3" using l by simp
      obtain y h where c: "checkLogSourceForMirroring ''probes'' (sv_host s3) = (y, h)" by fastforce
      then have "files h = files (sv_host s3)"
        by (auto simp: checkLogSourceForMirroring_def Let_def split: prod.splits if_splits)
      then show ?thesis using Go g s3
        by (simp add: st_handler_def c waiting_def early_def with_host_def unmarked_def)
    qed (use Go l weak in auto)
  qed (use early_clear(1) [OF s1, of sl] in auto)
  show ?thesis
    unfolding st run_stages_append using a b by (elim disjE exE conjE) auto
qed


text \<open>However far the start-up has come, it is waiting: the mark is not there yet.\<close>

lemma waiting_part:
  assumes ok: "tools_ok sl" "web_files_ok (sl_web_files sl)" and s: "early m s"
  shows "case run_stages (early_stages sl @ take k (volume_stages sl @ key_stages sl @ web_stages sl @ qmgr_stages sl)) s of
      Go s' \<Rightarrow> waiting s' | Ret e s' \<Rightarrow> waiting s' \<or> early m s' | Crash \<Rightarrow> True"
proof -
  define fs where fs: "fs = take k (volume_stages sl @ key_stages sl @ web_stages sl @ qmgr_stages sl)"
  have "list_all (keeps waiting) fs"
    using waiting_stages [OF ok] unfolding fs list_all_iff by (blast dest: in_set_takeD)
  from keeps_run_stages [OF this] have w: "waiting s1 \<Longrightarrow> holds waiting (run_stages fs s1)" for s1
    by (rule keepsD)
  show ?thesis
  proof (cases "run_stages (early_stages sl) s")
    case (Go s1)
    then have "holds waiting (run_stages fs s1)" using early_result [OF s, of sl] w by simp
    with Go show ?thesis
      unfolding run_stages_append fs [symmetric] by (cases "run_stages fs s1") simp_all
  qed (use early_result [OF s, of sl] in \<open>simp_all add: run_stages_append\<close>)
qed

section \<open>The start-up as a whole\<close>

text \<open>What holds when the start-up ends, with the mark that was there before: \<open>Go\<close> is the wait for the stop signal.\<close>

definition started :: "server \<Rightarrow> bool" where
  "started s \<longleftrightarrow> files (sv_host s) readyFile = Some ''1'' \<and> startupMarkedComplete s \<and> startupCtxDone s
     \<and> controls s = [startReaping, reapNow]"

definition stopped :: "string option \<Rightarrow> server \<Rightarrow> bool" where
  "stopped m s \<longleftrightarrow> (if handlerStarted s then files (sv_host s) readyFile = None \<and> startupCtxDone s
     else files (sv_host s) readyFile \<in> {None, m})"

lemma last_stages:
  assumes "waiting s"
  shows "case run_stages [st_complete sl, st_ready sl] s of
      Go s' \<Rightarrow> started s' | Ret e s' \<Rightarrow> stopped m s' | Crash \<Rightarrow> False"
proof -
  let ?s1 = "s\<lparr>controls := controls s @ [startReaping, reapNow], startupMarkedComplete := True, startupCtxDone := True\<rparr>"
  have w: "files (sv_host s) readyFile = None" "controls s = []" "handlerStarted s"
    using assms by (simp_all add: waiting_def unmarked_def)
  show ?thesis
    using w by (cases "faults (sv_host s) (OpWrite readyFile)")
      (simp_all add: st_complete_def st_ready_def checked_def Set_def os_write_def fail_def started_def stopped_def with_host_def
        termination_mark)
qed

lemma stopped_end [simp]: "stopped m (end_mirrors s) = stopped m s"
  by (simp add: stopped_def end_mirrors_def with_host_def)

lemma release_stopped:
  "early m s \<Longrightarrow> stopped m (release_startup s)" "waiting s \<Longrightarrow> stopped m (release_startup s)"
  "stopped m s \<Longrightarrow> stopped m (release_startup s)"
  by (auto simp: stopped_def release_startup_def early_def waiting_def unmarked_def split: if_splits)

lemma waiting_end [simp]: "waiting (end_mirrors s) = waiting s"
  by (simp add: waiting_def end_mirrors_def with_host_def)

lemma startup_result:
  assumes ok: "tools_ok sl" "web_files_ok (sl_web_files sl)" and s: "early m s"
  shows "case server_startup sl s of Go s' \<Rightarrow> started s' | Ret e s' \<Rightarrow> stopped m s' | Crash \<Rightarrow> True"
proof -
  define A B where ab: "A = web_stages sl @ qmgr_stages sl" "B = [st_complete sl, st_ready sl]"
  define C where c: "C = volume_stages sl @ key_stages sl"
  note mid = waiting_middle [OF ok, folded ab c]
  note last = last_stages [of _ m sl, folded ab]
  have su: "server_startup sl s = deferred release_startup
       (case (case run_stages (early_stages sl) s of Go s1 \<Rightarrow> run_stages C s1 | r \<Rightarrow> r) of
          Go s1 \<Rightarrow> deferred end_mirrors (case run_stages A s1 of Go s2 \<Rightarrow> run_stages B s2 | r \<Rightarrow> r)
        | r \<Rightarrow> r)"
    unfolding server_startup_def ab c run_stages_append [symmetric] append_assoc by (rule refl)
  have late: "case deferred release_startup (deferred end_mirrors (case run_stages A s1 of Go s2 \<Rightarrow> run_stages B s2 | r \<Rightarrow> r)) of
      Go s' \<Rightarrow> started s' | Ret e s' \<Rightarrow> stopped m s' | Crash \<Rightarrow> True" if w: "waiting s1" for s1
  proof -
    have h: "holds waiting (run_stages A s1)" using mid(2) w by (rule keepsD)
    show ?thesis
    proof (cases "run_stages A s1")
      case (Go s2)
      then have "waiting s2" using h by simp
      from last [OF this] show ?thesis
        by (cases "run_stages B s2") (simp_all add: Go deferred_def release_stopped)
    qed (use h in \<open>simp_all add: deferred_def release_stopped\<close>)
  qed
  note e = early_result [OF s, of sl]
  show ?thesis
  proof (cases "run_stages (early_stages sl) s")
    case (Go s1)
    then have "waiting s1" using e by simp
    then have h: "holds waiting (run_stages C s1)" using mid(1) by (rule keepsD [rotated])
    then show ?thesis using late
      by (cases "run_stages C s1") (simp_all add: su Go deferred_def [of _ "Ret x y" for x y] deferred_def [of _ Crash] release_stopped)
  qed (use e in \<open>simp_all add: su deferred_def release_stopped\<close>)
qed



section \<open>The licence comes first\<close>

text \<open>What the stages before the licence is checked may have changed.\<close>

definition own_files :: "string list" where
  "own_files = [readyFile, readyToSyncFile, ''/run/termination-log'']"

definition untouched :: "host \<Rightarrow> entry list \<Rightarrow> server \<Rightarrow> bool" where
  "untouched h t s \<longleftrightarrow> env (sv_host s) = env h \<and> (\<forall>p. p \<notin> set own_files \<longrightarrow> files (sv_host s) p = files h p)
     \<and> entries s = t \<and> \<not> handlerStarted s \<and> \<not> nameErr s"

lemma untouched_host:
  "untouched h t s \<Longrightarrow> env h1 = env (sv_host s) \<Longrightarrow> (\<And>p. p \<notin> set own_files \<Longrightarrow> files h1 p = files (sv_host s) p)
     \<Longrightarrow> untouched h t (with_host h1 s)"
  by (simp add: untouched_def with_host_def)

lemma termination_untouched:
  "untouched h t s \<Longrightarrow> untouched h t (with_host (logTermination (logDiagnostics si) c e (sv_host s)) s)"
  by (rule untouched_host)
    (auto simp: logTermination_def Let_def os_write_def own_files_def split: option.splits prod.splits)

lemma version_env [simp]: "env (logVersionInfo i h) = env h"
  unfolding logVersionInfo_def logMQVersion_def
  by (auto simp: Let_def GetVersion_def run_cmd_def split: prod.splits option.splits sum.splits)

lemma name_without_host: "GetQueueManagerName h = Inl e \<Longrightarrow> hostname h = None"
  by (auto simp: GetQueueManagerName_def split: option.splits if_splits list.splits)

lemma logger_needs_host: "hostname h = None \<longleftrightarrow> fst (configureLogger ll n h r) = None"
  by (auto simp: configureLogger_def NewLogger_def Let_def split: option.splits prod.splits)

lemma logger_ok: "configureLogger ll n h r = (Some l, x, r1) \<Longrightarrow> \<exists>mf. x = Inr mf"
  using logger_needs_host [of h ll n r]
  by (auto simp: configureLogger_def getLogFormat_def Let_def split: prod.splits sum.splits if_splits)

lemma untouched_early:
  "keeps (untouched h t) (st_limit sl)" "keeps (untouched h t) (st_logger sl)" "keeps (untouched h t) (st_info sl)"
  "keeps (untouched h t) (st_single sl)" "keeps (untouched h t) (st_name sl)" "keeps (untouched h t) (st_clear sl)"
proof -
  show "keeps (untouched h t) (st_limit sl)" by (rule keepsI) (simp add: st_limit_def)
  show "keeps (untouched h t) (st_logger sl)"
  proof (rule keepsI)
    fix s assume u: "untouched h t s"
    obtain n b where n: "(case GetQueueManagerName (sv_host s) of Inl _ \<Rightarrow> ([], True) | Inr n \<Rightarrow> (n, False)) = (n, b)" by fastforce
    obtain l x r where c: "configureLogger (sl_log sl) n (sv_host s) (sv_registry s) = (l, x, r)" by (metis prod.exhaust)
    show "holds (untouched h t) (st_logger sl s)"
    proof (cases l)
      case None
      then show ?thesis by (simp add: st_logger_def n c)
    next
      case (Some k)
      then have "hostname (sv_host s) \<noteq> None" using logger_needs_host c by (metis fst_conv option.distinct(1))
      then have "\<not> b" using n name_without_host by (auto split: sum.splits)
      moreover obtain mf where "x = Inr mf" using logger_ok c Some by blast
      ultimately show ?thesis using u Some by (simp add: st_logger_def n c untouched_def)
    qed
  qed
  show "keeps (untouched h t) (st_info sl)"
    by (rule keepsI)
      (auto simp: st_info_def only_logs_def dest!: container_details_only_log intro!: untouched_host split: option.splits prod.splits)
  show "keeps (untouched h t) (st_single sl)"
    by (rule keepsI)
      (auto simp: st_single_def verifySingleProcess_def verifyOnlyOne_def run_cmd_def Let_def intro!: untouched_host
        split: sum.splits option.splits if_splits prod.splits)
  show "keeps (untouched h t) (st_name sl)"
    by (rule keepsI) (simp add: st_name_def termination_untouched)
  show "keeps (untouched h t) (st_clear sl)"
  proof (rule keepsI)
    fix s assume u: "untouched h t s"
    obtain e h1 where c: "Clear (sv_host s) = (e, h1)" by fastforce
    have "env h1 = env (sv_host s)"
      using c by (auto simp: Clear_def clearFile_def os_remove_def split: prod.splits option.splits sum.splits bool.splits if_splits)
    then have "untouched h t (with_host h1 s)"
      using u Clear_mark(3) [OF c] by (intro untouched_host) (auto simp: own_files_def)
    then show "holds (untouched h t) (st_clear sl s)"
      using termination_untouched [of h t "with_host h1 s"]
      by (cases e) (simp_all add: st_clear_def checked_def c fail_def)
  qed
qed


lemma unlicensed:
  assumes u: "untouched h t s" and l: "env h ''LICENSE'' \<noteq> Some ''accept''"
  shows "\<exists>e s'. st_license sl s = Ret (Some e) s' \<and> untouched h t s'"
proof -
  have env: "env (sv_host s) = env h" using u by (simp add: untouched_def)
  obtain ok x h1 where c: "checkLicense (sv_host s) = ((ok, x), h1)" by (metis prod.exhaust)
  then have "files h1 = files (sv_host s) \<and> env h1 = env (sv_host s) \<and> \<not> ok"
    using l env by (auto simp: checkLicense_def split: sum.splits if_splits)
  then have n: "untouched h t (with_host h1 s)" "\<not> ok" using u by (auto intro: untouched_host)
  show ?thesis
    using termination_untouched [OF n(1)] n(2)
    by (cases x) (simp_all add: st_license_def c fail_def)
qed

lemma run_stages_returns:
  assumes "run_stages fs s = Ret r s'" "I s" "list_all (keeps I) fs"
  shows "\<exists>f s1. f \<in> set fs \<and> I s1 \<and> f s1 = Ret r s'"
  using assms
proof (induction fs arbitrary: s)
  case (Cons f fs)
  have k: "holds I (f s)" using Cons.prems by (simp add: keepsD)
  show ?case
  proof (cases "f s")
    case (Go s1)
    then show ?thesis using Cons k by fastforce
  qed (use Cons.prems in auto)
qed simp

text \<open>Before the licence is looked at, the program only ends without an error when it was asked for information.\<close>

definition first_stages :: "server_libs \<Rightarrow> (server \<Rightarrow> server flow) list" where
  "first_stages sl = [st_limit sl, st_logger sl, st_info sl, st_single sl, st_name sl, st_clear sl]"

lemma first_stages_return:
  assumes r: "run_stages (first_stages sl) (server_start h t lk) = Ret None s'"
  shows "infoFlag sl"
proof (rule ccontr)
  assume i: "\<not> infoFlag sl"
  have "untouched h t (server_start h t lk)" "list_all (keeps (untouched h t)) (first_stages sl)"
    by (simp_all add: untouched_def server_start_def first_stages_def untouched_early)
  from run_stages_returns [OF r this] obtain f s1
    where f: "f \<in> set (first_stages sl)" "untouched h t s1" "f s1 = Ret None s'" by blast
  have "\<not> nameErr s1" using f(2) by (simp add: untouched_def)
  then have "st_name sl s1 = Go s1" by (simp add: st_name_def)
  moreover have "st_limit sl s1 \<noteq> Ret None s'" "st_logger sl s1 \<noteq> Ret None s'" "st_info sl s1 \<noteq> Ret None s'"
    "st_single sl s1 \<noteq> Ret None s'" "st_clear sl s1 \<noteq> Ret None s'"
    using i by (auto simp: st_limit_def st_logger_def st_info_def st_single_def st_clear_def checked_def fail_def Let_def
        split: prod.splits option.splits sum.splits if_splits)
  ultimately show False using f(1,3) by (auto simp: first_stages_def)
qed


text \<open>
  Errors that come before there is a logger are not reported at all: the process panics when the limit on open files
  was to be raised and cannot be, and when the host has no name.
\<close>

theorem early_errors_panic:
  assumes "getenv h ''MQ_ENABLE_SOFT_FILE_LIMIT_INCREASE'' = ''true'' \<and> sl_rlimit sl \<noteq> None \<or> hostname h = None"
  shows "server_main sl meanwhile served (server_start h t lk) = Some 2"
proof -
  have "run_stages (early_stages sl) (server_start h t lk) = Crash"
    using assms logger_needs_host [of h]
    by (auto simp: early_stages_def st_limit_def st_logger_def server_start_def Let_def split: prod.splits option.splits)
      (metis fst_conv option.distinct(1))+
  then show ?thesis
    by (simp add: server_main_def server_doMain_def server_startup_def run_stages_append deferred_def)
qed


section \<open>A start-up that succeeds\<close>

declare skip_parents.simps [code]

definition box_host :: host where
  "box_host =
     \<lparr>env = [''LICENSE'' \<mapsto> ''accept'', ''MQ_QMGR_NAME'' \<mapsto> ''QM1'', ''MQ_LOGGING_CONSOLE_SOURCE'' \<mapsto> ''probes''],
      files = map_of
        [(readyFile, ''1''), (''/proc/mounts'', ''/dev/v /mnt/mqm xfs rw''), (''/etc/mqm/15-tls.mqsc.tpl'', []),
         (mqweb_dir @ ''mqwebcontainer.xml.default'', ''c''), (mqweb_dir @ ''tls.xml.default'', ''t''),
         (mqweb_dir @ ''configDropins/defaults/jvm.options.default'', ''j'')],
      faults = (\<lambda>_. None), clock = 0, hostname = Some ''box'',
      exec = (\<lambda>_ a. \<lparr>cmd_out = (if hd a = ''pgrep'' then ''1'' @ [newline] else ''9.4.0.0''), cmd_rc = 0,
                 cmd_err = None\<rparr>), cmds = [], logs = []\<rparr>"

definition box_libs :: server_libs where
  "box_libs =
     \<lparr>initFlag = False, infoFlag = False, noLogRuntimeFlag = False, devFlag = False, sl_arch = ''amd64'',
      sl_log = \<lparr>ll_unmarshal = (\<lambda>_. None), ll_bad = (\<lambda>_. []), ll_go_syntax = (\<lambda>_. []), ll_err = [], ll_stamp = [],
                ll_process = \<lparr>argv0 = ''runmqserver'', process_id = 1, current_user = None\<rparr>\<rparr>,
      sl_kernel = toy_kernel, sl_rlimit = None, sl_executable = Inr ''/usr/local/bin/runmqserver'',
      sl_image = \<lparr>ImageCreated = [], ImageTag = []\<rparr>,
      sl_sys = \<lparr>sys_lstat = (\<lambda>_. Inl ''absent''), sys_stat = (\<lambda>_. Inl ''absent''), sys_dir = (\<lambda>_. Inl ''absent''),
                sys_user = (\<lambda>_. None), sys_group = (\<lambda>_. None)\<rparr>,
      sl_removable = (\<lambda>_. True), sl_remove_error = (\<lambda>_. []), sl_dir_error = (\<lambda>_. None), sl_workdir = Some ''/'',
      sl_crypto = toy_crypto, sl_templates = (\<lambda>_. Inr (\<lambda>_. ([], None))),
      sl_web = \<lparr>wl_templates = (\<lambda>_. Inr (\<lambda>_. ([], None))), wl_made = (\<lambda>_ h. h), wl_random = toy_crypto, wl_workdir = Some ''/''\<rparr>,
      sl_link_fault = (\<lambda>_. None), sl_web_files = [], sl_generate = (\<lambda>_ _ _ h. (None, h)), sl_order = id,
      sl_atoi_error = id, sl_bool_error = id, sl_sockets = \<lambda>_. None, sl_created = 493,
      sl_nodes = Map.empty\<rparr>"

lemma box_starts:
  "case server_startup box_libs (server_start box_host [] Map.empty) of Go s \<Rightarrow> True | Ret e s \<Rightarrow> False | Crash \<Rightarrow> False"
  by code_simp

lemma box_ok: "tools_ok box_libs" "web_files_ok (sl_web_files box_libs)" "links_apart Map.empty"
  by (simp_all add: tools_ok_def made_ok_def web_files_ok_def links_apart_def box_libs_def)



lemma early_errors_panic_witness:
  "server_main box_libs id id (server_start (box_host\<lparr>hostname := None\<rparr>) [] Map.empty) = Some 2"
  by (rule early_errors_panic) (simp add: box_host_def)

end
