(* ===== verification/Spec2Isabelle.thy ===== *)
theory Spec2Isabelle
  imports Redact Paths Ready Probe_Programs Probe_Summary Probe_Listener Log_Rotation Metrics_Audit Console_Log
    Mirror Signals Mq_Version Environment Keystore Templates Tls Metrics_Loop Metrics_Server
    Container_Runtime Qmgr Volumes Sensitive Secrets Web Loggers Diagnostics Dev_Server
    Server Startup
begin

text \<open>
  A model of the Go programs under src/mq-container-master that run a queue manager in a container:
  the server (cmd/runmqserver), the program that prepares the developer image (cmd/runmqdevserver), the three
  probe programs (cmd/chkmqhealthy, cmd/chkmqready, cmd/chkmqstarted) and the packages they share
  (internal and pkg).

  \<^bold>\<open>Parts and how they interact.\<close> runmqdevserver prepares the authentication and the script of the developer image
  and is then replaced by the server. The server sets up volumes, key stores and configuration files, starts the web
  server, the queue manager and the metrics, mirrors their logs to the console, and listens on sockets to
  what the probe programs report; when all is up it releases its signal handler and sets the mark of readiness. On
  a stop signal the handler writes a summary of the probes and ends the queue manager, and the server waits for its
  listeners and mirrors. The probe programs are separate processes: they look at marker files and at the output of
  the commands of MQ, give an exit code and report what they saw on the sockets of the server.

  \<^bold>\<open>Theories.\<close> The shared ones:
  \<^item> Prelude: results, generic facts, the locales of event handlers (\<open>event_handler\<close>, \<open>refined_handler\<close>).
  \<^item> Go_Strings: what the code uses of Go's strings, strconv and bufio packages; \<open>int64\<close> wraps.
  \<^item> Host: environment variables, files with a fault oracle, the clock, the commands of internal/command, log lines; the
    locale \<open>marker_store\<close> of files that stand for one bit of state.
  \<^item> Paths: internal/pathutils, internal/filecheck, internal/copy, pkg/name, pkg/mqini.
  \<^item> Loggers: pkg/syncwriter and pkg/logger, with the registry of writers and their locks.
  \<^item> Sensitive: internal/sensitive, buffers in an explicit memory of blocks; Secrets: internal/securityutility and
    internal/simpleauth.
  \<^item> Log_Rotation: pkg/logrotation, with the locale \<open>log_handler\<close>; Metrics_Audit: internal/metrics/audit.go on top of it.
  \<^item> Keystore: internal/keystore; Templates: internal/mqtemplate; Tls: internal/tls/tls.go, with the locale
    \<open>store_invariant\<close> of what every step on the stores keeps.

  The probes:
  \<^item> Ready: internal/ready/ready.go, the marker files and the status of the queue manager.
  \<^item> Probe_State, Probe_Summary: internal/probes, the messages of the probe programs and the summary at shutdown.
  \<^item> Probe_Socket: what a line of a connection does to the state of the listener; Probe_Listener: the start of the
    listeners, their goroutines and clients, and the end.
  \<^item> Probe_Programs: the three probe programs.

  The server:
  \<^item> Redact: internal/mqscredact, the removal of passwords from MQSC scripts.
  \<^item> Console_Log and Diagnostics: cmd/runmqserver/logging.go, the formats and the filters of mirrored lines, and the
    start of each mirror, termination messages and diagnostics; Mirror: cmd/runmqserver/mirror.go.
  \<^item> Signals: cmd/runmqserver/signals.go.
  \<^item> Mq_Version: internal/mqversion; Environment: internal/fips, internal/ha, cmd/runmqserver/license.go.
  \<^item> Metric_Names, Metrics, Metrics_Loop, Metrics_Server: internal/metrics, the table of metric names, the update of
    the values and the exporter, the goroutine \<open>processMetrics\<close>, and the server with its certificates.
  \<^item> Container_Runtime: internal/containerruntime, internal/user, pkg/containerruntimelogger.
  \<^item> Qmgr: cmd/runmqserver/qmgr.go, process.go, version.go; Volumes: crtmqvol.go and opentracing.go.
  \<^item> Web: cmd/runmqserver/webserver.go, post_init.go and internal/tls/tls_web.go.
  \<^item> Dev_Server: cmd/runmqdevserver.
  \<^item> Server: cmd/runmqserver/main.go, \<open>doMain\<close> as the list of its stages over the operations of the other theories;
    Startup: what the stages keep, and what follows for the program.

  \<^bold>\<open>State.\<close> Functions that only touch files, the environment and commands take the record \<open>host\<close> and return
  it. Structs of the code are records with the same fields; the local variables of \<open>doMain\<close> are the record \<open>server\<close>.
  A stage of the server goes on with a new state, makes the program return, or panics (\<open>flow\<close>). Goroutines that wait
  for something (\<open>mirrorLog\<close>, \<open>signalHandler\<close>, \<open>processMetrics\<close>, the watcher of certificates, the listeners of the
  probes) are step relations in which the environment takes its turns.

  \<^bold>\<open>What is shown.\<close> For text: that redaction hides every value and changes nothing else, and that parsers undo printers.
  For the logs: that mirroring and rotation lose and repeat nothing but what they say, and stay within their bounds. For
  the step relations: an invariant by rule induction, and that the end can be reached. For the key stores: what is
  known of a certificate after every step. For the programs: the order of the start-up, the commands that run, and on
  which errors a program ends in a panic. Errors are values of a sum or an option, and a theorem about a result says
  for every branch, or names the host without faults (\<open>healthy_host\<close>).

  \<^bold>\<open>Parameters.\<close> Code that is not in the repository is an argument: the answers of commands are a function
  in the host, encodings (JSON, PEM, X.509, PKCS#12), hash functions, time formats and the template
  language are functions or fields of a record of functions; \<open>server_libs\<close> collects those of the server. A command of MQ
  is taken not to change the files that the model looks at.

  \<^bold>\<open>Bounds and fuel.\<close> Recursions are structural or have a measure. \<open>write_loop\<close> and \<open>skip_parents\<close> may run for ever
  and are partial functions, with theorems on when they end. Fuel is used in \<open>pem_blocks\<close>, where the length of the text
  is enough because every decoded block takes at least one character (\<open>pem_fuel_enough\<close>), and in \<open>wait_active\<close>, where it is
  the number of rounds of a loop that the code repeats until the queue manager is active. Lines of 65536 bytes and more
  stop the line scanner, as in Go.

  \<^bold>\<open>Not modelled.\<close> Permissions of files other than the probe sockets, readings that fail in the middle of a file, pins and
  finalizers of memory, and interleavings inside an operation that holds a lock. The server only notes that the web
  server and the metrics were started. The programs in C under authservice, the vendored code and the tests are not
  part of the model.
\<close>

section \<open>The server and the readiness probe\<close>

lemma unmarked_not_ready: "unmarked h \<Longrightarrow> chkmqready dial h = (1, h)"
  by (auto simp: unmarked_def chkmqready_def Check_def fileExists_def os_stat_def split: option.splits)



end
